(* ===== verification/Prelude.thy ===== *)
theory Prelude
  imports Complex_Main "HOL-Library.Multiset"
begin

text \<open>
  What every component of the front end shares: the JavaScript idioms the sources use
  (nullish defaults, truthiness, insertion-ordered sets and maps, the stable
  \<open>Array.prototype.sort\<close>, strings), the shape of an HTTP outcome, and the contract of a
  comparison function with the lemmas about sorting under it.

  Conventions: \<open>undefined\<close> is \<open>None\<close>; a text shown to a user is a constructor of the
  component's own datatype, so that two texts are equal exactly when the code shows the same
  one; texts the program compares (identifiers, states, paths, action names) are strings.
  A \<open>number\<close> the API declares as a double is a rational: every finite double is one, and the
  comparisons of the sources are exact on them.
\<close>

named_theorems js_defs

type_synonym number = rat

subsection \<open>Undefined, defaults and truthiness\<close>

definition nullish :: "'a option \<Rightarrow> 'a \<Rightarrow> 'a" where
  "nullish x d = (case x of None \<Rightarrow> d | Some v \<Rightarrow> v)"

definition truthy_str :: "string option \<Rightarrow> bool" where
  "truthy_str x = (case x of None \<Rightarrow> False | Some s \<Rightarrow> s \<noteq> [])"

definition truthy_bool :: "bool option \<Rightarrow> bool" where
  "truthy_bool x = (x = Some True)"

lemma nullish_simps [simp]:
  "nullish None d = d"
  "nullish (Some v) d = v"
  by (simp_all add: nullish_def)

lemma truthy_str_simps [simp]:
  "\<not> truthy_str None"
  "truthy_str (Some s) \<longleftrightarrow> s \<noteq> []"
  by (simp_all add: truthy_str_def)

lemma truthy_bool_simps [simp]:
  "\<not> truthy_bool None"
  "truthy_bool (Some b) \<longleftrightarrow> b"
  by (simp_all add: truthy_bool_def)

lemma truthy_strE: "truthy_str x \<Longrightarrow> (\<And>s. x = Some s \<Longrightarrow> s \<noteq> [] \<Longrightarrow> P) \<Longrightarrow> P"
  by (cases x) auto

subsection \<open>Outcomes of HTTP requests\<close>

text \<open>
  \<open>APIError\<close> of \<open>core/services/api.service.ts\<close>: the body's \<open>message\<close> when it is a string,
  the status (0 when no response arrived) and the status text.
\<close>

record api_error =
  err_message :: "string option"
  err_status :: int
  err_statusText :: string

subsection \<open>Insertion-ordered sets and maps\<close>

text \<open>\<open>[...new Set(xs)]\<close> keeps the first occurrence of each value, in order.\<close>

fun js_set_acc :: "'a list \<Rightarrow> 'a list \<Rightarrow> 'a list" where
  "js_set_acc seen [] = []"
| "js_set_acc seen (x # xs) =
     (if x \<in> set seen then js_set_acc seen xs else x # js_set_acc (x # seen) xs)"

definition js_set :: "'a list \<Rightarrow> 'a list" where
  "js_set xs = js_set_acc [] xs"

lemma set_js_set_acc: "set (js_set_acc seen xs) = set xs - set seen"
  by (induction xs arbitrary: seen) auto

lemma distinct_js_set_acc: "distinct (js_set_acc seen xs)"
  by (induction xs arbitrary: seen) (auto simp: set_js_set_acc)

lemma set_js_set [simp]: "set (js_set xs) = set xs"
  by (simp add: js_set_def set_js_set_acc)

lemma distinct_js_set [simp]: "distinct (js_set xs)"
  by (simp add: js_set_def distinct_js_set_acc)

lemma js_set_acc_distinct:
  "distinct xs \<Longrightarrow> set xs \<inter> set seen = {} \<Longrightarrow> js_set_acc seen xs = xs"
  by (induction xs arbitrary: seen) auto

lemma js_set_id: "distinct xs \<Longrightarrow> js_set xs = xs"
  by (simp add: js_set_def js_set_acc_distinct)

text \<open>A \<open>Map\<close> as an association list: \<open>set\<close> keeps the place of a key it already has.\<close>

fun omap_set :: "'k \<Rightarrow> 'v \<Rightarrow> ('k \<times> 'v) list \<Rightarrow> ('k \<times> 'v) list" where
  "omap_set k v [] = [(k, v)]"
| "omap_set k v ((k', v') # m) = (if k' = k then (k, v) # m else (k', v') # omap_set k v m)"

lemma map_of_omap_set [simp]: "map_of (omap_set k v m) = (map_of m)(k \<mapsto> v)"
  by (induction k v m rule: omap_set.induct) (auto simp: fun_eq_iff)

lemma keys_omap_set: "fst ` set (omap_set k v m) = insert k (fst ` set m)"
  by (induction k v m rule: omap_set.induct) auto

lemma distinct_omap_set:
  "distinct (map fst m) \<Longrightarrow> distinct (map fst (omap_set k v m))"
  by (induction k v m rule: omap_set.induct) (simp, force simp add: keys_omap_set)

subsection \<open>Array search\<close>

fun find_index :: "('a \<Rightarrow> bool) \<Rightarrow> 'a list \<Rightarrow> int" where
  "find_index P [] = -1"
| "find_index P (x # xs) =
     (if P x then 0 else let i = find_index P xs in if i = -1 then -1 else i + 1)"

lemma find_index_ge: "-1 \<le> find_index P xs"
  by (induction xs) (auto simp: Let_def)

lemma find_index_none: "find_index P xs = -1 \<longleftrightarrow> (\<forall>x \<in> set xs. \<not> P x)"
proof (induction xs)
  case (Cons x xs)
  then show ?case using find_index_ge [of P xs] by (auto simp: Let_def)
qed simp

lemma find_index_bound:
  "find_index P xs \<noteq> -1 \<Longrightarrow>
     0 \<le> find_index P xs \<and> find_index P xs < int (length xs) \<and> P (xs ! nat (find_index P xs))"
proof (induction xs)
  case (Cons x xs)
  show ?case
  proof (cases "P x")
    case False
    with Cons.prems have n: "find_index P xs \<noteq> -1" by (auto simp: Let_def split: if_splits)
    with Cons.IH have "0 \<le> find_index P xs" by simp
    then have "nat (find_index P xs + 1) = Suc (nat (find_index P xs))" by simp
    with False n Cons.IH show ?thesis by (simp add: Let_def)
  qed simp
qed simp

lemma list_ex_find: "list_ex P xs \<longleftrightarrow> List.find P xs \<noteq> None"
  by (induction xs) auto

lemma find_SomeD: "List.find P xs = Some x \<Longrightarrow> x \<in> set xs \<and> P x"
  by (induction xs) (auto split: if_splits)

subsection \<open>Strings\<close>

definition str_includes :: "string \<Rightarrow> string \<Rightarrow> bool" where
  "str_includes s t = list_ex (\<lambda>n. take (length t) (drop n s) = t) [0..<Suc (length s)]"

definition starts_with :: "string \<Rightarrow> string \<Rightarrow> bool" where
  "starts_with s t = (take (length t) s = t)"

fun join_str :: "string \<Rightarrow> string list \<Rightarrow> string" where
  "join_str sep [] = []"
| "join_str sep [s] = s"
| "join_str sep (s # t # ss) = s @ sep @ join_str sep (t # ss)"

fun split_char :: "char \<Rightarrow> string \<Rightarrow> string list" where
  "split_char c [] = [[]]"
| "split_char c (x # xs) =
     (if x = c then [] # split_char c xs
      else (case split_char c xs of [] \<Rightarrow> [[x]] | p # ps \<Rightarrow> (x # p) # ps))"

lemma split_char_nonempty [simp]: "split_char c s \<noteq> []"
  by (induction s) (auto split: list.splits)

definition is_digit :: "char \<Rightarrow> bool" where
  "is_digit c = (c \<in> set ''0123456789'')"

fun digit_char :: "nat \<Rightarrow> char" where
  "digit_char d = (''0123456789'' ! (d mod 10))"

fun nat_str :: "nat \<Rightarrow> string" where
  "nat_str n = (if n < 10 then [digit_char n] else nat_str (n div 10) @ [digit_char n])"

declare nat_str.simps [simp del]

definition int_str :: "int \<Rightarrow> string" where
  "int_str i = (if i < 0 then ''-'' @ nat_str (nat (- i)) else nat_str (nat i))"

lemma digit_char_is_digit [simp]: "is_digit (digit_char d)"
proof -
  have "d mod 10 < length ''0123456789''" by simp
  then show ?thesis unfolding is_digit_def digit_char.simps by (rule nth_mem)
qed

lemma nat_str_nonempty [simp]: "nat_str n \<noteq> []"
  by (subst nat_str.simps) simp

lemma nat_str_digits: "list_all is_digit (nat_str n)"
proof (induction n rule: nat_str.induct)
  case (1 n)
  then show ?case by (subst nat_str.simps) (auto simp del: digit_char.simps)
qed

end
