(* ===== verification/Js_Number.thy ===== *)
theory Js_Number
  imports Prelude
begin

text \<open>
  The \<open>number\<close> type as \<open>String(value)\<close> prints it: the shortest decimal that reads back as the
  same double. A nonzero finite number is \<open>Dec neg s n\<close>, with \<open>s\<close> its significant digits (\<open>k\<close>
  of them, the last not 0) and value \<open>s * 10 ^ (n - k)\<close>: the numbers \<open>s\<close>, \<open>k\<close>, \<open>n\<close> of
  ECMAScript's Number::toString. Shortest decimals are ordered as their doubles are, so
  comparing them with a literal compares the doubles.
\<close>

datatype js_number = NaN | Infinite bool | Zero | Dec bool nat int

definition digits_of :: "nat \<Rightarrow> string" where
  "digits_of s = nat_str s"

fun wf_number :: "js_number \<Rightarrow> bool" where
  "wf_number (Dec neg s n) = (0 < s \<and> s mod 10 \<noteq> 0)"
| "wf_number _ = True"

definition pow10 :: "int \<Rightarrow> rat" where
  "pow10 e = (if 0 \<le> e then 10 ^ nat e else 1 / 10 ^ nat (- e))"

fun number_val :: "js_number \<Rightarrow> rat" where
  "number_val (Dec neg s n) =
     (if neg then -1 else 1) * of_nat s * pow10 (n - int (length (digits_of s)))"
| "number_val _ = 0"

subsection \<open>\<open>String(value)\<close>\<close>

definition exponent_str :: "int \<Rightarrow> string" where
  "exponent_str e = ''e'' @ (if 0 \<le> e then ''+'' else ''-'') @ nat_str (nat \<bar>e\<bar>)"

definition positive_str :: "string \<Rightarrow> int \<Rightarrow> string" where
  "positive_str ds n =
     (let k = int (length ds) in
      if k \<le> n \<and> n \<le> 21 then ds @ replicate (nat (n - k)) CHR ''0''
      else if 0 < n \<and> n \<le> 21 then take (nat n) ds @ ''.'' @ drop (nat n) ds
      else if - 6 < n \<and> n \<le> 0 then ''0.'' @ replicate (nat (- n)) CHR ''0'' @ ds
      else if k = 1 then ds @ exponent_str (n - 1)
      else take 1 ds @ ''.'' @ drop 1 ds @ exponent_str (n - 1))"

fun number_str :: "js_number \<Rightarrow> string" where
  "number_str NaN = ''NaN''"
| "number_str (Infinite neg) = (if neg then ''-'' else []) @ ''Infinity''"
| "number_str Zero = ''0''"
| "number_str (Dec neg s n) = (if neg then ''-'' else []) @ positive_str (digits_of s) n"

fun is_finite :: "js_number \<Rightarrow> bool" where
  "is_finite NaN = False"
| "is_finite (Infinite _) = False"
| "is_finite _ = True"

subsection \<open>Digits\<close>

lemma nat_str_step: "10 \<le> n \<Longrightarrow> nat_str n = nat_str (n div 10) @ [digit_char n]"
  by (subst nat_str.simps) simp

lemma nat_str_length_bounds:
  "0 < n \<Longrightarrow> 10 ^ (length (nat_str n) - 1) \<le> n \<and> n < 10 ^ length (nat_str n)"
proof (induction n rule: nat_str.induct)
  case (1 n)
  show ?case
  proof (cases "n < 10")
    case True
    with 1 show ?thesis by (subst (1 2) nat_str.simps) simp
  next
    case False
    let ?L = "length (nat_str (n div 10))"
    have L: "0 < ?L" by simp
    have IH: "10 ^ (?L - 1) \<le> n div 10 \<and> n div 10 < 10 ^ ?L"
      using 1 False by simp
    have "length (nat_str n) = Suc ?L" using False by (simp add: nat_str_step)
    moreover have "10 ^ ?L \<le> n"
    proof -
      have "(10::nat) ^ ?L = 10 * 10 ^ (?L - 1)" using L by (cases ?L) auto
      also have "\<dots> \<le> 10 * (n div 10)" using IH by simp
      finally show ?thesis by simp
    qed
    moreover have "n < 10 ^ Suc ?L"
    proof -
      have "n < 10 * (n div 10 + 1)" by simp
      also have "\<dots> \<le> 10 * 10 ^ ?L" using IH by (intro mult_left_mono) auto
      finally show ?thesis by simp
    qed
    ultimately show ?thesis by simp
  qed
qed

lemma all_digits_of [simp]: "list_all is_digit (digits_of s)"
  by (simp add: digits_of_def nat_str_digits)

lemma digits_of_nonempty [simp]: "digits_of s \<noteq> []"
  by (simp add: digits_of_def)

lemma not_digits [simp]: "\<not> is_digit CHR ''.''" "\<not> is_digit CHR ''e''" "\<not> is_digit CHR ''-''"
  and digit_zero [simp]: "is_digit CHR ''0''"
  by (simp_all add: is_digit_def)

subsection \<open>Powers of ten\<close>

lemma pow10_pos [simp]: "0 < pow10 e"
  by (simp add: pow10_def)

lemma pow10_add: "pow10 (a + b) = pow10 a * pow10 b"
proof -
  have p: "pow10 e = 10 powi e" for e
    by (simp add: pow10_def power_int_def field_simps)
  show ?thesis by (simp add: p power_int_add)
qed

lemma pow10_mono: "a \<le> b \<Longrightarrow> pow10 a \<le> pow10 b"
proof -
  assume "a \<le> b"
  then have "pow10 b = pow10 a * 10 ^ nat (b - a)"
    using pow10_add [of a "b - a"] by (simp add: pow10_def)
  moreover have "(1::rat) \<le> 10 ^ nat (b - a)" by simp
  ultimately show ?thesis by simp
qed

lemma dec_val_ge:
  assumes "0 < s"
  shows "pow10 (n - 1) \<le> of_nat s * pow10 (n - int (length (digits_of s)))"
proof -
  let ?k = "length (digits_of s)"
  have k: "0 < ?k" by simp
  have "10 ^ (?k - 1) \<le> s"
    using nat_str_length_bounds [OF assms] by (simp add: digits_of_def)
  then have "(10::rat) ^ (?k - 1) \<le> of_nat s"
    by (metis of_nat_le_iff of_nat_numeral of_nat_power)
  then have "pow10 (int ?k - 1) \<le> of_nat s"
  proof -
    have "nat (int ?k - 1) = ?k - 1" by arith
    with k \<open>(10::rat) ^ (?k - 1) \<le> of_nat s\<close> show ?thesis by (simp add: pow10_def Suc_le_eq)
  qed
  then have "pow10 (int ?k - 1) * pow10 (n - int ?k) \<le> of_nat s * pow10 (n - int ?k)"
    by (intro mult_right_mono) (simp_all add: less_imp_le)
  then show ?thesis by (simp flip: pow10_add)
qed

end
