(* ===== verification/Json.thy ===== *)
theory Json
  imports Js_Number
begin

text \<open>
  JSON values and \<open>JSON.stringify\<close> without indentation, as the API client uses it on query
  parameters and the table selection on rows. Object members keep their order; a number that
  is not finite prints as \<open>null\<close>.
\<close>

datatype json =
    JNull
  | JBool bool
  | JNum js_number
  | JStr string
  | JArr "json list"
  | JObj "(string \<times> json) list"

definition hex_digit :: "nat \<Rightarrow> char" where
  "hex_digit d = (''0123456789abcdef'' ! (d mod 16))"

definition escape_char :: "char \<Rightarrow> string" where
  "escape_char c =
     (let n = of_char c :: nat in
      if n = 34 then [CHR 92, CHR 34]
      else if n = 92 then [CHR 92, CHR 92]
      else if n = 8 then [CHR 92, CHR ''b'']
      else if n = 12 then [CHR 92, CHR ''f'']
      else if n = 10 then [CHR 92, CHR ''n'']
      else if n = 13 then [CHR 92, CHR ''r'']
      else if n = 9 then [CHR 92, CHR ''t'']
      else if n < 32 then [CHR 92] @ ''u00'' @ [hex_digit (n div 16), hex_digit n]
      else [c])"

definition quote_str :: "string \<Rightarrow> string" where
  "quote_str s = [CHR 34] @ concat (map escape_char s) @ [CHR 34]"

fun stringify :: "json \<Rightarrow> string" where
  "stringify JNull = ''null''"
| "stringify (JBool b) = (if b then ''true'' else ''false'')"
| "stringify (JNum v) = (if is_finite v then number_str v else ''null'')"
| "stringify (JStr s) = quote_str s"
| "stringify (JArr vs) = ''['' @ join_str '','' (map stringify vs) @ '']''"
| "stringify (JObj ms) =
     CHR 123 # join_str '','' (map (\<lambda>(k, v). quote_str k @ '':'' @ stringify v) ms) @ [CHR 125]"

end
