(* ===== verification/Api_Types.thy ===== *)
theory Api_Types
  imports Json
begin

text \<open>
  \<open>core/api/openapi.ts\<close>: the schemas of the values the server and the front end exchange, and
  the table of endpoints with the methods, URL parameters, query parameters and bodies each
  one declares. Every property of a schema is optional there, so every field is an
  \<open>option\<close>; a property that may also be \<open>null\<close> is an option of an option. Integers keep
  \<open>int\<close> (the schemas declare \<open>int32\<close> and \<open>int64\<close>), doubles are rationals. Members and
  units hold each other, and so do templates, attachments, campaigns and e-mails: these are
  datatypes with selectors, the others records.
\<close>

subsection \<open>Schemas\<close>

record AddAttachmentInput =
  aai_Content :: "string option"
  aai_ContentType :: "string option"
  aai_Inline :: "bool option"
  aai_Name :: "string option"

record AddMemberUnitInput =
  amui_unit_id :: "string option"

record AuthAccessRequestSummary =
  ars_pending :: "int option"

record AuthPublicAuthConfig =
  cfg_label :: "string option"
  cfg_login_url :: "string option"
  cfg_mode :: "string option"

record AuthUserIdentity =
  idn_issuer :: "string option"
  idn_subject :: "string option"

record AuthUser =
  usr_access_status :: "string option"
  usr_actions :: "string list option"
  usr_admin :: "bool option"
  usr_created_at :: "string option"
  usr_enabled :: "bool option"
  usr_id :: "string option"
  usr_identities :: "AuthUserIdentity list option"
  usr_tour_version :: "int option"
  usr_updated_at :: "string option"
  usr_username :: "string option"

record CreateBudgetInput =
  cbi_label :: "string option"

record CreateEmailCampaignInput =
  ceci_data :: "json option"
  ceci_template :: "string option"
  ceci_title :: "string option"

record CreateEmailTemplateInput =
  ceti_label :: "string option"
  ceti_message :: "string option"
  ceti_subject :: "string option"

record CreateExpenseInput =
  cei_amount :: "number option"
  cei_label :: "string option"

record CreateFinancialEntryInput =
  cfei_amount :: "number option"
  cfei_date :: "string option"
  cfei_id :: "string option"
  cfei_kind :: "string option"
  cfei_reason :: "string option"
  cfei_reference :: "string option"
  cfei_reverses_id :: "string option"
  cfei_version :: "string option"

record CreateMemberInput =
  cmi_address :: "string option"
  cmi_bureau :: "bool option option"
  cmi_email :: "string option"
  cmi_first_name :: "string option"
  cmi_last_name :: "string option"
  cmi_phone_number :: "string option"

record CreatePaymentInput =
  cpi_amount :: "number option"
  cpi_comment :: "string option"
  cpi_date :: "string option"

record CreateUnitInput =
  cui_address :: "string option"
  cui_number :: "int option"
  cui_share :: "int option"

record CreateUserInput =
  cusi_actions :: "string list option"
  cusi_admin :: "bool option"
  cusi_enabled :: "bool option"
  cusi_username :: "string option"

record MailingsInvalidMember =
  mim_id :: "string option"
  mim_name :: "string option"
  mim_reason :: "string option"

record MailingsListPlan =
  mlp_add :: "string list option"
  mlp_current :: "string list option"
  mlp_expected :: "string list option"
  mlp_group :: "string option"
  mlp_name :: "string option"
  mlp_pending_tasks :: "int list option"
  mlp_remove :: "string list option"

record MailingsPlan =
  mpl_can_apply :: "bool option"
  mpl_configured :: "bool option"
  mpl_domain :: "string option"
  mpl_invalid :: "MailingsInvalidMember list option"
  mpl_lists :: "MailingsListPlan list option"
  mpl_token :: "string option"

record MailingsResult =
  mrs_message :: "string option"
  mrs_partial :: "bool option"
  mrs_plan :: "MailingsPlan option"
  mrs_verified :: "bool option"

record TemplatesCustomField =
  tcf_complex :: "bool option"
  tcf_name :: "string option"

record TemplatesFieldDescription =
  tfd_advanced :: "bool option"
  tfd_fields :: "TemplatesCustomField list option"

datatype ModelsAttachment =
  MkModelsAttachment
    (att_content_type: "string option")
    (att_created_at: "string option")
    (att_id: "string option")
    (att_inline: "bool option")
    (att_name: "string option")
    (att_size: "int option")
    (att_template: "ModelsEmailTemplate option")
    (att_template_id: "string option")
    (att_updated_at: "string option")
and ModelsEmailTemplate =
  MkModelsEmailTemplate
    (tpl_attachments: "ModelsAttachment list option")
    (tpl_campaigns: "ModelsEmailCampaign list option")
    (tpl_created_at: "string option")
    (tpl_custom_fields: "TemplatesFieldDescription option")
    (tpl_id: "string option")
    (tpl_label: "string option")
    (tpl_message: "string option")
    (tpl_subject: "string option")
    (tpl_updated_at: "string option")
and ModelsEmailCampaign =
  MkModelsEmailCampaign
    (cmp_created_at: "string option")
    (cmp_data: "json option")
    (cmp_emails: "ModelsEmail list option")
    (cmp_id: "string option")
    (cmp_template: "ModelsEmailTemplate option")
    (cmp_template_id: "string option")
    (cmp_title: "string option")
    (cmp_updated_at: "string option")
and ModelsEmail =
  MkModelsEmail
    (eml_campaign: "ModelsEmailCampaign option")
    (eml_campaign_id: "string option")
    (eml_created_at: "string option")
    (eml_data: "json option")
    (eml_error: "string option")
    (eml_id: "string option")
    (eml_message: "string option")
    (eml_state: "string option")
    (eml_subject: "string option")
    (eml_to: "string option")
    (eml_updated_at: "string option")

record ModelsBudget =
  bud_created_at :: "string option"
  bud_draft :: "bool option"
  bud_id :: "string option"
  bud_label :: "string option"
  bud_updated_at :: "string option"

record ModelsBudgetPreview =
  bpv_amount :: "number option"
  bpv_annual_per_share :: "number option"
  bpv_message :: "string option"
  bpv_monthly_per_share :: "number option"
  bpv_months :: "int option"
  bpv_ready :: "bool option"
  bpv_total_shares :: "int option"

record ModelsBudgetResult =
  bur_adjustment :: "number option"
  bur_amount :: "number option"
  bur_called :: "number option"
  bur_created_at :: "string option"
  bur_draft :: "bool option"
  bur_gross_paid :: "number option"
  bur_id :: "string option"
  bur_label :: "string option"
  bur_paid :: "number option"
  bur_preview :: "ModelsBudgetPreview option"
  bur_refunded :: "number option"
  bur_updated_at :: "string option"

datatype ModelsMember =
  MkModelsMember
    (mem_address: "string option")
    (mem_bureau: "bool option")
    (mem_created_at: "string option")
    (mem_email: "string option")
    (mem_first_name: "string option")
    (mem_id: "string option")
    (mem_last_name: "string option")
    (mem_phone_number: "string option")
    (mem_units: "ModelsUnit list option")
    (mem_updated_at: "string option")
and ModelsUnit =
  MkModelsUnit
    (unt_address: "string option")
    (unt_created_at: "string option")
    (unt_id: "string option")
    (unt_members: "ModelsMember list option")
    (unt_number: "int option")
    (unt_share: "int option")
    (unt_updated_at: "string option")

record ModelsCotisationResult =
  ctr_adjustment :: "number option"
  ctr_amount :: "number option"
  ctr_budget :: "ModelsBudget option"
  ctr_budget_id :: "string option"
  ctr_created_at :: "string option"
  ctr_gross_paid :: "number option"
  ctr_id :: "string option"
  ctr_initial_amount :: "number option"
  ctr_paid :: "number option"
  ctr_payment_state :: "int option"
  ctr_refunded :: "number option"
  ctr_remaining :: "number option"
  ctr_unit :: "ModelsUnit option"
  ctr_unit_id :: "string option"
  ctr_updated_at :: "string option"

record ModelsMonthlyCollection =
  mco_cumulative :: "number option"
  mco_month :: "int option"
  mco_net :: "number option"
  mco_payments :: "number option"
  mco_refunds :: "number option"

record ModelsRecoverySummary =
  rec_called :: "number option"
  rec_covered :: "number option"
  rec_lots :: "int option"
  rec_overpaid :: "int option"
  rec_paid :: "number option"
  rec_partial :: "int option"
  rec_rate :: "number option option"
  rec_refunded :: "number option"
  rec_remaining :: "number option"
  rec_settled :: "int option"
  rec_surplus :: "number option"
  rec_unpaid :: "int option"

record ModelsBudgetDashboard =
  bdb_budget :: "ModelsBudgetResult option"
  bdb_cotisations :: "ModelsCotisationResult list option"
  bdb_months :: "ModelsMonthlyCollection list option"
  bdb_recovery :: "ModelsRecoverySummary option"
  bdb_timezone :: "string option"
  bdb_year :: "int option"
  bdb_years :: "int list option"

record ModelsBuiltEmail =
  bem_message :: "string option"
  bem_subject :: "string option"

record ModelsCotisation =
  cot_amount :: "number option"
  cot_budget :: "ModelsBudget option"
  cot_budget_id :: "string option"
  cot_created_at :: "string option"
  cot_id :: "string option"
  cot_unit :: "ModelsUnit option"
  cot_unit_id :: "string option"
  cot_updated_at :: "string option"

record ModelsDirectoryQuality =
  dqy_invalid_shares :: "int option"
  dqy_missing_email :: "int option"
  dqy_no_member :: "int option"

record ModelsEmailCounts =
  cnt_error :: "int option"
  cnt_sending :: "int option"
  cnt_successful :: "int option"
  cnt_total :: "int option"
  cnt_unknown :: "int option"
  cnt_waiting :: "int option"

record ModelsEmailCampaignSummary =
  csm_counts :: "ModelsEmailCounts option"
  csm_created_at :: "string option"
  csm_id :: "string option"
  csm_title :: "string option"

record ModelsEmailCampaignPage =
  cpg_items :: "ModelsEmailCampaignSummary list option"
  cpg_page :: "int option"
  cpg_page_size :: "int option"
  cpg_total :: "int option"

record ModelsEmailDashboard =
  edb_campaigns :: "int option"
  edb_counts :: "ModelsEmailCounts option"
  edb_recent :: "ModelsEmailCampaignSummary list option"

record ModelsEmailSummary =
  esm_created_at :: "string option"
  esm_has_error :: "bool option"
  esm_id :: "string option"
  esm_state :: "string option"
  esm_subject :: "string option"
  esm_to :: "string option"

record ModelsEmailPage =
  epg_items :: "ModelsEmailSummary list option"
  epg_page :: "int option"
  epg_page_size :: "int option"
  epg_total :: "int option"

record ModelsEmailStatus =
  est_error :: "string option"
  est_id :: "string option"
  est_state :: "string option"

record ModelsExpense =
  exp_amount :: "number option"
  exp_budget :: "ModelsBudget option"
  exp_budget_id :: "string option"
  exp_created_at :: "string option"
  exp_id :: "string option"
  exp_label :: "string option"
  exp_updated_at :: "string option"

record ModelsFinancialEntry =
  fen_amount :: "number option"
  fen_cotisation_id :: "string option"
  fen_created_at :: "string option"
  fen_date :: "string option"
  fen_id :: "string option"
  fen_kind :: "string option"
  fen_reason :: "string option"
  fen_reference :: "string option"
  fen_reverses_id :: "string option option"
  fen_user :: "AuthUser option"
  fen_user_id :: "string option"

record ModelsFinancialPreview =
  fpv_called_after :: "number option"
  fpv_called_before :: "number option"
  fpv_paid_after :: "number option"
  fpv_paid_before :: "number option"
  fpv_remaining_after :: "number option"
  fpv_version :: "string option"

record ModelsPayment =
  pay_amount :: "number option"
  pay_comment :: "string option"
  pay_cotisation :: "ModelsCotisation option"
  pay_cotisation_id :: "string option"
  pay_created_at :: "string option"
  pay_date :: "string option"
  pay_id :: "string option"
  pay_updated_at :: "string option"
  pay_user :: "AuthUser option"
  pay_user_id :: "string option"

record PreviewBudgetEmailInput =
  pbei_data :: "json option"
  pbei_member_id :: "string option"
  pbei_send_to_doing :: "bool option option"
  pbei_send_to_paid :: "bool option option"
  pbei_template_id :: "string option"

record PreviewEmailTemplateInput =
  peti_data :: "json option"

record PreviewFinancialEntryInput =
  pfei_amount :: "number option"
  pfei_date :: "string option"
  pfei_id :: "string option"
  pfei_kind :: "string option"
  pfei_reason :: "string option"
  pfei_reference :: "string option"
  pfei_reverses_id :: "string option"
  pfei_version :: "string option"

record SendBudgetEmailInput =
  sbei_data :: "json option"
  sbei_send_to_doing :: "bool option"
  sbei_send_to_paid :: "bool option"
  sbei_template_id :: "string option"

record SendEmailInput =
  sei_wait :: "bool option"

record ServerAPIError =
  sae_message :: "string option"

record ServerLogoutResult =
  slr_redirect_url :: "string option"

record ServerPingOut =
  spo_message :: "string option"
  spo_status :: "string option"

record SyncMailingListsInput =
  smli_token :: "string option"

record TourStep =
  tsp_capabilities :: "string list option"
  tsp_changes :: "string list option"
  tsp_description :: "string option"
  tsp_id :: "string option"
  tsp_revision :: "int option"
  tsp_seen_revision :: "int option"
  tsp_title :: "string option"

record TourState =
  tst_seen_version :: "int option"
  tst_steps :: "TourStep list option"
  tst_version :: "int option"

record UpdateBudgetInput =
  ubi_label :: "string option"

record UpdateEmailTemplateInput =
  ueti_label :: "string option"
  ueti_message :: "string option"
  ueti_subject :: "string option"

record UpdateExpenseInput =
  uei_amount :: "number option"
  uei_label :: "string option"

record UpdateMemberInput =
  umi_address :: "string option"
  umi_bureau :: "bool option option"
  umi_email :: "string option"
  umi_first_name :: "string option"
  umi_last_name :: "string option"
  umi_phone_number :: "string option"

record UpdatePaymentInput =
  upi_amount :: "number option"
  upi_comment :: "string option"
  upi_date :: "string option"

record UpdateUnitInput =
  uui_address :: "string option"
  uui_number :: "int option"
  uui_share :: "int option"

record UpdateUserInput =
  uusi_access_decision :: "string option"
  uusi_actions :: "string list option"
  uusi_admin :: "bool option"
  uusi_enabled :: "bool option"
  uusi_expected_updated_at :: "string option option"
  uusi_username :: "string option"

record ViewTourStepInput =
  vtsi_revision :: "int option"
  vtsi_step_id :: "string option"
  vtsi_version :: "int option"

subsection \<open>Endpoints\<close>

datatype http_method = Get | Post | Put | Delete

record endpoint =
  ep_path :: string
  ep_method :: http_method
  ep_urlParams :: "string list"
  ep_query :: "string list"
  ep_body :: "string option"

definition ep ::
  "string \<Rightarrow> http_method \<Rightarrow> string list \<Rightarrow> string list \<Rightarrow> string option \<Rightarrow> endpoint" where
  "ep p m us qs b = \<lparr>ep_path = p, ep_method = m, ep_urlParams = us, ep_query = qs, ep_body = b\<rparr>"

definition auth_endpoints :: "endpoint list" where
  "auth_endpoints = [
    ep ''/api/auth/access-requests/summary'' Get [] [] None,
    ep ''/api/auth/actions'' Get [] [] None,
    ep ''/api/auth/config'' Get [] [] None,
    ep ''/api/auth/logout'' Post [] [] None,
    ep ''/api/auth/me'' Get [] [] None,
    ep ''/api/auth/tour'' Get [] [] None,
    ep ''/api/auth/tour/progress'' Post [] [] (Some ''ViewTourStepInput''),
    ep ''/api/auth/users'' Get [] [''status''] None,
    ep ''/api/auth/users'' Post [] [] (Some ''CreateUserInput''),
    ep ''/api/auth/users/{user_id}'' Get [''user_id''] [] None,
    ep ''/api/auth/users/{user_id}'' Put [''user_id''] [] (Some ''UpdateUserInput''),
    ep ''/api/auth/users/{user_id}'' Delete [''user_id''] [] None]"

definition budget_endpoints :: "endpoint list" where
  "budget_endpoints = [
    ep ''/api/budget'' Get [] [] None,
    ep ''/api/budget'' Post [] [] (Some ''CreateBudgetInput''),
    ep ''/api/budget/{budget_id}'' Get [''budget_id''] [] None,
    ep ''/api/budget/{budget_id}'' Put [''budget_id''] [] (Some ''UpdateBudgetInput''),
    ep ''/api/budget/{budget_id}'' Delete [''budget_id''] [] None,
    ep ''/api/budget/{budget_id}/cotisations'' Get [''budget_id''] [] None,
    ep ''/api/budget/{budget_id}/cotisations/{cotisation_id}/entries'' Get [''budget_id'', ''cotisation_id''] [] None,
    ep ''/api/budget/{budget_id}/cotisations/{cotisation_id}/entries'' Post [''budget_id'', ''cotisation_id''] [] (Some ''CreateFinancialEntryInput''),
    ep ''/api/budget/{budget_id}/cotisations/{cotisation_id}/entries/preview'' Post [''budget_id'', ''cotisation_id''] [] (Some ''PreviewFinancialEntryInput''),
    ep ''/api/budget/{budget_id}/cotisations/{cotisation_id}/payments'' Get [''budget_id'', ''cotisation_id''] [] None,
    ep ''/api/budget/{budget_id}/cotisations/{cotisation_id}/payments'' Post [''budget_id'', ''cotisation_id''] [] (Some ''CreatePaymentInput''),
    ep ''/api/budget/{budget_id}/cotisations/{cotisation_id}/payments/{payment_id}'' Put [''budget_id'', ''cotisation_id'', ''payment_id''] [] (Some ''UpdatePaymentInput''),
    ep ''/api/budget/{budget_id}/cotisations/{cotisation_id}/payments/{payment_id}'' Delete [''budget_id'', ''cotisation_id'', ''payment_id''] [] None,
    ep ''/api/budget/{budget_id}/dashboard'' Get [''budget_id''] [''year''] None,
    ep ''/api/budget/{budget_id}/email'' Post [''budget_id''] [] (Some ''SendBudgetEmailInput''),
    ep ''/api/budget/{budget_id}/email-preview'' Post [''budget_id''] [] (Some ''PreviewBudgetEmailInput''),
    ep ''/api/budget/{budget_id}/expenses'' Get [''budget_id''] [] None,
    ep ''/api/budget/{budget_id}/expenses'' Post [''budget_id''] [] (Some ''CreateExpenseInput''),
    ep ''/api/budget/{budget_id}/expenses/{expense_id}'' Put [''budget_id'', ''expense_id''] [] (Some ''UpdateExpenseInput''),
    ep ''/api/budget/{budget_id}/expenses/{expense_id}'' Delete [''budget_id'', ''expense_id''] [] None,
    ep ''/api/budget/{budget_id}/publish'' Post [''budget_id''] [] None]"

definition dashboard_endpoints :: "endpoint list" where
  "dashboard_endpoints = [
    ep ''/api/dashboard/directory'' Get [] [] None,
    ep ''/api/dashboard/emails'' Get [] [] None]"

definition email_endpoints :: "endpoint list" where
  "email_endpoints = [
    ep ''/api/email/campaigns'' Get [] [''direction'', ''page'', ''page_size'', ''query'', ''sort'', ''state''] None,
    ep ''/api/email/campaigns'' Post [] [] (Some ''CreateEmailCampaignInput''),
    ep ''/api/email/campaigns/{campaign_id}'' Get [''campaign_id''] [] None,
    ep ''/api/email/campaigns/{campaign_id}'' Delete [''campaign_id''] [] None,
    ep ''/api/email/campaigns/{campaign_id}/emails'' Get [''campaign_id''] [''direction'', ''page'', ''page_size'', ''query'', ''sort'', ''state''] None,
    ep ''/api/email/templates'' Get [] [] None,
    ep ''/api/email/templates'' Post [] [] (Some ''CreateEmailTemplateInput''),
    ep ''/api/email/templates/{template_id}'' Get [''template_id''] [] None,
    ep ''/api/email/templates/{template_id}'' Put [''template_id''] [] (Some ''UpdateEmailTemplateInput''),
    ep ''/api/email/templates/{template_id}'' Delete [''template_id''] [] None,
    ep ''/api/email/templates/{template_id}/attachments'' Get [''template_id''] [] None,
    ep ''/api/email/templates/{template_id}/attachments'' Post [''template_id''] [] (Some ''AddAttachmentInput''),
    ep ''/api/email/templates/{template_id}/attachments/{attachment_id}'' Get [''attachment_id'', ''template_id''] [] None,
    ep ''/api/email/templates/{template_id}/attachments/{attachment_id}'' Delete [''attachment_id'', ''template_id''] [] None,
    ep ''/api/email/templates/{template_id}/preview'' Post [''template_id''] [] (Some ''PreviewEmailTemplateInput''),
    ep ''/api/email/{email_id}'' Get [''email_id''] [] None,
    ep ''/api/email/{email_id}'' Delete [''email_id''] [] None,
    ep ''/api/email/{email_id}/send'' Post [''email_id''] [] (Some ''SendEmailInput''),
    ep ''/api/email/{email_id}/set-error'' Post [''email_id''] [] None,
    ep ''/api/email/{email_id}/status'' Get [''email_id''] [] None,
    ep ''/api/email/{email_id}/tracker'' Get [''email_id''] [] None]"

definition mailing_endpoints :: "endpoint list" where
  "mailing_endpoints = [
    ep ''/api/mailing-lists/preview'' Get [] [] None,
    ep ''/api/mailing-lists/sync'' Post [] [] (Some ''SyncMailingListsInput'')]"

definition member_endpoints :: "endpoint list" where
  "member_endpoints = [
    ep ''/api/member'' Get [] [] None,
    ep ''/api/member'' Post [] [] (Some ''CreateMemberInput''),
    ep ''/api/member/{member_id}'' Get [''member_id''] [] None,
    ep ''/api/member/{member_id}'' Put [''member_id''] [] (Some ''UpdateMemberInput''),
    ep ''/api/member/{member_id}'' Delete [''member_id''] [] None,
    ep ''/api/member/{member_id}/units'' Post [''member_id''] [] (Some ''AddMemberUnitInput''),
    ep ''/api/member/{member_id}/units/{unit_id}'' Delete [''member_id'', ''unit_id''] [] None]"

definition unit_endpoints :: "endpoint list" where
  "unit_endpoints = [
    ep ''/api/mon/ping'' Get [] [] None,
    ep ''/api/unit'' Get [] [] None,
    ep ''/api/unit'' Post [] [] (Some ''CreateUnitInput''),
    ep ''/api/unit/{unit_id}'' Get [''unit_id''] [] None,
    ep ''/api/unit/{unit_id}'' Put [''unit_id''] [] (Some ''UpdateUnitInput''),
    ep ''/api/unit/{unit_id}'' Delete [''unit_id''] [] None,
    ep ''/api/unit/{unit_id}/members'' Get [''unit_id''] [] None]"

definition endpoints :: "endpoint list" where
  "endpoints = auth_endpoints @ budget_endpoints @ dashboard_endpoints @ email_endpoints
     @ mailing_endpoints @ member_endpoints @ unit_endpoints"

end
