(* ===== verification/Api_Service.thy ===== *)
theory Api_Service
  imports Api_Types
begin

text \<open>
  \<open>core/services/api.service.ts\<close>: one definition per operation of \<open>ApiService\<close>, giving the
  options it hands to \<open>request\<close>, and the construction of the HTTP request from them. Sending
  is the client library's; the outcome of a request reaches the components as an event of
  their own step relations.

  The datatype \<open>api_call\<close> has one constructor per operation that goes through \<open>request\<close>; the
  components emit its values. The two operations on the content of an attachment build their
  request by hand: \<open>Api_Request\<close> adds them to make every request of the service.
\<close>

subsection \<open>Options\<close>

datatype query_value = QStr string | QInt int | QJson json

type_synonym query = "(string \<times> query_value option) list"

datatype api_body =
    BodyViewTourStepInput ViewTourStepInput
  | BodyPreviewFinancialEntryInput PreviewFinancialEntryInput
  | BodyCreateFinancialEntryInput CreateFinancialEntryInput
  | BodyCreateBudgetInput CreateBudgetInput
  | BodyUpdateBudgetInput UpdateBudgetInput
  | BodyPreviewBudgetEmailInput PreviewBudgetEmailInput
  | BodySendBudgetEmailInput SendBudgetEmailInput
  | BodyCreateExpenseInput CreateExpenseInput
  | BodyUpdateExpenseInput UpdateExpenseInput
  | BodyCreatePaymentInput CreatePaymentInput
  | BodyUpdatePaymentInput UpdatePaymentInput
  | BodyCreateUnitInput CreateUnitInput
  | BodyUpdateUnitInput UpdateUnitInput
  | BodyCreateMemberInput CreateMemberInput
  | BodyUpdateMemberInput UpdateMemberInput
  | BodyCreateUserInput CreateUserInput
  | BodyUpdateUserInput UpdateUserInput
  | BodyCreateEmailTemplateInput CreateEmailTemplateInput
  | BodyUpdateEmailTemplateInput UpdateEmailTemplateInput
  | BodyCreateEmailCampaignInput CreateEmailCampaignInput
  | BodySendEmailInput SendEmailInput
  | BodyAddMemberUnitInput AddMemberUnitInput
  | BodySyncMailingListsInput SyncMailingListsInput
  | BodyData json

text \<open>
  \<open>opt_orEmpty\<close>: the operation maps a missing body to the empty list (\<open>r ?? []\<close>).
\<close>

record request_options =
  opt_path :: string
  opt_method :: http_method
  opt_urlParams :: "(string \<times> string) list"
  opt_query :: query
  opt_body :: "api_body option"
  opt_orEmpty :: bool

definition options ::
  "http_method \<Rightarrow> string \<Rightarrow> (string \<times> string) list \<Rightarrow> query \<Rightarrow> api_body option \<Rightarrow> bool
     \<Rightarrow> request_options" where
  "options m p us q b e =
     \<lparr>opt_path = p, opt_method = m, opt_urlParams = us, opt_query = q, opt_body = b,
      opt_orEmpty = e\<rparr>"

subsection \<open>Operations\<close>

definition getAuthConfig :: "request_options" where
  "getAuthConfig =
     options Get ''/api/auth/config''
       [] [] None False"

definition logoutSession :: "request_options" where
  "logoutSession =
     options Post ''/api/auth/logout''
       [] [] None False"

definition getCurrentUser :: "request_options" where
  "getCurrentUser =
     options Get ''/api/auth/me''
       [] [] None False"

definition getTour :: "request_options" where
  "getTour =
     options Get ''/api/auth/tour''
       [] [] None False"

definition viewTourStep :: "ViewTourStepInput \<Rightarrow> request_options" where
  "viewTourStep body =
     options Post ''/api/auth/tour/progress''
       [] [] (Some (BodyViewTourStepInput body)) False"

definition listFinancialEntries :: "string \<Rightarrow> string \<Rightarrow> request_options" where
  "listFinancialEntries budgetId cotisationId =
     options Get ''/api/budget/{budget_id}/cotisations/{cotisation_id}/entries''
       [(''budget_id'', budgetId), (''cotisation_id'', cotisationId)] [] None True"

definition previewFinancialEntry :: "string \<Rightarrow> string \<Rightarrow> PreviewFinancialEntryInput \<Rightarrow> request_options" where
  "previewFinancialEntry budgetId cotisationId body =
     options Post ''/api/budget/{budget_id}/cotisations/{cotisation_id}/entries/preview''
       [(''budget_id'', budgetId), (''cotisation_id'', cotisationId)] [] (Some (BodyPreviewFinancialEntryInput body)) False"

definition createFinancialEntry :: "string \<Rightarrow> string \<Rightarrow> CreateFinancialEntryInput \<Rightarrow> request_options" where
  "createFinancialEntry budgetId cotisationId body =
     options Post ''/api/budget/{budget_id}/cotisations/{cotisation_id}/entries''
       [(''budget_id'', budgetId), (''cotisation_id'', cotisationId)] [] (Some (BodyCreateFinancialEntryInput body)) False"

definition getBudgetDashboard :: "string \<Rightarrow> int \<Rightarrow> request_options" where
  "getBudgetDashboard budgetId year =
     options Get ''/api/budget/{budget_id}/dashboard''
       [(''budget_id'', budgetId)] [(''year'', Some (QInt year))] None False"

definition getDirectoryQuality :: "request_options" where
  "getDirectoryQuality =
     options Get ''/api/dashboard/directory''
       [] [] None False"

definition previewMailingLists :: "request_options" where
  "previewMailingLists =
     options Get ''/api/mailing-lists/preview''
       [] [] None False"

definition syncMailingLists :: "string \<Rightarrow> request_options" where
  "syncMailingLists token =
     options Post ''/api/mailing-lists/sync''
       [] [] (Some (BodySyncMailingListsInput \<lparr>smli_token = Some token\<rparr>)) False"

definition getEmailDashboard :: "request_options" where
  "getEmailDashboard =
     options Get ''/api/dashboard/emails''
       [] [] None False"

definition listBudgets :: "request_options" where
  "listBudgets =
     options Get ''/api/budget''
       [] [] None True"

definition getBudget :: "string \<Rightarrow> request_options" where
  "getBudget budgetId =
     options Get ''/api/budget/{budget_id}''
       [(''budget_id'', budgetId)] [] None False"

definition createBudget :: "CreateBudgetInput \<Rightarrow> request_options" where
  "createBudget payload =
     options Post ''/api/budget''
       [] [] (Some (BodyCreateBudgetInput payload)) False"

definition updateBudget :: "string \<Rightarrow> UpdateBudgetInput \<Rightarrow> request_options" where
  "updateBudget budgetId payload =
     options Put ''/api/budget/{budget_id}''
       [(''budget_id'', budgetId)] [] (Some (BodyUpdateBudgetInput payload)) False"

definition publishBudget :: "string \<Rightarrow> request_options" where
  "publishBudget budgetId =
     options Post ''/api/budget/{budget_id}/publish''
       [(''budget_id'', budgetId)] [] None False"

definition deleteBudget :: "string \<Rightarrow> request_options" where
  "deleteBudget budgetId =
     options Delete ''/api/budget/{budget_id}''
       [(''budget_id'', budgetId)] [] None False"

definition previewBudgetEmail :: "string \<Rightarrow> PreviewBudgetEmailInput \<Rightarrow> request_options" where
  "previewBudgetEmail budgetId payload =
     options Post ''/api/budget/{budget_id}/email-preview''
       [(''budget_id'', budgetId)] [] (Some (BodyPreviewBudgetEmailInput payload)) False"

definition sendBudgetEmail :: "string \<Rightarrow> SendBudgetEmailInput \<Rightarrow> request_options" where
  "sendBudgetEmail budgetId payload =
     options Post ''/api/budget/{budget_id}/email''
       [(''budget_id'', budgetId)] [] (Some (BodySendBudgetEmailInput payload)) False"

definition listExpenses :: "string \<Rightarrow> request_options" where
  "listExpenses budgetId =
     options Get ''/api/budget/{budget_id}/expenses''
       [(''budget_id'', budgetId)] [] None True"

definition createExpense :: "string \<Rightarrow> CreateExpenseInput \<Rightarrow> request_options" where
  "createExpense budgetId payload =
     options Post ''/api/budget/{budget_id}/expenses''
       [(''budget_id'', budgetId)] [] (Some (BodyCreateExpenseInput payload)) False"

definition updateExpense :: "string \<Rightarrow> string \<Rightarrow> UpdateExpenseInput \<Rightarrow> request_options" where
  "updateExpense budgetId expenseId payload =
     options Put ''/api/budget/{budget_id}/expenses/{expense_id}''
       [(''budget_id'', budgetId), (''expense_id'', expenseId)] [] (Some (BodyUpdateExpenseInput payload)) False"

definition deleteExpense :: "string \<Rightarrow> string \<Rightarrow> request_options" where
  "deleteExpense budgetId expenseId =
     options Delete ''/api/budget/{budget_id}/expenses/{expense_id}''
       [(''budget_id'', budgetId), (''expense_id'', expenseId)] [] None False"

definition listCotisations :: "string \<Rightarrow> request_options" where
  "listCotisations budgetId =
     options Get ''/api/budget/{budget_id}/cotisations''
       [(''budget_id'', budgetId)] [] None True"

definition listPayments :: "string \<Rightarrow> string \<Rightarrow> request_options" where
  "listPayments budgetId cotisationId =
     options Get ''/api/budget/{budget_id}/cotisations/{cotisation_id}/payments''
       [(''budget_id'', budgetId), (''cotisation_id'', cotisationId)] [] None True"

definition createPayment :: "string \<Rightarrow> string \<Rightarrow> CreatePaymentInput \<Rightarrow> request_options" where
  "createPayment budgetId cotisationId payload =
     options Post ''/api/budget/{budget_id}/cotisations/{cotisation_id}/payments''
       [(''budget_id'', budgetId), (''cotisation_id'', cotisationId)] [] (Some (BodyCreatePaymentInput payload)) False"

definition updatePayment :: "string \<Rightarrow> string \<Rightarrow> string \<Rightarrow> UpdatePaymentInput \<Rightarrow> request_options" where
  "updatePayment budgetId cotisationId paymentId payload =
     options Put ''/api/budget/{budget_id}/cotisations/{cotisation_id}/payments/{payment_id}''
       [(''budget_id'', budgetId), (''cotisation_id'', cotisationId), (''payment_id'', paymentId)] [] (Some (BodyUpdatePaymentInput payload)) False"

definition deletePayment :: "string \<Rightarrow> string \<Rightarrow> string \<Rightarrow> request_options" where
  "deletePayment budgetId cotisationId paymentId =
     options Delete ''/api/budget/{budget_id}/cotisations/{cotisation_id}/payments/{payment_id}''
       [(''budget_id'', budgetId), (''cotisation_id'', cotisationId), (''payment_id'', paymentId)] [] None False"

definition listUnits :: "request_options" where
  "listUnits =
     options Get ''/api/unit''
       [] [] None True"

definition getUnit :: "string \<Rightarrow> request_options" where
  "getUnit unitId =
     options Get ''/api/unit/{unit_id}''
       [(''unit_id'', unitId)] [] None False"

definition createUnit :: "CreateUnitInput \<Rightarrow> request_options" where
  "createUnit payload =
     options Post ''/api/unit''
       [] [] (Some (BodyCreateUnitInput payload)) False"

definition updateUnit :: "string \<Rightarrow> UpdateUnitInput \<Rightarrow> request_options" where
  "updateUnit unitId payload =
     options Put ''/api/unit/{unit_id}''
       [(''unit_id'', unitId)] [] (Some (BodyUpdateUnitInput payload)) False"

definition deleteUnit :: "string \<Rightarrow> request_options" where
  "deleteUnit unitId =
     options Delete ''/api/unit/{unit_id}''
       [(''unit_id'', unitId)] [] None False"

definition listUnitMembers :: "string \<Rightarrow> request_options" where
  "listUnitMembers unitId =
     options Get ''/api/unit/{unit_id}/members''
       [(''unit_id'', unitId)] [] None True"

definition listMembers :: "request_options" where
  "listMembers =
     options Get ''/api/member''
       [] [] None True"

definition getMember :: "string \<Rightarrow> request_options" where
  "getMember memberId =
     options Get ''/api/member/{member_id}''
       [(''member_id'', memberId)] [] None False"

definition createMember :: "CreateMemberInput \<Rightarrow> request_options" where
  "createMember payload =
     options Post ''/api/member''
       [] [] (Some (BodyCreateMemberInput payload)) False"

definition updateMember :: "string \<Rightarrow> UpdateMemberInput \<Rightarrow> request_options" where
  "updateMember memberId payload =
     options Put ''/api/member/{member_id}''
       [(''member_id'', memberId)] [] (Some (BodyUpdateMemberInput payload)) False"

definition deleteMember :: "string \<Rightarrow> request_options" where
  "deleteMember memberId =
     options Delete ''/api/member/{member_id}''
       [(''member_id'', memberId)] [] None False"

definition addMemberUnit :: "string \<Rightarrow> string \<Rightarrow> request_options" where
  "addMemberUnit memberId unitId =
     options Post ''/api/member/{member_id}/units''
       [(''member_id'', memberId)] [] (Some (BodyAddMemberUnitInput \<lparr>amui_unit_id = Some unitId\<rparr>)) False"

definition removeMemberUnit :: "string \<Rightarrow> string \<Rightarrow> request_options" where
  "removeMemberUnit memberId unitId =
     options Delete ''/api/member/{member_id}/units/{unit_id}''
       [(''member_id'', memberId), (''unit_id'', unitId)] [] None False"

definition listActions :: "request_options" where
  "listActions =
     options Get ''/api/auth/actions''
       [] [] None True"

definition getPendingAccessRequests :: "request_options" where
  "getPendingAccessRequests =
     options Get ''/api/auth/access-requests/summary''
       [] [] None False"

definition listUsers :: "query \<Rightarrow> request_options" where
  "listUsers query =
     options Get ''/api/auth/users''
       [] query None True"

definition getUser :: "string \<Rightarrow> request_options" where
  "getUser userId =
     options Get ''/api/auth/users/{user_id}''
       [(''user_id'', userId)] [] None False"

definition createUser :: "CreateUserInput \<Rightarrow> request_options" where
  "createUser payload =
     options Post ''/api/auth/users''
       [] [] (Some (BodyCreateUserInput payload)) False"

definition updateUser :: "string \<Rightarrow> UpdateUserInput \<Rightarrow> request_options" where
  "updateUser userId payload =
     options Put ''/api/auth/users/{user_id}''
       [(''user_id'', userId)] [] (Some (BodyUpdateUserInput payload)) False"

definition deleteUser :: "string \<Rightarrow> request_options" where
  "deleteUser userId =
     options Delete ''/api/auth/users/{user_id}''
       [(''user_id'', userId)] [] None False"

definition listEmailTemplates :: "request_options" where
  "listEmailTemplates =
     options Get ''/api/email/templates''
       [] [] None True"

definition getEmailTemplate :: "string \<Rightarrow> request_options" where
  "getEmailTemplate templateId =
     options Get ''/api/email/templates/{template_id}''
       [(''template_id'', templateId)] [] None False"

definition createEmailTemplate :: "CreateEmailTemplateInput \<Rightarrow> request_options" where
  "createEmailTemplate payload =
     options Post ''/api/email/templates''
       [] [] (Some (BodyCreateEmailTemplateInput payload)) False"

definition updateEmailTemplate :: "string \<Rightarrow> UpdateEmailTemplateInput \<Rightarrow> request_options" where
  "updateEmailTemplate templateId payload =
     options Put ''/api/email/templates/{template_id}''
       [(''template_id'', templateId)] [] (Some (BodyUpdateEmailTemplateInput payload)) False"

definition deleteEmailTemplate :: "string \<Rightarrow> request_options" where
  "deleteEmailTemplate templateId =
     options Delete ''/api/email/templates/{template_id}''
       [(''template_id'', templateId)] [] None False"

definition listEmailAttachments :: "string \<Rightarrow> request_options" where
  "listEmailAttachments templateId =
     options Get ''/api/email/templates/{template_id}/attachments''
       [(''template_id'', templateId)] [] None True"

definition deleteEmailAttachment :: "string \<Rightarrow> string \<Rightarrow> request_options" where
  "deleteEmailAttachment templateId attachmentId =
     options Delete ''/api/email/templates/{template_id}/attachments/{attachment_id}''
       [(''template_id'', templateId), (''attachment_id'', attachmentId)] [] None False"

definition previewEmailTemplate :: "string \<Rightarrow> json \<Rightarrow> request_options" where
  "previewEmailTemplate templateId data =
     options Post ''/api/email/templates/{template_id}/preview''
       [(''template_id'', templateId)] [] (Some (BodyData data)) False"

definition listEmailCampaigns :: "query \<Rightarrow> request_options" where
  "listEmailCampaigns query =
     options Get ''/api/email/campaigns''
       [] query None False"

definition createEmailCampaign :: "CreateEmailCampaignInput \<Rightarrow> request_options" where
  "createEmailCampaign payload =
     options Post ''/api/email/campaigns''
       [] [] (Some (BodyCreateEmailCampaignInput payload)) False"

definition getEmailCampaign :: "string \<Rightarrow> request_options" where
  "getEmailCampaign campaignId =
     options Get ''/api/email/campaigns/{campaign_id}''
       [(''campaign_id'', campaignId)] [] None False"

definition deleteEmailCampaign :: "string \<Rightarrow> request_options" where
  "deleteEmailCampaign campaignId =
     options Delete ''/api/email/campaigns/{campaign_id}''
       [(''campaign_id'', campaignId)] [] None False"

definition listEmails :: "string \<Rightarrow> query \<Rightarrow> request_options" where
  "listEmails campaignId query =
     options Get ''/api/email/campaigns/{campaign_id}/emails''
       [(''campaign_id'', campaignId)] query None False"

definition getEmailStatus :: "string \<Rightarrow> request_options" where
  "getEmailStatus emailId =
     options Get ''/api/email/{email_id}/status''
       [(''email_id'', emailId)] [] None False"

definition getEmail :: "string \<Rightarrow> request_options" where
  "getEmail emailId =
     options Get ''/api/email/{email_id}''
       [(''email_id'', emailId)] [] None False"

definition deleteEmail :: "string \<Rightarrow> request_options" where
  "deleteEmail emailId =
     options Delete ''/api/email/{email_id}''
       [(''email_id'', emailId)] [] None False"

definition sendEmail :: "string \<Rightarrow> SendEmailInput \<Rightarrow> request_options" where
  "sendEmail emailId payload =
     options Post ''/api/email/{email_id}/send''
       [(''email_id'', emailId)] [] (Some (BodySendEmailInput payload)) False"

definition emailSetError :: "string \<Rightarrow> request_options" where
  "emailSetError emailId =
     options Post ''/api/email/{email_id}/set-error''
       [(''email_id'', emailId)] [] None False"

subsection \<open>Every call\<close>

datatype api_call =
    GetAuthConfig
  | LogoutSession
  | GetCurrentUser
  | GetTour
  | ViewTourStep ViewTourStepInput
  | ListFinancialEntries string string
  | PreviewFinancialEntry string string PreviewFinancialEntryInput
  | CreateFinancialEntry string string CreateFinancialEntryInput
  | GetBudgetDashboard string int
  | GetDirectoryQuality
  | PreviewMailingLists
  | SyncMailingLists string
  | GetEmailDashboard
  | ListBudgets
  | GetBudget string
  | CreateBudget CreateBudgetInput
  | UpdateBudget string UpdateBudgetInput
  | PublishBudget string
  | DeleteBudget string
  | PreviewBudgetEmail string PreviewBudgetEmailInput
  | SendBudgetEmail string SendBudgetEmailInput
  | ListExpenses string
  | CreateExpense string CreateExpenseInput
  | UpdateExpense string string UpdateExpenseInput
  | DeleteExpense string string
  | ListCotisations string
  | ListPayments string string
  | CreatePayment string string CreatePaymentInput
  | UpdatePayment string string string UpdatePaymentInput
  | DeletePayment string string string
  | ListUnits
  | GetUnit string
  | CreateUnit CreateUnitInput
  | UpdateUnit string UpdateUnitInput
  | DeleteUnit string
  | ListUnitMembers string
  | ListMembers
  | GetMember string
  | CreateMember CreateMemberInput
  | UpdateMember string UpdateMemberInput
  | DeleteMember string
  | AddMemberUnit string string
  | RemoveMemberUnit string string
  | ListActions
  | GetPendingAccessRequests
  | ListUsers query
  | GetUser string
  | CreateUser CreateUserInput
  | UpdateUser string UpdateUserInput
  | DeleteUser string
  | ListEmailTemplates
  | GetEmailTemplate string
  | CreateEmailTemplate CreateEmailTemplateInput
  | UpdateEmailTemplate string UpdateEmailTemplateInput
  | DeleteEmailTemplate string
  | ListEmailAttachments string
  | DeleteEmailAttachment string string
  | PreviewEmailTemplate string json
  | ListEmailCampaigns query
  | CreateEmailCampaign CreateEmailCampaignInput
  | GetEmailCampaign string
  | DeleteEmailCampaign string
  | ListEmails string query
  | GetEmailStatus string
  | GetEmail string
  | DeleteEmail string
  | SendEmail string SendEmailInput
  | EmailSetError string

fun call_options :: "api_call \<Rightarrow> request_options" where
  "call_options GetAuthConfig = getAuthConfig"
| "call_options LogoutSession = logoutSession"
| "call_options GetCurrentUser = getCurrentUser"
| "call_options GetTour = getTour"
| "call_options (ViewTourStep body) = viewTourStep body"
| "call_options (ListFinancialEntries budgetId cotisationId) = listFinancialEntries budgetId cotisationId"
| "call_options (PreviewFinancialEntry budgetId cotisationId body) = previewFinancialEntry budgetId cotisationId body"
| "call_options (CreateFinancialEntry budgetId cotisationId body) = createFinancialEntry budgetId cotisationId body"
| "call_options (GetBudgetDashboard budgetId year) = getBudgetDashboard budgetId year"
| "call_options GetDirectoryQuality = getDirectoryQuality"
| "call_options PreviewMailingLists = previewMailingLists"
| "call_options (SyncMailingLists token) = syncMailingLists token"
| "call_options GetEmailDashboard = getEmailDashboard"
| "call_options ListBudgets = listBudgets"
| "call_options (GetBudget budgetId) = getBudget budgetId"
| "call_options (CreateBudget payload) = createBudget payload"
| "call_options (UpdateBudget budgetId payload) = updateBudget budgetId payload"
| "call_options (PublishBudget budgetId) = publishBudget budgetId"
| "call_options (DeleteBudget budgetId) = deleteBudget budgetId"
| "call_options (PreviewBudgetEmail budgetId payload) = previewBudgetEmail budgetId payload"
| "call_options (SendBudgetEmail budgetId payload) = sendBudgetEmail budgetId payload"
| "call_options (ListExpenses budgetId) = listExpenses budgetId"
| "call_options (CreateExpense budgetId payload) = createExpense budgetId payload"
| "call_options (UpdateExpense budgetId expenseId payload) = updateExpense budgetId expenseId payload"
| "call_options (DeleteExpense budgetId expenseId) = deleteExpense budgetId expenseId"
| "call_options (ListCotisations budgetId) = listCotisations budgetId"
| "call_options (ListPayments budgetId cotisationId) = listPayments budgetId cotisationId"
| "call_options (CreatePayment budgetId cotisationId payload) = createPayment budgetId cotisationId payload"
| "call_options (UpdatePayment budgetId cotisationId paymentId payload) = updatePayment budgetId cotisationId paymentId payload"
| "call_options (DeletePayment budgetId cotisationId paymentId) = deletePayment budgetId cotisationId paymentId"
| "call_options ListUnits = listUnits"
| "call_options (GetUnit unitId) = getUnit unitId"
| "call_options (CreateUnit payload) = createUnit payload"
| "call_options (UpdateUnit unitId payload) = updateUnit unitId payload"
| "call_options (DeleteUnit unitId) = deleteUnit unitId"
| "call_options (ListUnitMembers unitId) = listUnitMembers unitId"
| "call_options ListMembers = listMembers"
| "call_options (GetMember memberId) = getMember memberId"
| "call_options (CreateMember payload) = createMember payload"
| "call_options (UpdateMember memberId payload) = updateMember memberId payload"
| "call_options (DeleteMember memberId) = deleteMember memberId"
| "call_options (AddMemberUnit memberId unitId) = addMemberUnit memberId unitId"
| "call_options (RemoveMemberUnit memberId unitId) = removeMemberUnit memberId unitId"
| "call_options ListActions = listActions"
| "call_options GetPendingAccessRequests = getPendingAccessRequests"
| "call_options (ListUsers query) = listUsers query"
| "call_options (GetUser userId) = getUser userId"
| "call_options (CreateUser payload) = createUser payload"
| "call_options (UpdateUser userId payload) = updateUser userId payload"
| "call_options (DeleteUser userId) = deleteUser userId"
| "call_options ListEmailTemplates = listEmailTemplates"
| "call_options (GetEmailTemplate templateId) = getEmailTemplate templateId"
| "call_options (CreateEmailTemplate payload) = createEmailTemplate payload"
| "call_options (UpdateEmailTemplate templateId payload) = updateEmailTemplate templateId payload"
| "call_options (DeleteEmailTemplate templateId) = deleteEmailTemplate templateId"
| "call_options (ListEmailAttachments templateId) = listEmailAttachments templateId"
| "call_options (DeleteEmailAttachment templateId attachmentId) = deleteEmailAttachment templateId attachmentId"
| "call_options (PreviewEmailTemplate templateId data) = previewEmailTemplate templateId data"
| "call_options (ListEmailCampaigns query) = listEmailCampaigns query"
| "call_options (CreateEmailCampaign payload) = createEmailCampaign payload"
| "call_options (GetEmailCampaign campaignId) = getEmailCampaign campaignId"
| "call_options (DeleteEmailCampaign campaignId) = deleteEmailCampaign campaignId"
| "call_options (ListEmails campaignId query) = listEmails campaignId query"
| "call_options (GetEmailStatus emailId) = getEmailStatus emailId"
| "call_options (GetEmail emailId) = getEmail emailId"
| "call_options (DeleteEmail emailId) = deleteEmail emailId"
| "call_options (SendEmail emailId payload) = sendEmail emailId payload"
| "call_options (EmailSetError emailId) = emailSetError emailId"

lemmas operation_defs =
  getAuthConfig_def logoutSession_def getCurrentUser_def
  getTour_def viewTourStep_def listFinancialEntries_def
  previewFinancialEntry_def createFinancialEntry_def getBudgetDashboard_def
  getDirectoryQuality_def previewMailingLists_def syncMailingLists_def
  getEmailDashboard_def listBudgets_def getBudget_def
  createBudget_def updateBudget_def publishBudget_def
  deleteBudget_def previewBudgetEmail_def sendBudgetEmail_def
  listExpenses_def createExpense_def updateExpense_def
  deleteExpense_def listCotisations_def listPayments_def
  createPayment_def updatePayment_def deletePayment_def
  listUnits_def getUnit_def createUnit_def
  updateUnit_def deleteUnit_def listUnitMembers_def
  listMembers_def getMember_def createMember_def
  updateMember_def deleteMember_def addMemberUnit_def
  removeMemberUnit_def listActions_def getPendingAccessRequests_def
  listUsers_def getUser_def createUser_def
  updateUser_def deleteUser_def listEmailTemplates_def
  getEmailTemplate_def createEmailTemplate_def updateEmailTemplate_def
  deleteEmailTemplate_def listEmailAttachments_def deleteEmailAttachment_def
  previewEmailTemplate_def listEmailCampaigns_def createEmailCampaign_def
  getEmailCampaign_def deleteEmailCampaign_def listEmails_def
  getEmailStatus_def getEmail_def deleteEmail_def
  sendEmail_def emailSetError_def

end
