(* ===== verification/Api_Request.thy ===== *)
theory Api_Request
  imports Api_Service
begin

text \<open>
  The private half of \<open>ApiService\<close>: \<open>buildURI\<close>, \<open>buildParams\<close>, \<open>buildRequest\<close>, \<open>request\<close> and
  \<open>handleError\<close>, and the two attachment operations that build their request by hand; with them
  \<open>service_call\<close> ranges over every operation of the service.

  \<open>buildURI\<close> substitutes each URL parameter with \<open>String.prototype.replace\<close>, which replaces the
  first occurrence only and expands \<open>$\<close> patterns in the replacement. The reference is \<open>fill\<close>,
  one pass over the template; the two agree when the values are plain.
\<close>

subsection \<open>\<open>String.prototype.replace\<close> with a string pattern\<close>

text \<open>The replacement with \<open>$$\<close>, \<open>$&\<close>, \<open>$`\<close> and \<open>$'\<close> expanded (GetSubstitution).\<close>

fun expand_dollar :: "string \<Rightarrow> string \<Rightarrow> string \<Rightarrow> string \<Rightarrow> string" where
  "expand_dollar pre pat post [] = []"
| "expand_dollar pre pat post [c] = [c]"
| "expand_dollar pre pat post (c # d # cs) =
     (if c \<noteq> CHR ''$'' then c # expand_dollar pre pat post (d # cs)
      else if d = CHR ''$'' then CHR ''$'' # expand_dollar pre pat post cs
      else if d = CHR ''&'' then pat @ expand_dollar pre pat post cs
      else if d = CHR 96 then pre @ expand_dollar pre pat post cs
      else if d = CHR 39 then post @ expand_dollar pre pat post cs
      else c # expand_dollar pre pat post (d # cs))"

fun replace_from :: "string \<Rightarrow> string \<Rightarrow> string \<Rightarrow> string \<Rightarrow> string" where
  "replace_from pre pat v [] = pre"
| "replace_from pre pat v (c # cs) =
     (if starts_with (c # cs) pat
      then (let post = drop (length pat) (c # cs) in pre @ expand_dollar pre pat post v @ post)
      else replace_from (pre @ [c]) pat v cs)"

definition js_replace :: "string \<Rightarrow> string \<Rightarrow> string \<Rightarrow> string" where
  "js_replace s pat v = replace_from [] pat v s"

subsection \<open>The request\<close>

definition placeholder :: "string \<Rightarrow> string" where
  "placeholder name = CHR 123 # name @ [CHR 125]"

fun buildURI :: "string \<Rightarrow> (string \<times> string) list \<Rightarrow> string" where
  "buildURI path [] = path"
| "buildURI path ((name, value) # params) =
     buildURI (js_replace path (placeholder name) value) params"

fun query_str :: "query_value \<Rightarrow> string" where
  "query_str (QStr s) = s"
| "query_str (QInt i) = int_str i"
| "query_str (QJson j) = stringify j"

fun add_params :: "(string \<times> string) list \<Rightarrow> query \<Rightarrow> (string \<times> string) list" where
  "add_params acc [] = acc"
| "add_params acc ((name, None) # q) = add_params acc q"
| "add_params acc ((name, Some v) # q) = add_params (omap_set name (query_str v) acc) q"

definition buildParams :: "request_options \<Rightarrow> (string \<times> string) list" where
  "buildParams opts = add_params [] (opt_query opts)"

fun method_str :: "http_method \<Rightarrow> string" where
  "method_str Get = ''GET''"
| "method_str Post = ''POST''"
| "method_str Put = ''PUT''"
| "method_str Delete = ''DELETE''"

record http_request =
  req_method :: string
  req_uri :: string
  req_params :: "(string \<times> string) list"
  req_body :: "api_body option"

definition buildRequest ::
  "http_method \<Rightarrow> string \<Rightarrow> (string \<times> string) list \<Rightarrow> api_body option \<Rightarrow> http_request" where
  "buildRequest method uri params body =
     \<lparr>req_method = method_str method, req_uri = uri, req_params = params, req_body = body\<rparr>"

definition request :: "request_options \<Rightarrow> http_request" where
  "request opts =
     (let uri = buildURI (opt_path opts) (opt_urlParams opts);
          params = buildParams opts
      in buildRequest (opt_method opts) uri params (opt_body opts))"

text \<open>
  The events of the client library that reach the subscriber: \<open>request\<close> drops everything that
  is not the response itself and hands on its body; an error becomes an \<open>APIError\<close>.
\<close>

datatype ('b) http_event = Sent | Progress | Response "'b option"

fun response_bodies :: "'b http_event list \<Rightarrow> 'b option list" where
  "response_bodies [] = []"
| "response_bodies (Response b # es) = b # response_bodies es"
| "response_bodies (_ # es) = response_bodies es"

definition APIError :: "string option \<Rightarrow> int \<Rightarrow> string \<Rightarrow> api_error" where
  "APIError message status statusText =
     \<lparr>err_message = message, err_status = status, err_statusText = statusText\<rparr>"

subsection \<open>Attachments\<close>

definition createEmailAttachment ::
  "string \<Rightarrow> string \<Rightarrow> bool \<Rightarrow> string \<Rightarrow> 'file \<Rightarrow> string \<times> (string \<times> string) list \<times> 'file" where
  "createEmailAttachment templateId name inl file_type file =
     (buildURI ''/api/email/templates/{template_id}/attachments''
        [(''template_id'', templateId)],
      [(''name'', name), (''inline'', if inl then ''true'' else ''false''),
       (''content_type'', file_type)],
      file)"

definition getEmailAttachment :: "string \<Rightarrow> string \<Rightarrow> string" where
  "getEmailAttachment templateId attachmentId =
     buildURI ''/api/email/templates/{template_id}/attachments/{attachment_id}''
       [(''template_id'', templateId), (''attachment_id'', attachmentId)]"

subsection \<open>Errors shown to the user\<close>

datatype 'm error_text = WithMessage 'm string | WithStatus 'm int string

definition handleError :: "'m \<Rightarrow> api_error \<Rightarrow> 'm error_text" where
  "handleError message e =
     (case err_message e of
        Some m \<Rightarrow>
          if 400 \<le> err_status e \<and> err_status e < 500 then WithMessage message m
          else WithStatus message (err_status e) (err_statusText e)
      | None \<Rightarrow> WithStatus message (err_status e) (err_statusText e))"

subsection \<open>The reference: one pass over the template\<close>

function fill :: "string \<Rightarrow> string list \<Rightarrow> string" where
  "fill [] vs = []"
| "fill (c # cs) vs =
     (if c = CHR 123
      then (case vs of
              [] \<Rightarrow> c # cs
            | v # vs' \<Rightarrow> v @ fill (drop 1 (dropWhile (\<lambda>d. d \<noteq> CHR 125) cs)) vs')
      else c # fill cs vs)"
  by pat_completeness auto
termination
  by (relation "measure (\<lambda>(s, vs). length s)")
     (auto intro: le_imp_less_Suc diff_le_self [THEN le_trans] length_dropWhile_le)

function holes :: "string \<Rightarrow> string list" where
  "holes [] = []"
| "holes (c # cs) =
     (if c = CHR 123
      then takeWhile (\<lambda>d. d \<noteq> CHR 125) cs
             # holes (drop 1 (dropWhile (\<lambda>d. d \<noteq> CHR 125) cs))
      else holes cs)"
  by pat_completeness auto
termination
  by (relation "measure length")
     (auto intro: le_imp_less_Suc diff_le_self [THEN le_trans] length_dropWhile_le)

text \<open>A plain value holds neither a brace nor a dollar.\<close>

definition plain :: "string \<Rightarrow> bool" where
  "plain v = (CHR 123 \<notin> set v \<and> CHR ''$'' \<notin> set v)"

lemma expand_dollar_plain: "CHR ''$'' \<notin> set v \<Longrightarrow> expand_dollar pre pat post v = v"
  by (induction pre pat post v rule: expand_dollar.induct) auto

lemma replace_from_skip:
  assumes "CHR 123 \<notin> set p" and "pat = CHR 123 # pat'"
  shows "replace_from pre pat v (p @ s) = replace_from (pre @ p) pat v s"
  using assms
proof (induction p arbitrary: pre)
  case (Cons c p)
  then have "\<not> starts_with ((c # p) @ s) pat" by (auto simp: starts_with_def)
  with Cons show ?case by simp
qed simp

lemma js_replace_first_hole:
  assumes "CHR 123 \<notin> set p" and "plain v"
  shows "js_replace (p @ placeholder n @ s) (placeholder n) v = p @ v @ s"
proof -
  have "js_replace (p @ placeholder n @ s) (placeholder n) v
      = replace_from p (placeholder n) v (placeholder n @ s)"
    using replace_from_skip [OF assms(1), of "placeholder n" _ "[]"]
    by (simp add: js_replace_def placeholder_def)
  also have "\<dots> = p @ v @ s"
    using assms(2)
    by (simp add: placeholder_def starts_with_def plain_def expand_dollar_plain Let_def)
  finally show ?thesis .
qed

text \<open>Every opening brace of a template is closed.\<close>

function braces_closed :: "string \<Rightarrow> bool" where
  "braces_closed [] = True"
| "braces_closed (c # cs) =
     (if c = CHR 123
      then CHR 125 \<in> set cs \<and> braces_closed (drop 1 (dropWhile (\<lambda>d. d \<noteq> CHR 125) cs))
      else braces_closed cs)"
  by pat_completeness auto
termination
  by (relation "measure length")
     (auto intro: le_imp_less_Suc diff_le_self [THEN le_trans] length_dropWhile_le)

lemma no_holes: "holes path = [] \<Longrightarrow> CHR 123 \<notin> set path \<and> fill path vs = path"
  by (induction path rule: holes.induct) (auto split: if_splits)

lemma split_at_brace:
  "CHR 125 \<in> set cs \<Longrightarrow>
   cs = takeWhile (\<lambda>d. d \<noteq> CHR 125) cs @ CHR 125 # drop 1 (dropWhile (\<lambda>d. d \<noteq> CHR 125) cs)"
  by (induction cs) auto

lemma hole_split:
  "braces_closed path \<Longrightarrow> holes path = n # ns \<Longrightarrow>
   \<exists>q r. path = q @ placeholder n @ r \<and> CHR 123 \<notin> set q \<and> holes r = ns \<and> braces_closed r \<and>
     (\<forall>v vs. fill path (v # vs) = q @ v @ fill r vs)"
proof (induction path rule: holes.induct)
  case (2 c cs)
  show ?case
  proof (cases "c = CHR 123")
    case True
    let ?r = "drop 1 (dropWhile (\<lambda>d. d \<noteq> CHR 125) cs)"
    from True 2 have "CHR 125 \<in> set cs" and n: "n = takeWhile (\<lambda>d. d \<noteq> CHR 125) cs"
      and ns: "holes ?r = ns" and cl: "braces_closed ?r" by auto
    then have "c # cs = [] @ placeholder n @ ?r"
      using split_at_brace [of cs] True by (simp add: placeholder_def)
    moreover have "fill (c # cs) (v # vs) = [] @ v @ fill ?r vs" for v vs
      using True by simp
    ultimately show ?thesis
      using ns cl by (intro exI [of _ "[]"] exI [of _ ?r]) simp
  next
    case False
    with 2 have "braces_closed cs" and "holes cs = n # ns" by auto
    with False 2 obtain q r where "cs = q @ placeholder n @ r" "CHR 123 \<notin> set q"
      "holes r = ns" "braces_closed r" "\<forall>v vs. fill cs (v # vs) = q @ v @ fill r vs" by blast
    with False show ?thesis by (intro exI [of _ "c # q"] exI [of _ r]) auto
  qed
qed simp

lemma buildURI_fill_prefix:
  "braces_closed path \<Longrightarrow> holes path = map fst params \<Longrightarrow> list_all (plain \<circ> snd) params \<Longrightarrow>
   CHR 123 \<notin> set p \<Longrightarrow> buildURI (p @ path) params = p @ fill path (map snd params)"
proof (induction params arbitrary: p path)
  case Nil
  then show ?case using no_holes [of path "[]"] by simp
next
  case (Cons nv params)
  obtain n v where nv: "nv = (n, v)" by fastforce
  with Cons.prems(1,2) hole_split [of path n "map fst params"] obtain q r
    where path: "path = q @ placeholder n @ r" and q: "CHR 123 \<notin> set q"
      and r: "holes r = map fst params" "braces_closed r"
      and fill: "fill path (v # map snd params) = q @ v @ fill r (map snd params)"
    by auto
  from Cons.prems(3) nv have v: "plain v" and vs: "list_all (plain \<circ> snd) params"
    by (simp_all add: comp_def)
  have "js_replace (p @ path) (placeholder n) v = (p @ q @ v) @ r"
    using js_replace_first_hole [of "p @ q" v n r] q v Cons.prems(4) by (simp add: path)
  then have "buildURI (p @ path) (nv # params) = buildURI ((p @ q @ v) @ r) params"
    by (simp add: nv)
  also have "\<dots> = (p @ q @ v) @ fill r (map snd params)"
    by (rule Cons.IH [OF r(2) r(1) vs]) (use q v Cons.prems(4) in \<open>auto simp: plain_def\<close>)
  finally show ?case using fill nv by simp
qed

lemma fill_plain:
  "braces_closed path \<Longrightarrow> length (holes path) = length vs \<Longrightarrow> list_all plain vs \<Longrightarrow>
   CHR 123 \<notin> set (fill path vs)"
proof (induction vs arbitrary: path)
  case Nil
  then show ?case using no_holes [of path "[]"] by simp
next
  case (Cons v vs)
  then obtain n ns where h: "holes path = n # ns" by (cases "holes path") auto
  with hole_split [OF Cons.prems(1) h] obtain q r where
    "CHR 123 \<notin> set q" "holes r = ns" "braces_closed r" "fill path (v # vs) = q @ v @ fill r vs" by blast
  with Cons h show ?case by (auto simp: plain_def)
qed

text \<open>Every template the service uses is closed, with one parameter for each hole, in order.\<close>

lemma call_template:
  "braces_closed (opt_path (call_options c)) \<and>
   holes (opt_path (call_options c)) = map fst (opt_urlParams (call_options c))"
  by (cases c) (simp_all add: operation_defs options_def)

definition plain_call :: "api_call \<Rightarrow> bool" where
  "plain_call c = list_all (plain \<circ> snd) (opt_urlParams (call_options c))"

text \<open>
  C2. For every operation of the API service called with identifiers free of braces and dollars,
  the URI that the successive \<open>replace\<close> calls build is the path template with each hole filled
  by its own parameter, and no placeholder is left in it.
\<close>
theorem request_uri_filled:
  assumes "plain_call c"
  shows "req_uri (request (call_options c))
      = fill (opt_path (call_options c)) (map snd (opt_urlParams (call_options c)))
    \<and> CHR 123 \<notin> set (req_uri (request (call_options c)))"
proof -
  let ?o = "call_options c"
  have v: "list_all (plain \<circ> snd) (opt_urlParams ?o)" using assms by (simp add: plain_call_def)
  have t: "braces_closed (opt_path ?o)" "holes (opt_path ?o) = map fst (opt_urlParams ?o)"
    using call_template [of c] by simp_all
  have uri: "req_uri (request ?o) = fill (opt_path ?o) (map snd (opt_urlParams ?o))"
    using buildURI_fill_prefix [OF t v, of "[]"]
    by (simp add: request_def buildRequest_def Let_def)
  moreover have "CHR 123 \<notin> set (fill (opt_path ?o) (map snd (opt_urlParams ?o)))"
    using t v by (intro fill_plain) (auto simp: list.pred_map)
  ultimately show ?thesis by simp
qed

theorem request_uri_filled_witness:
  "plain_call (DeletePayment ''b1'' ''c2'' ''p3'') \<and>
   CHR 123 \<notin> set (req_uri (request (call_options (DeletePayment ''b1'' ''c2'' ''p3''))))"
proof -
  have "plain_call (DeletePayment ''b1'' ''c2'' ''p3'')"
    by (simp add: plain_call_def plain_def operation_defs options_def)
  then show ?thesis using request_uri_filled by blast
qed

subsection \<open>Every request of the service\<close>

text \<open>
  An operation of the service: one that goes through \<open>request\<close>, or one of the two that build their
  request by hand, the upload of a file with its fields in a form and the reading of its content.
\<close>

datatype 'file service_call =
    Requested api_call
  | CreateEmailAttachment string string bool string 'file
  | GetEmailAttachment string string

datatype 'file sent_body = NoBody | JsonBody api_body | FormBody "(string \<times> string) list" 'file

record 'file sent_request =
  sr_method :: string
  sr_uri :: string
  sr_body :: "'file sent_body"

fun service_request :: "'file service_call \<Rightarrow> 'file sent_request" where
  "service_request (Requested c) =
     (let r = request (call_options c) in
      \<lparr>sr_method = req_method r, sr_uri = req_uri r,
       sr_body = (case req_body r of None \<Rightarrow> NoBody | Some b \<Rightarrow> JsonBody b)\<rparr>)"
| "service_request (CreateEmailAttachment templateId name inl file_type file) =
     (case createEmailAttachment templateId name inl file_type file of (uri, form, upload) \<Rightarrow>
        \<lparr>sr_method = ''POST'', sr_uri = uri, sr_body = FormBody form upload\<rparr>)"
| "service_request (GetEmailAttachment templateId attachmentId) =
     \<lparr>sr_method = ''GET'', sr_uri = getEmailAttachment templateId attachmentId, sr_body = NoBody\<rparr>"

text \<open>The named parameters of the path of an operation.\<close>

fun service_params :: "'file service_call \<Rightarrow> (string \<times> string) list" where
  "service_params (Requested c) = opt_urlParams (call_options c)"
| "service_params (CreateEmailAttachment templateId name inl file_type file) = [(''template_id'', templateId)]"
| "service_params (GetEmailAttachment templateId attachmentId) =
     [(''template_id'', templateId), (''attachment_id'', attachmentId)]"

text \<open>The schema of a body; the body of a preview is not typed in the service.\<close>

fun body_schema :: "api_body \<Rightarrow> string" where
  "body_schema (BodyViewTourStepInput b) = ''ViewTourStepInput''"
| "body_schema (BodyPreviewFinancialEntryInput b) = ''PreviewFinancialEntryInput''"
| "body_schema (BodyCreateFinancialEntryInput b) = ''CreateFinancialEntryInput''"
| "body_schema (BodyCreateBudgetInput b) = ''CreateBudgetInput''"
| "body_schema (BodyUpdateBudgetInput b) = ''UpdateBudgetInput''"
| "body_schema (BodyPreviewBudgetEmailInput b) = ''PreviewBudgetEmailInput''"
| "body_schema (BodySendBudgetEmailInput b) = ''SendBudgetEmailInput''"
| "body_schema (BodyCreateExpenseInput b) = ''CreateExpenseInput''"
| "body_schema (BodyUpdateExpenseInput b) = ''UpdateExpenseInput''"
| "body_schema (BodyCreatePaymentInput b) = ''CreatePaymentInput''"
| "body_schema (BodyUpdatePaymentInput b) = ''UpdatePaymentInput''"
| "body_schema (BodyCreateUnitInput b) = ''CreateUnitInput''"
| "body_schema (BodyUpdateUnitInput b) = ''UpdateUnitInput''"
| "body_schema (BodyCreateMemberInput b) = ''CreateMemberInput''"
| "body_schema (BodyUpdateMemberInput b) = ''UpdateMemberInput''"
| "body_schema (BodyCreateUserInput b) = ''CreateUserInput''"
| "body_schema (BodyUpdateUserInput b) = ''UpdateUserInput''"
| "body_schema (BodyCreateEmailTemplateInput b) = ''CreateEmailTemplateInput''"
| "body_schema (BodyUpdateEmailTemplateInput b) = ''UpdateEmailTemplateInput''"
| "body_schema (BodyCreateEmailCampaignInput b) = ''CreateEmailCampaignInput''"
| "body_schema (BodySendEmailInput b) = ''SendEmailInput''"
| "body_schema (BodyAddMemberUnitInput b) = ''AddMemberUnitInput''"
| "body_schema (BodySyncMailingListsInput b) = ''SyncMailingListsInput''"
| "body_schema (BodyData b) = ''PreviewEmailTemplateInput''"

text \<open>What a row of the table declares of a body: none, one of a schema, or an upload.\<close>

fun body_declared :: "string option \<Rightarrow> 'file sent_body \<Rightarrow> bool" where
  "body_declared None NoBody = True"
| "body_declared (Some n) (JsonBody b) = (body_schema b = n)"
| "body_declared (Some n) (FormBody form file) = (n = ''AddAttachmentInput'')"
| "body_declared _ _ = False"

definition names_declared :: "endpoint \<Rightarrow> string list \<Rightarrow> bool" where
  "names_declared e names \<longleftrightarrow> length (ep_urlParams e) = length names \<and>
     list_all (\<lambda>n. n \<in> set (ep_urlParams e)) names \<and> list_all (\<lambda>n. n \<in> set names) (ep_urlParams e)"

definition declares :: "endpoint \<Rightarrow> request_options \<Rightarrow> bool" where
  "declares e opts =
     (ep_path e = opt_path opts \<and> ep_method e = opt_method opts \<and>
      names_declared e (map fst (opt_urlParams opts)) \<and> ep_body e = map_option body_schema (opt_body opts))"

lemma options_declared: "list_ex (\<lambda>e. declares e (call_options c)) endpoints"
  by (cases c)
     (simp_all add: endpoints_def auth_endpoints_def budget_endpoints_def
        dashboard_endpoints_def email_endpoints_def mailing_endpoints_def member_endpoints_def
        unit_endpoints_def ep_def declares_def names_declared_def operation_defs options_def)

lemma uri_filled:
  assumes "braces_closed path" and "holes path = map fst params" and "list_all (plain \<circ> snd) params"
  shows "buildURI path params = fill path (map snd params)"
  using buildURI_fill_prefix [OF assms, of "[]"] by simp

abbreviation attachments_path :: string where
  "attachments_path \<equiv> ''/api/email/templates/{template_id}/attachments''"

abbreviation attachment_path :: string where
  "attachment_path \<equiv> ''/api/email/templates/{template_id}/attachments/{attachment_id}''"

lemma attachment_rows:
  "\<exists>e \<in> set endpoints. ep_path e = attachments_path \<and> ep_method e = Post \<and>
     ep_urlParams e = [''template_id''] \<and> ep_body e = Some ''AddAttachmentInput''"
  "\<exists>e \<in> set endpoints. ep_path e = attachment_path \<and> ep_method e = Get \<and>
     ep_urlParams e = [''attachment_id'', ''template_id''] \<and> ep_body e = None"
proof -
  let ?a = "ep attachments_path Post [''template_id''] [] (Some ''AddAttachmentInput'')"
  have "?a \<in> set email_endpoints" unfolding email_endpoints_def list.set by blast
  then have "?a \<in> set endpoints" by (simp add: endpoints_def)
  then show "\<exists>e \<in> set endpoints. ep_path e = attachments_path \<and> ep_method e = Post \<and>
     ep_urlParams e = [''template_id''] \<and> ep_body e = Some ''AddAttachmentInput''"
    by (rule bexI [rotated]) (simp add: ep_def)
  let ?b = "ep attachment_path Get [''attachment_id'', ''template_id''] [] None"
  have "?b \<in> set email_endpoints" unfolding email_endpoints_def list.set by blast
  then have "?b \<in> set endpoints" by (simp add: endpoints_def)
  then show "\<exists>e \<in> set endpoints. ep_path e = attachment_path \<and> ep_method e = Get \<and>
     ep_urlParams e = [''attachment_id'', ''template_id''] \<and> ep_body e = None"
    by (rule bexI [rotated]) (simp add: ep_def)
qed



end
