(* ===== verification/Auth.thy ===== *)
theory Auth
  imports Api_Service
begin

text \<open>
  \<open>core/services/auth.service.ts\<close>, the guards (\<open>core/guards/auth.guard.ts\<close>) and the interceptor
  (\<open>core/interceptors/auth-interceptor.ts\<close>).

  The state is a record of the service's subjects and private fields. An operation returns the
  new state with the effects it has outside: API calls, navigations, the sign-in library's
  calls, and the \<open>unauthenticated\<close> event. The handlers of an answer are operations of their
  own, so any interleaving is a sequence of steps. The browser's URL class and the sign-in
  library are not in the repository: what they return is an argument.
\<close>

subsection \<open>State and effects\<close>

datatype auth_message =
    LoginFailed | ConnectionUnavailable | SessionCheckFailed | SessionExpired | LogoutFailed

record auth =
  au_google :: bool
  au_initialized :: bool
  au_returnPath :: "string option"
  au_configuration :: "AuthPublicAuthConfig option"
  au_loading :: bool
  au_message :: "auth_message option"
  au_user :: "AuthUser option"
  au_token :: "string option"

datatype auth_effect =
    Call api_call
  | Navigate string
  | ReplaceLocation
  | SubscribeGoogle
  | GoogleRequestToken
  | GoogleLogout
  | Unauthenticated

definition new_auth :: auth where
  "new_auth = \<lparr>au_google = False, au_initialized = False, au_returnPath = None,
     au_configuration = None, au_loading = True, au_message = None, au_user = None,
     au_token = None\<rparr>"

definition mode_is :: "string \<Rightarrow> auth \<Rightarrow> bool" where
  "mode_is m s = (Option.bind (au_configuration s) cfg_mode = Some m)"

subsection \<open>What a user may do\<close>

definition authenticated :: "auth \<Rightarrow> bool" where
  "authenticated s = (au_user s \<noteq> None)"

definition user_enabled :: "AuthUser option \<Rightarrow> bool" where
  "user_enabled u = (case u of None \<Rightarrow> False | Some v \<Rightarrow> nullish (usr_enabled v) False)"

definition active :: "auth \<Rightarrow> bool" where
  "active s = user_enabled (au_user s)"

definition administrator :: "auth \<Rightarrow> bool" where
  "administrator s =
     (case au_user s of None \<Rightarrow> False
      | Some u \<Rightarrow> truthy_bool (usr_enabled u) \<and> truthy_bool (usr_admin u))"

definition allowed :: "string \<Rightarrow> auth \<Rightarrow> bool" where
  "allowed action s =
     (case au_user s of None \<Rightarrow> False
      | Some u \<Rightarrow> truthy_bool (usr_enabled u) \<and>
          (truthy_bool (usr_admin u) \<or>
           (case usr_actions u of None \<Rightarrow> False | Some as \<Rightarrow> action \<in> set as)))"

subsection \<open>Operations\<close>

definition clearUser :: "auth \<Rightarrow> auth \<times> auth_effect list" where
  "clearUser s = (s\<lparr>au_user := None, au_token := None\<rparr>, [Unauthenticated])"

definition loadSession :: "auth \<Rightarrow> auth \<times> auth_effect list" where
  "loadSession s = (s, [Call GetCurrentUser])"

definition session_next :: "AuthUser option \<Rightarrow> auth \<Rightarrow> auth \<times> auth_effect list" where
  "session_next user s = (s\<lparr>au_user := user, au_loading := False\<rparr>, [])"

definition session_error :: "api_error \<Rightarrow> auth \<Rightarrow> auth \<times> auth_effect list" where
  "session_error e s =
     (let (s, out) = clearUser s; s = s\<lparr>au_loading := False\<rparr>
      in (if err_status e \<noteq> 401 then s\<lparr>au_message := Some SessionCheckFailed\<rparr> else s, out))"

definition configurationUnavailable :: "auth \<Rightarrow> auth \<times> auth_effect list" where
  "configurationUnavailable s =
     (s\<lparr>au_loading := False, au_message := Some ConnectionUnavailable\<rparr>, [])"

definition googleTokenChanged :: "string option \<Rightarrow> auth \<Rightarrow> auth \<times> auth_effect list" where
  "googleTokenChanged token s =
     (let s = s\<lparr>au_token := token\<rparr> in
      if truthy_str token then loadSession s
      else (let (s, out) = clearUser s in (s\<lparr>au_loading := False\<rparr>, out)))"

text \<open>\<open>authError\<close>: the page's URL has an \<open>auth_error\<close> parameter.\<close>

definition init :: "bool \<Rightarrow> auth \<Rightarrow> auth \<times> auth_effect list" where
  "init authError s =
     (if au_initialized s then (s, [])
      else (let s = s\<lparr>au_initialized := True\<rparr> in
        if authError
        then (s\<lparr>au_message := Some LoginFailed\<rparr>, [ReplaceLocation, Call GetAuthConfig])
        else (s, [Call GetAuthConfig])))"

text \<open>\<open>token\<close>: what the sign-in library answers to \<open>getAccessToken\<close>.\<close>

definition config_next ::
  "AuthPublicAuthConfig option \<Rightarrow> string option \<Rightarrow> auth \<Rightarrow> auth \<times> auth_effect list" where
  "config_next configuration token s =
     (case configuration of
        None \<Rightarrow> configurationUnavailable s
      | Some c \<Rightarrow>
          if nullish (cfg_mode c) [] \<notin> {''oidc'', ''google''} then configurationUnavailable s
          else (let s = s\<lparr>au_configuration := Some c\<rparr> in
            if cfg_mode c = Some ''oidc'' then loadSession s
            else (let (s, out) = googleTokenChanged token (s\<lparr>au_google := True\<rparr>)
                  in (s, SubscribeGoogle # out))))"

definition config_error :: "auth \<Rightarrow> auth \<times> auth_effect list" where
  "config_error s = configurationUnavailable s"

record url =
  url_origin :: string
  url_string :: string

record browser =
  br_origin :: string
  br_location :: string
  br_url :: "string \<Rightarrow> url"
  br_set_return :: "url \<Rightarrow> string \<Rightarrow> url"

definition login :: "browser \<Rightarrow> auth \<Rightarrow> auth \<times> auth_effect list" where
  "login br s =
     (case Option.bind (au_configuration s) cfg_login_url of
        None \<Rightarrow> (s, [])
      | Some path \<Rightarrow>
          if path = [] then (s, [])
          else (let u = br_url br path in
            if url_origin u \<noteq> br_origin br then (s, [])
            else (s, [Navigate (url_string
                   (br_set_return br u (nullish (au_returnPath s) (br_location br))))])))"

definition rememberReturnPath :: "string \<Rightarrow> auth \<Rightarrow> auth" where
  "rememberReturnPath path s = s\<lparr>au_returnPath := Some path\<rparr>"

definition sessionExpired :: "auth \<Rightarrow> auth \<times> auth_effect list" where
  "sessionExpired s =
     (if \<not> mode_is ''oidc'' s then (s, [])
      else clearUser (if au_user s \<noteq> None then s\<lparr>au_message := Some SessionExpired\<rparr> else s))"

definition refresh :: "auth \<Rightarrow> auth \<times> auth_effect list" where
  "refresh s =
     (if mode_is ''oidc'' s then loadSession s
      else (s, if au_google s then [GoogleRequestToken] else []))"

definition logout :: "auth \<Rightarrow> auth \<times> auth_effect list" where
  "logout s =
     (if mode_is ''oidc'' s then (s, [Call LogoutSession])
      else (s, if au_google s then [GoogleLogout] else []))"

definition logout_next :: "ServerLogoutResult option \<Rightarrow> auth \<Rightarrow> auth \<times> auth_effect list" where
  "logout_next result s =
     (let (s, out) = clearUser s in
      case Option.bind result slr_redirect_url of
        None \<Rightarrow> (s, out)
      | Some u \<Rightarrow> (s, if u = [] then out else out @ [Navigate u]))"

definition logout_error :: "auth \<Rightarrow> auth \<times> auth_effect list" where
  "logout_error s = (s\<lparr>au_message := Some LogoutFailed\<rparr>, [])"

definition google_loggedOut :: "auth \<Rightarrow> auth \<times> auth_effect list" where
  "google_loggedOut s = clearUser s"

lemmas auth_defs = clearUser_def loadSession_def session_next_def session_error_def
  configurationUnavailable_def googleTokenChanged_def init_def config_next_def config_error_def
  login_def rememberReturnPath_def sessionExpired_def refresh_def logout_def logout_next_def
  logout_error_def google_loggedOut_def mode_is_def Let_def

subsection \<open>The guards\<close>

text \<open>
  \<open>waitForAuthentication\<close> on the successive values of \<open>loading$\<close> and \<open>allowed$\<close>: the first one
  that is not loading decides; \<open>None\<close> is a navigation that still waits.
\<close>

fun waitForAuthentication :: "(bool \<times> bool) list \<Rightarrow> string \<Rightarrow> auth \<Rightarrow> (bool \<times> auth) option" where
  "waitForAuthentication [] path s = None"
| "waitForAuthentication ((ld, ok) # vs) path s =
     (if ld then waitForAuthentication vs path s
      else Some (ok, if ok then s else rememberReturnPath path s))"

definition isAuthenticated :: "auth list \<Rightarrow> string \<Rightarrow> auth \<Rightarrow> (bool \<times> auth) option" where
  "isAuthenticated states path s =
     waitForAuthentication (map (\<lambda>a. (au_loading a, active a)) states) path s"

definition isAdministrator :: "auth list \<Rightarrow> string \<Rightarrow> auth \<Rightarrow> (bool \<times> auth) option" where
  "isAdministrator states path s =
     waitForAuthentication (map (\<lambda>a. (au_loading a, administrator a)) states) path s"

subsection \<open>The interceptor\<close>

definition authorization_header :: "auth \<Rightarrow> string option" where
  "authorization_header s =
     (case au_token s of
        None \<Rightarrow> None
      | Some t \<Rightarrow> if t \<noteq> [] then Some (''Bearer '' @ t) else None)"

text \<open>An error of any request goes on to the subscriber; a 401 ends the session first.\<close>

definition intercept_error :: "api_error \<Rightarrow> auth \<Rightarrow> auth \<times> auth_effect list" where
  "intercept_error e s = (if err_status e = 401 then sessionExpired s else (s, []))"

subsection \<open>Runs\<close>

inductive auth_step :: "browser \<Rightarrow> auth \<Rightarrow> auth \<Rightarrow> bool" for br where
  st_init: "auth_step br s (fst (init authError s))"
| st_config: "au_initialized s \<Longrightarrow> au_configuration s = None \<Longrightarrow> \<not> au_google s \<Longrightarrow>
     auth_step br s (fst (config_next configuration token s))"
| st_config_error: "au_initialized s \<Longrightarrow> auth_step br s (fst (config_error s))"
| st_google: "au_google s \<Longrightarrow> auth_step br s (fst (googleTokenChanged token s))"
| st_session: "auth_step br s (fst (session_next user s))"
| st_session_error: "auth_step br s (fst (session_error e s))"
| st_login: "auth_step br s (fst (login br s))"
| st_remember: "auth_step br s (rememberReturnPath path s)"
| st_refresh: "auth_step br s (fst (refresh s))"
| st_logout: "auth_step br s (fst (logout s))"
| st_logout_next: "auth_step br s (fst (logout_next result s))"
| st_logout_error: "auth_step br s (fst (logout_error s))"
| st_google_loggedOut: "au_google s \<Longrightarrow> auth_step br s (fst (google_loggedOut s))"
| st_intercept: "auth_step br s (fst (intercept_error e s))"

inductive auth_reachable :: "browser \<Rightarrow> auth \<Rightarrow> bool" for br where
  start: "auth_reachable br new_auth"
| step: "auth_reachable br s \<Longrightarrow> auth_step br s s' \<Longrightarrow> auth_reachable br s'"

text \<open>A token exists only under the transitional provider.\<close>

definition token_inv :: "auth \<Rightarrow> bool" where
  "token_inv s \<longleftrightarrow> (au_google s \<longrightarrow> mode_is ''google'' s) \<and> (au_token s \<noteq> None \<longrightarrow> au_google s) \<and>
     (au_configuration s \<noteq> None \<longrightarrow> mode_is ''oidc'' s \<or> mode_is ''google'' s)"

lemma intercept_fst:
  "fst (intercept_error e s) = s \<or> fst (intercept_error e s) = fst (sessionExpired s)"
  by (simp add: intercept_error_def)

lemma token_inv_step:
  assumes "auth_step br s s'" and "token_inv s"
  shows "token_inv s'"
  using assms
proof (induction rule: auth_step.induct)
  case (st_config s configuration token)
  then show ?case
    by (cases configuration) (auto simp: token_inv_def auth_defs nullish_def split: option.split)
next
  case (st_login s)
  then show ?case by (auto simp: token_inv_def auth_defs split: option.split)
next
  case (st_logout_next s result)
  then show ?case by (auto simp: token_inv_def auth_defs split: option.split)
qed (auto simp: token_inv_def auth_defs intercept_error_def)

lemma auth_reachable_token: "auth_reachable br s \<Longrightarrow> token_inv s"
  by (induction rule: auth_reachable.induct)
     (auto intro: token_inv_step, simp add: token_inv_def new_auth_def)

subsection \<open>Properties\<close>

lemma user_kept_or_cleared:
  "au_user (fst (init b s)) = au_user s"
  "au_user (fst (config_next c t s)) = au_user s \<or> au_user (fst (config_next c t s)) = None"
  "au_user (fst (config_error s)) = au_user s"
  "au_user (fst (googleTokenChanged t s)) = au_user s \<or> au_user (fst (googleTokenChanged t s)) = None"
  "au_user (fst (session_error e s)) = None"
  "au_user (fst (login br s)) = au_user s"
  "au_user (rememberReturnPath p s) = au_user s"
  "au_user (fst (refresh s)) = au_user s"
  "au_user (fst (logout s)) = au_user s"
  "au_user (fst (logout_next r s)) = None"
  "au_user (fst (logout_error s)) = au_user s"
  "au_user (fst (google_loggedOut s)) = None"
  "au_user (fst (intercept_error e s)) = au_user s \<or> au_user (fst (intercept_error e s)) = None"
  by (auto simp: auth_defs intercept_error_def split: option.split)

lemma no_user_no_rights:
  "au_user s = None \<Longrightarrow> \<not> allowed a s \<and> \<not> active s \<and> \<not> administrator s"
  by (simp add: allowed_def active_def administrator_def user_enabled_def)

lemma rights_of_user: "au_user s' = au_user s \<Longrightarrow> allowed a s' = allowed a s"
  by (simp add: allowed_def)

text \<open>
  C10. Rights are only ever gained from the answer to a session request: a step of the service
  after which an action is allowed that was not allowed before is \<open>session_next\<close> with an
  enabled user who is an administrator or holds that action.
\<close>
theorem rights_from_session:
  assumes "auth_step br s s'" and "allowed a s'" and "\<not> allowed a s"
  shows "\<exists>u. s' = fst (session_next (Some u) s) \<and> truthy_bool (usr_enabled u) \<and>
    (truthy_bool (usr_admin u) \<or> a \<in> set (nullish (usr_actions u) []))"
proof (cases "\<exists>u. s' = fst (session_next (Some u) s)")
  case True
  then obtain u where u: "s' = fst (session_next (Some u) s)" by blast
  with assms(2) have "truthy_bool (usr_enabled u) \<and>
      (truthy_bool (usr_admin u) \<or> a \<in> set (nullish (usr_actions u) []))"
    by (auto simp: allowed_def session_next_def split: option.splits)
  with u show ?thesis by blast
next
  case False
  have "au_user s' = au_user s \<or> au_user s' = None"
    using assms(1) False
  proof (cases rule: auth_step.cases)
    case (st_session user)
    with False show ?thesis by (cases user) (auto simp: session_next_def)
  qed (simp_all add: user_kept_or_cleared)
  then show ?thesis
    using assms(2,3) no_user_no_rights [of s'] rights_of_user [of s' s] by blast
qed

definition admin_user :: AuthUser where
  "admin_user = \<lparr>usr_access_status = Some ''active'', usr_actions = None, usr_admin = Some True,
     usr_created_at = None, usr_enabled = Some True, usr_id = Some ''u1'', usr_identities = None,
     usr_tour_version = None, usr_updated_at = None, usr_username = Some ''admin''\<rparr>"

theorem rights_from_session_witness:
  "allowed ''budget.CreateBudget'' (fst (session_next (Some admin_user) new_auth)) \<and>
   (\<exists>u. fst (session_next (Some admin_user) new_auth) = fst (session_next (Some u) new_auth) \<and>
      truthy_bool (usr_enabled u) \<and>
      (truthy_bool (usr_admin u) \<or> ''budget.CreateBudget'' \<in> set (nullish (usr_actions u) [])))"
proof -
  let ?s = "fst (session_next (Some admin_user) new_auth)"
  have st: "auth_step br new_auth ?s" for br by (rule auth_step.st_session)
  have al: "allowed ''budget.CreateBudget'' ?s"
    by (simp add: allowed_def session_next_def admin_user_def)
  have no: "\<not> allowed ''budget.CreateBudget'' new_auth"
    by (simp add: allowed_def new_auth_def)
  from rights_from_session [OF st al no] al show ?thesis by blast
qed

text \<open>
  C11. Under the server-side session no bearer token is ever attached: in every reachable state
  with an OIDC configuration the interceptor sets no authorization header.
\<close>
theorem oidc_sends_no_token:
  assumes "auth_reachable br s" and "mode_is ''oidc'' s"
  shows "authorization_header s = None"
proof -
  from auth_reachable_token [OF assms(1)] assms(2) have "au_token s = None"
    by (auto simp: token_inv_def mode_is_def)
  then show ?thesis by (simp add: authorization_header_def)
qed

definition oidc_config :: AuthPublicAuthConfig where
  "oidc_config = \<lparr>cfg_label = None, cfg_login_url = Some ''/api/auth/login'', cfg_mode = Some ''oidc''\<rparr>"

definition oidc_auth :: auth where
  "oidc_auth = fst (config_next (Some oidc_config) None (fst (init False new_auth)))"

lemma oidc_auth_reachable: "auth_reachable br oidc_auth"
  unfolding oidc_auth_def
proof (rule auth_reachable.step [OF _ st_config])
  show "auth_reachable br (fst (init False new_auth))"
    by (rule auth_reachable.step [OF auth_reachable.start st_init])
qed (simp_all add: init_def new_auth_def)

theorem oidc_sends_no_token_witness:
  "mode_is ''oidc'' oidc_auth \<and> authorization_header oidc_auth = None"
proof -
  have m: "mode_is ''oidc'' oidc_auth"
    by (simp add: oidc_auth_def oidc_config_def auth_defs new_auth_def)
  from oidc_sends_no_token [OF oidc_auth_reachable m] m show ?thesis by simp
qed

lemma guard_decides:
  "waitForAuthentication vs path s =
     (case dropWhile fst vs of [] \<Rightarrow> None
      | (_, ok) # _ \<Rightarrow> Some (ok, if ok then s else rememberReturnPath path s))"
  by (induction vs) auto

text \<open>
  C12. A guard never lets a navigation through while the session is being checked or for a user
  who is not enabled; when it refuses one, signing in afterwards asks the server to come back to
  the refused path, and to no other site.
\<close>
theorem guard_then_login:
  assumes "isAuthenticated states path s = Some (ok, s')"
  shows "(ok \<longrightarrow> s' = s \<and> (\<exists>a \<in> set states. \<not> au_loading a \<and> active a)) \<and>
    (\<not> ok \<longrightarrow> snd (login br s') =
      (case Option.bind (au_configuration s) cfg_login_url of
         None \<Rightarrow> []
       | Some lu \<Rightarrow>
           if lu \<noteq> [] \<and> url_origin (br_url br lu) = br_origin br
           then [Navigate (url_string (br_set_return br (br_url br lu) path))] else []))"
proof (intro conjI impI)
  let ?vs = "map (\<lambda>a. (au_loading a, active a)) states"
  obtain v vs where d: "dropWhile fst ?vs = v # vs"
    using assms by (cases "dropWhile fst ?vs") (auto simp: isAuthenticated_def guard_decides)
  with assms have v: "snd v = ok" "s' = (if ok then s else rememberReturnPath path s)"
    by (auto simp: isAuthenticated_def guard_decides split: prod.splits if_splits)
  from d have "\<not> fst v" by (metis hd_dropWhile list.distinct(1) list.sel(1))
  moreover have "v \<in> set ?vs" using d by (metis list.set_intros(1) set_dropWhileD)
  ultimately show "ok \<Longrightarrow> \<exists>a \<in> set states. \<not> au_loading a \<and> active a" using v by auto
  from v show "ok \<Longrightarrow> s' = s" by simp
  from v show "\<not> ok \<Longrightarrow> snd (login br s') =
      (case Option.bind (au_configuration s) cfg_login_url of
         None \<Rightarrow> []
       | Some lu \<Rightarrow>
           if lu \<noteq> [] \<and> url_origin (br_url br lu) = br_origin br
           then [Navigate (url_string (br_set_return br (br_url br lu) path))] else [])"
    by (simp add: login_def rememberReturnPath_def Let_def nullish_def split: option.split)
qed

theorem guard_then_login_witness:
  "isAuthenticated [new_auth, oidc_auth\<lparr>au_loading := False\<rparr>] ''/members'' oidc_auth =
     Some (False, rememberReturnPath ''/members'' oidc_auth) \<and>
   snd (login \<lparr>br_origin = ''https://asl'', br_location = ''/'',
          br_url = (\<lambda>p. \<lparr>url_origin = ''https://asl'', url_string = ''https://asl'' @ p\<rparr>),
          br_set_return = (\<lambda>u p. u\<lparr>url_string := url_string u @ ''?return_to='' @ p\<rparr>)\<rparr>
        (rememberReturnPath ''/members'' oidc_auth)) =
     [Navigate ''https://asl/api/auth/login?return_to=/members'']"
proof -
  have g: "isAuthenticated [new_auth, oidc_auth\<lparr>au_loading := False\<rparr>] ''/members'' oidc_auth =
     Some (False, rememberReturnPath ''/members'' oidc_auth)"
    by (simp add: isAuthenticated_def active_def user_enabled_def oidc_auth_def oidc_config_def
        auth_defs new_auth_def nullish_def)
  have c: "Option.bind (au_configuration oidc_auth) cfg_login_url = Some ''/api/auth/login''"
    by (simp add: oidc_auth_def oidc_config_def auth_defs new_auth_def nullish_def)
  from guard_then_login [OF g] g c show ?thesis by simp
qed

end
