(* ===== verification/Data_Sources.thy ===== *)
theory Data_Sources
  imports Api_Service
begin

text \<open>
  \<open>shared/datasources/\<close>: the sources of the tables. A source is a record of its subjects'
  values; a request in flight has a ticket, and the answer to it is a later event that names
  the ticket. \<open>DataSource.load\<close> keeps every request in flight; \<open>UserDataSource\<close> cancels the
  earlier one; \<open>PagedDataSource\<close> sends its requests through \<open>switchMap\<close>, after a delay when
  the search text changed.

  The contract of a source that only ever shows the answer to its latest request is the locale
  \<open>latest_source\<close>; other components with the same contract interpret it too.
\<close>

subsection \<open>The contract: the latest request wins\<close>

locale latest_source =
  fixes load :: "'s \<Rightarrow> 's"
    and deliver :: "'s \<Rightarrow> nat \<Rightarrow> 'r \<Rightarrow> 's"
    and active :: "'s \<Rightarrow> nat option"
    and fresh :: "'s \<Rightarrow> nat"
    and view :: "'s \<Rightarrow> 'v"
    and render :: "'r \<Rightarrow> 'v"
    and invar :: "'s \<Rightarrow> bool"
  assumes invar_load: "invar s \<Longrightarrow> invar (load s)"
    and invar_deliver: "invar s \<Longrightarrow> invar (deliver s t r)"
    and active_load: "invar s \<Longrightarrow> active (load s) = Some (fresh s)"
    and fresh_load: "invar s \<Longrightarrow> fresh (load s) = Suc (fresh s)"
    and deliver_stale: "invar s \<Longrightarrow> active s \<noteq> Some t \<Longrightarrow> deliver s t r = s"
    and deliver_active: "invar s \<Longrightarrow> active s = Some t \<Longrightarrow> active (deliver s t r) = None"
    and deliver_view: "invar s \<Longrightarrow> active s = Some t \<Longrightarrow> view (deliver s t r) = render r"
begin

lemma late_answers_ignored:
  "invar s \<Longrightarrow> \<forall>(t, r) \<in> set late. t \<noteq> fresh s \<Longrightarrow>
   fold (\<lambda>(t, r) s. deliver s t r) late (load s) = load s"
proof (induction late)
  case (Cons tr late)
  obtain t r where tr: "tr = (t, r)" by fastforce
  with Cons.prems have "active (load s) \<noteq> Some t" by (auto simp: active_load)
  with Cons tr show ?case by (simp add: deliver_stale invar_load)
qed simp

lemma latest_wins:
  assumes "invar s" and "\<forall>(t, r) \<in> set late. t \<noteq> fresh s"
  shows "view (deliver (fold (\<lambda>(t, r) s. deliver s t r) late (load s)) (fresh s) r) = render r"
  using assms late_answers_ignored [OF assms]
  by (simp add: deliver_view active_load invar_load)

lemma superseded_ignored:
  assumes "invar s"
  shows "deliver (load (load s)) (fresh s) r = load (load s)"
  using assms by (intro deliver_stale) (auto simp: invar_load active_load fresh_load)

lemma answered_once:
  assumes "invar s" and "active s = Some t"
  shows "deliver (deliver s t r) t r' = deliver s t r"
  using assms by (intro deliver_stale) (auto simp: invar_deliver deliver_active)

end

subsection \<open>\<open>DataSource\<close>\<close>

record 'a data_source =
  ds_results :: "'a list"
  ds_loading :: bool
  ds_loaded :: bool
  ds_error :: "api_error option"
  ds_inflight :: "nat list"
  ds_next :: nat
  ds_closed :: bool

definition new_source :: "'a data_source" where
  "new_source = \<lparr>ds_results = [], ds_loading = False, ds_loaded = False, ds_error = None,
     ds_inflight = [], ds_next = 0, ds_closed = False\<rparr>"

text \<open>A completed subject ignores \<open>next\<close>.\<close>

definition setResults ::
  "'a list \<Rightarrow> ('a, 'z) data_source_scheme \<Rightarrow> ('a, 'z) data_source_scheme" where
  "setResults rows s = (if ds_closed s then s else s\<lparr>ds_results := rows, ds_loaded := True\<rparr>)"

definition setLoading ::
  "bool \<Rightarrow> ('a, 'z) data_source_scheme \<Rightarrow> ('a, 'z) data_source_scheme" where
  "setLoading b s = (if ds_closed s then s else s\<lparr>ds_loading := b\<rparr>)"

definition setError ::
  "api_error option \<Rightarrow> ('a, 'z) data_source_scheme \<Rightarrow> ('a, 'z) data_source_scheme" where
  "setError e s = (if ds_closed s then s else s\<lparr>ds_error := e\<rparr>)"

definition ds_load :: "('a, 'z) data_source_scheme \<Rightarrow> ('a, 'z) data_source_scheme" where
  "ds_load s =
     (let s = setLoading True s
      in s\<lparr>ds_inflight := ds_next s # ds_inflight s, ds_next := Suc (ds_next s)\<rparr>)"

text \<open>The subscriber of \<open>load\<close>: a result clears the error, an error shows no row.\<close>

definition ds_answer ::
  "api_error + 'a list \<Rightarrow> ('a, 'z) data_source_scheme \<Rightarrow> ('a, 'z) data_source_scheme" where
  "ds_answer r s =
     (case r of
        Inr rows \<Rightarrow> setLoading False (setResults rows (setError None s))
      | Inl e \<Rightarrow> setLoading False (setResults [] (setError (Some e) s)))"

definition ds_deliver ::
  "('a, 'z) data_source_scheme \<Rightarrow> nat \<Rightarrow> api_error + 'a list \<Rightarrow> ('a, 'z) data_source_scheme" where
  "ds_deliver s t r =
     (if t \<in> set (ds_inflight s)
      then ds_answer r (s\<lparr>ds_inflight := remove1 t (ds_inflight s)\<rparr>)
      else s)"

text \<open>Completing the subscription of a request in flight runs its \<open>complete\<close> handler.\<close>

definition ds_cancel :: "('a, 'z) data_source_scheme \<Rightarrow> ('a, 'z) data_source_scheme" where
  "ds_cancel s =
     (if ds_inflight s = [] then s else setLoading False (s\<lparr>ds_inflight := []\<rparr>))"

definition ds_disconnect :: "('a, 'z) data_source_scheme \<Rightarrow> ('a, 'z) data_source_scheme" where
  "ds_disconnect s = (ds_cancel s)\<lparr>ds_closed := True\<rparr>"

lemmas ds_defs = ds_load_def ds_deliver_def ds_answer_def ds_cancel_def ds_disconnect_def
  setResults_def setLoading_def setError_def Let_def

definition ds_rendered :: "api_error + 'a list \<Rightarrow> 'a list \<times> api_error option" where
  "ds_rendered r = (case r of Inr rows \<Rightarrow> (rows, None) | Inl e \<Rightarrow> ([], Some e))"

definition ds_view :: "('a, 'z) data_source_scheme \<Rightarrow> 'a list \<times> api_error option" where
  "ds_view s = (ds_results s, ds_error s)"

lemma ds_answer_view:
  "\<not> ds_closed s \<Longrightarrow> ds_view (ds_answer r s) = ds_rendered r"
  by (cases r) (simp_all add: ds_defs ds_view_def ds_rendered_def)

text \<open>A source that was disconnected never changes what it shows.\<close>

lemma ds_closed_frozen:
  assumes "ds_closed s"
  shows "ds_view (ds_load s) = ds_view s \<and> ds_view (ds_deliver s t r) = ds_view s \<and>
     ds_loading (ds_deliver s t r) = ds_loading s \<and> ds_loading (ds_load s) = ds_loading s"
  using assms by (cases r) (auto simp: ds_defs ds_view_def)

subsection \<open>\<open>EmptyDataSource\<close>, \<open>UserDataSource\<close>\<close>

definition empty_fetch :: "'a list" where
  "empty_fetch = []"

definition empty_load :: "'a data_source \<Rightarrow> 'a data_source" where
  "empty_load s = ds_deliver (ds_load s) (ds_next s) (Inr empty_fetch)"

lemma empty_load_shows_nothing:
  "\<not> ds_closed s \<Longrightarrow> ds_results (empty_load s) = [] \<and> ds_loaded (empty_load s) \<and> \<not> ds_loading (empty_load s)"
  by (simp add: empty_load_def empty_fetch_def ds_defs)

definition user_load :: "'a data_source \<Rightarrow> 'a data_source" where
  "user_load s = ds_load (ds_cancel s)"

definition user_disconnect :: "'a data_source \<Rightarrow> 'a data_source" where
  "user_disconnect s = ds_disconnect (ds_cancel s)"

definition single_inv :: "'a data_source \<Rightarrow> bool" where
  "single_inv s \<longleftrightarrow> \<not> ds_closed s \<and> (\<forall>t \<in> set (ds_inflight s). t < ds_next s) \<and>
     length (ds_inflight s) \<le> 1 \<and> (ds_loading s \<longleftrightarrow> ds_inflight s \<noteq> [])"

definition single_active :: "'a data_source \<Rightarrow> nat option" where
  "single_active s = (case ds_inflight s of [] \<Rightarrow> None | t # _ \<Rightarrow> Some t)"

lemma single_invE:
  assumes "single_inv s"
  obtains "ds_inflight s = []" "\<not> ds_closed s" "\<not> ds_loading s"
  | t where "ds_inflight s = [t]" "t < ds_next s" "\<not> ds_closed s" "ds_loading s"
  using assms by (cases "ds_inflight s") (auto simp: single_inv_def)

interpretation user_source:
  latest_source user_load ds_deliver single_active ds_next ds_view ds_rendered single_inv
proof unfold_locales
  fix s :: "'a data_source" and t and r :: "api_error + 'a list"
  assume inv: "single_inv s"
  then show "single_inv (user_load s)"
    by (auto simp: single_inv_def user_load_def ds_defs)
  from inv show "single_inv (ds_deliver s t r)"
    by (elim single_invE) (auto simp: single_inv_def ds_defs split: sum.split)
  from inv show "single_active (user_load s) = Some (ds_next s)"
    by (auto simp: single_active_def user_load_def ds_defs)
  from inv show "ds_next (user_load s) = Suc (ds_next s)"
    by (auto simp: user_load_def ds_defs)
  show "ds_deliver s t r = s" if "single_active s \<noteq> Some t"
    using inv that by (elim single_invE) (auto simp: single_active_def ds_deliver_def)
  assume act: "single_active s = Some t"
  then have t: "ds_inflight s = [t]" and opn: "\<not> ds_closed s"
    using inv by (auto simp: single_active_def elim: single_invE)
  then show "single_active (ds_deliver s t r) = None"
    by (cases r) (simp_all add: single_active_def ds_defs)
  from t opn show "ds_view (ds_deliver s t r) = ds_rendered r"
    by (simp add: ds_deliver_def ds_answer_view)
qed

end
