(* ===== verification/Paged_Sources.thy ===== *)
theory Paged_Sources
  imports Data_Sources
begin

text \<open>
  \<open>PagedDataSource\<close> (\<open>shared/datasources/paged.datasource.ts\<close>) and its two implementations,
  \<open>EmailDataSource\<close> and \<open>EmailCampaignDataSource\<close>. The record extends \<open>data_source\<close> as the
  class extends \<open>DataSource\<close>; the inherited \<open>ds_inflight\<close> stays empty, since \<open>load\<close> is
  overridden. \<open>switchMap\<close> keeps one inner observable: \<open>pg_active\<close> is its ticket and phase,
  waiting for the timer or for the answer to a request.

  \<open>fetchPage\<close> is abstract in the class and an argument here; it reads the fields when the
  timer fires, not when \<open>load\<close> is called.
\<close>

record sort =
  so_active :: string
  so_direction :: string

datatype phase = Delaying | Fetching api_call

record 'a paged_source = "'a data_source" +
  pg_pageIndex :: int
  pg_pageSize :: int
  pg_query :: string
  pg_order :: sort
  pg_total :: int
  pg_active :: "(nat \<times> phase) option"

record 'a page_result =
  pr_items :: "'a list"
  pr_pageIndex :: int
  pr_pageSize :: int
  pr_total :: int

definition new_paged :: "'a paged_source" where
  "new_paged = \<lparr>ds_results = [], ds_loading = False, ds_loaded = False, ds_error = None,
     ds_inflight = [], ds_next = 0, ds_closed = False,
     pg_pageIndex = 0, pg_pageSize = 25, pg_query = [],
     pg_order = \<lparr>so_active = ''created_at'', so_direction = ''desc''\<rparr>, pg_total = 0,
     pg_active = None\<rparr>"

text \<open>\<open>finalize\<close> of the inner observable, when it completes or is replaced.\<close>

definition pg_finalize :: "('a, 'z) paged_source_scheme \<Rightarrow> ('a, 'z) paged_source_scheme" where
  "pg_finalize s = (if pg_active s = None then s else setLoading False (s\<lparr>pg_active := None\<rparr>))"

definition pg_load ::
  "(('a, 'z) paged_source_scheme \<Rightarrow> api_call) \<Rightarrow> nat \<Rightarrow> ('a, 'z) paged_source_scheme
     \<Rightarrow> ('a, 'z) paged_source_scheme" where
  "pg_load fetchPage delay s =
     (if ds_closed s then s
      else let s = setError None (setLoading True (pg_finalize s))
           in s\<lparr>pg_active := Some (ds_next s, if delay = 0 then Fetching (fetchPage s) else Delaying),
                 ds_next := Suc (ds_next s)\<rparr>)"

definition pg_timer ::
  "(('a, 'z) paged_source_scheme \<Rightarrow> api_call) \<Rightarrow> ('a, 'z) paged_source_scheme \<Rightarrow> nat
     \<Rightarrow> ('a, 'z) paged_source_scheme" where
  "pg_timer fetchPage s t =
     (if pg_active s = Some (t, Delaying) then s\<lparr>pg_active := Some (t, Fetching (fetchPage s))\<rparr>
      else s)"

definition pg_fetched :: "'a page_result \<Rightarrow> ('a, 'z) paged_source_scheme
     \<Rightarrow> ('a, 'z) paged_source_scheme" where
  "pg_fetched page s = s\<lparr>pg_pageIndex := pr_pageIndex page, pg_pageSize := pr_pageSize page,
     pg_total := pr_total page\<rparr>"

definition pg_respond ::
  "('a, 'z) paged_source_scheme \<Rightarrow> nat \<Rightarrow> api_error + 'a page_result
     \<Rightarrow> ('a, 'z) paged_source_scheme" where
  "pg_respond s t r =
     (case pg_active s of
        Some (u, Fetching c) \<Rightarrow>
          if u \<noteq> t then s
          else pg_finalize
            (case r of
               Inr page \<Rightarrow> setResults (pr_items page) (pg_fetched page s)
             | Inl e \<Rightarrow> setResults [] (setError (Some e) s))
      | _ \<Rightarrow> s)"

definition setFilter ::
  "(('a, 'z) paged_source_scheme \<Rightarrow> api_call) \<Rightarrow> string \<Rightarrow> ('a, 'z) paged_source_scheme
     \<Rightarrow> ('a, 'z) paged_source_scheme" where
  "setFilter fetchPage query s =
     (if query = pg_query s then s
      else pg_load fetchPage 250 (s\<lparr>pg_query := query, pg_pageIndex := 0\<rparr>))"

definition setSort ::
  "(('a, 'z) paged_source_scheme \<Rightarrow> api_call) \<Rightarrow> sort \<Rightarrow> ('a, 'z) paged_source_scheme
     \<Rightarrow> ('a, 'z) paged_source_scheme" where
  "setSort fetchPage srt s =
     (if so_direction srt = [] \<or> srt = pg_order s then s
      else pg_load fetchPage 0 (s\<lparr>pg_order := srt, pg_pageIndex := 0\<rparr>))"

definition setPage ::
  "(('a, 'z) paged_source_scheme \<Rightarrow> api_call) \<Rightarrow> int \<Rightarrow> int \<Rightarrow> ('a, 'z) paged_source_scheme
     \<Rightarrow> ('a, 'z) paged_source_scheme" where
  "setPage fetchPage pageIndex pageSize s =
     pg_load fetchPage 0 (s\<lparr>pg_pageIndex := (if pageSize = pg_pageSize s then pageIndex else 0),
       pg_pageSize := pageSize\<rparr>)"

definition pg_disconnect :: "('a, 'z) paged_source_scheme \<Rightarrow> ('a, 'z) paged_source_scheme" where
  "pg_disconnect s = ds_disconnect (pg_finalize s)"

lemmas pg_defs = pg_finalize_def pg_load_def pg_timer_def pg_fetched_def pg_respond_def
  setFilter_def setSort_def setPage_def pg_disconnect_def ds_disconnect_def ds_cancel_def
  setResults_def setLoading_def setError_def Let_def

subsection \<open>The e-mail and campaign sources\<close>

record email_source = "ModelsEmailSummary paged_source" +
  es_filterState :: string
  es_campaignId :: string

definition new_email_source :: "string \<Rightarrow> string \<Rightarrow> email_source" where
  "new_email_source campaignId initialState = \<lparr>ds_results = [], ds_loading = False, ds_loaded = False, ds_error = None,
     ds_inflight = [], ds_next = 0, ds_closed = False,
     pg_pageIndex = 0, pg_pageSize = 25, pg_query = [],
     pg_order = \<lparr>so_active = ''created_at'', so_direction = ''desc''\<rparr>, pg_total = 0,
     pg_active = None,
     es_filterState = initialState, es_campaignId = campaignId\<rparr>"

definition page_query :: "('a, 'z) paged_source_scheme \<Rightarrow> query" where
  "page_query s = [(''page'', Some (QInt (pg_pageIndex s + 1))),
     (''page_size'', Some (QInt (pg_pageSize s))), (''query'', Some (QStr (pg_query s))),
     (''sort'', Some (QStr (so_active (pg_order s)))),
     (''direction'', Some (QStr (so_direction (pg_order s))))]"

definition emails_fetchPage :: "email_source \<Rightarrow> api_call" where
  "emails_fetchPage s = ListEmails (es_campaignId s)
     (page_query s @ [(''state'',
        if es_filterState s = [] then None else Some (QStr (es_filterState s)))])"

definition campaigns_fetchPage :: "ModelsEmailCampaignSummary paged_source \<Rightarrow> api_call" where
  "campaigns_fetchPage s = ListEmailCampaigns (page_query s)"

text \<open>The adapters of the response; a missing one is an error thrown into the pipe.\<close>

definition missing_page :: "string \<Rightarrow> api_error" where
  "missing_page m = \<lparr>err_message = Some m, err_status = 0, err_statusText = []\<rparr>"

definition emails_page ::
  "email_source \<Rightarrow> ModelsEmailPage option \<Rightarrow> api_error + ModelsEmailSummary page_result" where
  "emails_page s response =
     (case response of
        None \<Rightarrow> Inl (missing_page ''Missing email page'')
      | Some r \<Rightarrow> Inr \<lparr>pr_items = nullish (epg_items r) [],
          pr_pageIndex = nullish (epg_page r) 1 - 1,
          pr_pageSize = nullish (epg_page_size r) (pg_pageSize s),
          pr_total = nullish (epg_total r) 0\<rparr>)"

definition campaigns_page ::
  "ModelsEmailCampaignSummary paged_source \<Rightarrow> ModelsEmailCampaignPage option
     \<Rightarrow> api_error + ModelsEmailCampaignSummary page_result" where
  "campaigns_page s response =
     (case response of
        None \<Rightarrow> Inl (missing_page ''Missing campaign page'')
      | Some r \<Rightarrow> Inr \<lparr>pr_items = nullish (cpg_items r) [],
          pr_pageIndex = nullish (cpg_page r) 1 - 1,
          pr_pageSize = nullish (cpg_page_size r) (pg_pageSize s),
          pr_total = nullish (cpg_total r) 0\<rparr>)"

definition setState :: "string \<Rightarrow> email_source \<Rightarrow> email_source" where
  "setState state s =
     (if state = es_filterState s then s
      else pg_load emails_fetchPage 0 (s\<lparr>es_filterState := state, pg_pageIndex := 0\<rparr>))"

subsection \<open>The contract holds for a paged source\<close>

definition pg_inv ::
  "(('a, 'z) paged_source_scheme \<Rightarrow> api_call) \<Rightarrow> ('a, 'z) paged_source_scheme \<Rightarrow> bool" where
  "pg_inv fetchPage s \<longleftrightarrow>
     ds_inflight s = [] \<and>
     (ds_loading s \<longleftrightarrow> pg_active s \<noteq> None) \<and>
     (\<forall>t p. pg_active s = Some (t, p) \<longrightarrow> t < ds_next s) \<and>
     (\<forall>t c. pg_active s = Some (t, Fetching c) \<longrightarrow> c = fetchPage s) \<and>
     (ds_closed s \<longrightarrow> pg_active s = None)"

text \<open>
  \<open>fetchPage\<close> reads the page, the size, the search, the order and the fields of the subclass,
  never the subjects.
\<close>

definition reads_criteria :: "(('a, 'z) paged_source_scheme \<Rightarrow> api_call) \<Rightarrow> bool" where
  "reads_criteria fetchPage \<longleftrightarrow>
     (\<forall>s b e rows ld t a n. fetchPage (s\<lparr>ds_results := rows, ds_loading := b, ds_loaded := ld,
        ds_error := e, ds_next := n, pg_total := t, pg_active := a\<rparr>) = fetchPage s)"

lemma reads_criteriaD:
  assumes "reads_criteria f"
  shows "f (s\<lparr>ds_loading := b\<rparr>) = f s" "f (s\<lparr>ds_error := e\<rparr>) = f s"
    "f (s\<lparr>pg_active := a\<rparr>) = f s" "f (s\<lparr>ds_next := n\<rparr>) = f s"
proof -
  note r = assms [unfolded reads_criteria_def, rule_format]
  show "f (s\<lparr>ds_loading := b\<rparr>) = f s"
    using r [where s = s and rows = "ds_results s" and b = b and ld = "ds_loaded s" and e = "ds_error s" and n = "ds_next s" and t = "pg_total s" and a = "pg_active s"]
    by simp
  show "f (s\<lparr>ds_error := e\<rparr>) = f s"
    using r [where s = s and rows = "ds_results s" and b = "ds_loading s" and ld = "ds_loaded s" and e = e and n = "ds_next s" and t = "pg_total s" and a = "pg_active s"]
    by simp
  show "f (s\<lparr>pg_active := a\<rparr>) = f s"
    using r [where s = s and rows = "ds_results s" and b = "ds_loading s" and ld = "ds_loaded s" and e = "ds_error s" and n = "ds_next s" and t = "pg_total s" and a = a]
    by simp
  show "f (s\<lparr>ds_next := n\<rparr>) = f s"
    using r [where s = s and rows = "ds_results s" and b = "ds_loading s" and ld = "ds_loaded s" and e = "ds_error s" and n = n and t = "pg_total s" and a = "pg_active s"]
    by simp
qed

lemma emails_reads: "reads_criteria emails_fetchPage"
  by (simp add: reads_criteria_def emails_fetchPage_def page_query_def)

lemma campaigns_reads: "reads_criteria campaigns_fetchPage"
  by (simp add: reads_criteria_def campaigns_fetchPage_def page_query_def)

lemma reads_setters:
  assumes "reads_criteria f"
  shows "f (setLoading b s) = f s" "f (setError e s) = f s" "f (pg_finalize s) = f s"
  using assms by (auto simp: pg_defs reads_criteriaD)

lemma setter_selectors [simp]:
  "pg_active (setLoading b s) = pg_active s" "pg_active (setError e s) = pg_active s"
  "pg_active (setResults rows s) = pg_active s"
  "ds_next (setLoading b s) = ds_next s" "ds_next (setError e s) = ds_next s"
  "ds_inflight (setLoading b s) = ds_inflight s" "ds_inflight (setError e s) = ds_inflight s"
  "ds_inflight (setResults rows s) = ds_inflight s" "ds_next (setResults rows s) = ds_next s"
  "ds_closed (setLoading b s) = ds_closed s" "ds_closed (setError e s) = ds_closed s"
  "ds_closed (setResults rows s) = ds_closed s"
  "ds_loading (setError e s) = ds_loading s" "ds_loading (setResults rows s) = ds_loading s"
  by (simp_all add: setLoading_def setError_def setResults_def)

lemma finalize_selectors [simp]:
  "pg_active (pg_finalize s) = None" "ds_next (pg_finalize s) = ds_next s"
  "ds_inflight (pg_finalize s) = ds_inflight s" "ds_closed (pg_finalize s) = ds_closed s"
  by (simp_all add: pg_finalize_def)

lemma finalize_loading:
  "\<not> ds_closed s \<Longrightarrow> (pg_active s = None \<Longrightarrow> \<not> ds_loading s) \<Longrightarrow> \<not> ds_loading (pg_finalize s)"
  by (auto simp: pg_finalize_def setLoading_def)

lemma pg_load_open:
  "\<not> ds_closed s \<Longrightarrow> pg_load f d s =
     (setError None (setLoading True (pg_finalize s)))
       \<lparr>pg_active := Some (ds_next s, if d = 0 then Fetching (f s) else Delaying),
        ds_next := Suc (ds_next s)\<rparr>" if "reads_criteria f"
  using that by (simp add: pg_load_def Let_def reads_setters)

lemma pg_inv_load:
  assumes f: "reads_criteria f" and i: "ds_inflight s = []"
    and c: "ds_closed s \<Longrightarrow> pg_inv f s"
  shows "pg_inv f (pg_load f d s)"
proof (cases "ds_closed s")
  case True
  then show ?thesis using c by (simp add: pg_load_def)
next
  case False
  then have "ds_loading (pg_load f d s)" by (simp add: pg_load_open [OF f] setLoading_def setError_def)
  moreover have "f (pg_load f d s) = f s"
    using False f by (simp add: pg_load_open [OF f] reads_criteriaD reads_setters)
  ultimately show ?thesis
    using False i by (auto simp: pg_inv_def pg_load_open [OF f])
qed

lemma pg_inv_timer: "reads_criteria f \<Longrightarrow> pg_inv f s \<Longrightarrow> pg_inv f (pg_timer f s t)"
  by (auto simp: pg_inv_def pg_timer_def reads_criteriaD)

lemma pg_respond_active:
  assumes "pg_active s = Some (t, Fetching c)"
  shows "pg_respond s t r = pg_finalize
            (case r of
               Inr page \<Rightarrow> setResults (pr_items page) (pg_fetched page s)
             | Inl e \<Rightarrow> setResults [] (setError (Some e) s))"
  using assms by (simp add: pg_respond_def)

lemma pg_respond_stale:
  "(\<And>c. pg_active s \<noteq> Some (t, Fetching c)) \<Longrightarrow> pg_respond s t r = s"
  by (auto simp: pg_respond_def split: option.split phase.split)

lemma pg_inv_respond:
  assumes "pg_inv f s"
  shows "pg_inv f (pg_respond s t r)"
proof (cases "\<exists>c. pg_active s = Some (t, Fetching c)")
  case True
  then obtain c where c: "pg_active s = Some (t, Fetching c)" by blast
  with assms have "\<not> ds_closed s" by (auto simp: pg_inv_def)
  then have "\<not> ds_loading (pg_respond s t r)"
    using c by (cases r) (simp_all add: pg_respond_active pg_defs)
  then show ?thesis
    using assms c by (cases r) (simp_all add: pg_respond_active pg_inv_def pg_fetched_def)
next
  case False
  then show ?thesis using assms by (simp add: pg_respond_stale)
qed

lemma pg_inv_disconnect:
  assumes "pg_inv f s"
  shows "pg_inv f (pg_disconnect s)"
  using assms by (auto simp: pg_inv_def pg_defs)

text \<open>A request in flight: \<open>switchMap\<close> answers only to the latest one.\<close>

definition open_inv :: "(('a, 'z) paged_source_scheme \<Rightarrow> api_call)
    \<Rightarrow> ('a, 'z) paged_source_scheme \<Rightarrow> bool" where
  "open_inv f s \<longleftrightarrow> pg_inv f s \<and> \<not> ds_closed s \<and> (\<forall>t. pg_active s \<noteq> Some (t, Delaying))"

definition pg_ticket :: "('a, 'z) paged_source_scheme \<Rightarrow> nat option" where
  "pg_ticket s = map_option fst (pg_active s)"

definition page_rendered :: "api_error + 'a page_result \<Rightarrow> 'a list \<times> api_error option" where
  "page_rendered r = (case r of Inr page \<Rightarrow> (pr_items page, None) | Inl e \<Rightarrow> ([], Some e))"

definition pg_error_inv :: "('a, 'z) paged_source_scheme \<Rightarrow> bool" where
  "pg_error_inv s \<longleftrightarrow> (pg_active s \<noteq> None \<longrightarrow> ds_error s = None)"

definition latest_inv where
  "latest_inv f s \<longleftrightarrow> open_inv f s \<and> pg_error_inv s"

lemma latest_invE:
  assumes "latest_inv f s" and "pg_ticket s = Some t"
  obtains c where "pg_active s = Some (t, Fetching c)" "\<not> ds_closed s" "ds_error s = None"
proof -
  from assms(2) obtain p where p: "pg_active s = Some (t, p)" by (auto simp: pg_ticket_def)
  with assms(1) have "p \<noteq> Delaying" "\<not> ds_closed s" "ds_error s = None"
    by (auto simp: latest_inv_def open_inv_def pg_error_inv_def)
  with p show ?thesis by (cases p) (auto intro: that)
qed

lemma paged_latest:
  fixes f :: "('a, 'z) paged_source_scheme \<Rightarrow> api_call"
  assumes f: "reads_criteria f"
  shows "latest_source (pg_load f 0) pg_respond pg_ticket ds_next ds_view page_rendered (latest_inv f)"
proof unfold_locales
  fix s :: "('a, 'z) paged_source_scheme" and t and r :: "api_error + 'a page_result"
  assume inv: "latest_inv f s"
  then have opn: "\<not> ds_closed s" and pg: "pg_inv f s" and i: "ds_inflight s = []"
    by (auto simp: latest_inv_def open_inv_def pg_inv_def)
  have "pg_inv f (pg_load f 0 s)" using f i opn by (intro pg_inv_load) auto
  then show "latest_inv f (pg_load f 0 s)"
    using opn f by (auto simp: latest_inv_def open_inv_def pg_error_inv_def pg_load_open [OF f]
        setError_def)
  show "pg_ticket (pg_load f 0 s) = Some (ds_next s)" "ds_next (pg_load f 0 s) = Suc (ds_next s)"
    using opn by (simp_all add: pg_ticket_def pg_load_open [OF f])
  show stale: "pg_respond s t r = s" if "pg_ticket s \<noteq> Some t"
    using that by (intro pg_respond_stale) (auto simp: pg_ticket_def)
  have act: "pg_active (pg_respond s t r) = None" "\<not> ds_closed (pg_respond s t r)"
    "ds_view (pg_respond s t r) = page_rendered r" if p: "pg_ticket s = Some t"
  proof -
    obtain c where c: "pg_active s = Some (t, Fetching c)" "ds_error s = None"
      using latest_invE [OF inv p] by metis
    show "pg_active (pg_respond s t r) = None" "\<not> ds_closed (pg_respond s t r)"
      "ds_view (pg_respond s t r) = page_rendered r"
      using c opn by (cases r; simp add: pg_respond_active pg_defs ds_view_def page_rendered_def)+
  qed
  show "latest_inv f (pg_respond s t r)"
  proof (cases "pg_ticket s = Some t")
    case True
    with act pg show ?thesis
      by (simp add: latest_inv_def open_inv_def pg_error_inv_def pg_inv_respond)
  qed (use stale inv in simp)
  assume "pg_ticket s = Some t"
  with act show "pg_ticket (pg_respond s t r) = None"
    "ds_view (pg_respond s t r) = page_rendered r" by (simp_all add: pg_ticket_def)
qed

interpretation emails: latest_source "pg_load emails_fetchPage 0" pg_respond pg_ticket ds_next
  ds_view page_rendered "latest_inv emails_fetchPage"
  by (rule paged_latest) (rule emails_reads)

interpretation campaigns: latest_source "pg_load campaigns_fetchPage 0" pg_respond pg_ticket
  ds_next ds_view page_rendered "latest_inv campaigns_fetchPage"
  by (rule paged_latest) (rule campaigns_reads)

subsection \<open>Every run of an e-mail source\<close>

inductive email_step :: "email_source \<Rightarrow> email_source \<Rightarrow> bool" where
  es_load: "email_step s (pg_load emails_fetchPage delay s)"
| es_filter: "email_step s (setFilter emails_fetchPage query s)"
| es_sort: "email_step s (setSort emails_fetchPage srt s)"
| es_page: "email_step s (setPage emails_fetchPage pageIndex pageSize s)"
| es_state: "email_step s (setState state s)"
| es_timer: "email_step s (pg_timer emails_fetchPage s t)"
| es_respond: "email_step s (pg_respond s t (emails_page s response))"
| es_fail: "email_step s (pg_respond s t (Inl e))"
| es_disconnect: "email_step s (pg_disconnect s)"

inductive email_reachable :: "email_source \<Rightarrow> bool" where
  start: "email_reachable (new_email_source campaignId initialState)"
| step: "email_reachable s \<Longrightarrow> email_step s s' \<Longrightarrow> email_reachable s'"

text \<open>Changing the criteria and reloading keeps the invariant, also after a disconnection.\<close>

lemma pg_inv_changed:
  assumes "pg_inv f s" and "reads_criteria f"
    and "ds_inflight s' = ds_inflight s" "ds_closed s' = ds_closed s" "pg_active s' = pg_active s"
    and "ds_loading s' = ds_loading s"
  shows "pg_inv f (pg_load f d s')"
  using assms by (intro pg_inv_load) (auto simp: pg_inv_def)

lemma email_step_inv: "email_step s s' \<Longrightarrow> pg_inv emails_fetchPage s \<Longrightarrow> pg_inv emails_fetchPage s'"
proof (induction rule: email_step.induct)
  case (es_load s delay)
  then show ?case by (rule pg_inv_changed) (simp_all add: emails_reads)
next
  case (es_filter s query)
  then show ?case
    by (simp add: setFilter_def) (intro impI, rule pg_inv_changed, simp_all add: emails_reads)
next
  case (es_sort s srt)
  then show ?case
    by (simp add: setSort_def) (intro impI, rule pg_inv_changed, simp_all add: emails_reads)
next
  case (es_page s pageIndex pageSize)
  show ?case
    unfolding setPage_def by (rule pg_inv_changed [OF es_page]) (simp_all add: emails_reads)
next
  case (es_state s state)
  then show ?case
    by (simp add: setState_def) (intro impI, rule pg_inv_changed, simp_all add: emails_reads)
qed (simp_all add: pg_inv_timer pg_inv_respond pg_inv_disconnect emails_reads)

lemma new_email_source_inv: "pg_inv emails_fetchPage (new_email_source campaignId initialState)"
  by (simp add: pg_inv_def new_email_source_def)

lemma email_reachable_inv: "email_reachable s \<Longrightarrow> pg_inv emails_fetchPage s"
  by (induction rule: email_reachable.induct) (auto intro: email_step_inv new_email_source_inv)

text \<open>
  C4. In every reachable state of the e-mail source, whatever was searched, sorted, paged,
  filtered by state, answered or disconnected in between: the spinner shows exactly while a
  request is pending, and the request in flight asks for the current search, order, page, size
  and state, so no answer to an outdated question can arrive.
\<close>
theorem email_request_current:
  assumes "email_reachable s"
  shows "(ds_loading s \<longleftrightarrow> pg_active s \<noteq> None) \<and>
    (\<forall>t c. pg_active s = Some (t, Fetching c) \<longrightarrow> c = emails_fetchPage s)"
  using email_reachable_inv [OF assms] by (auto simp: pg_inv_def)

definition searched_source :: email_source where
  "searched_source = pg_timer emails_fetchPage
     (setFilter emails_fetchPage ''dupont'' (new_email_source ''c1'' [])) 0"

theorem email_request_current_witness:
  "ds_loading searched_source \<and>
   pg_active searched_source = Some (0, Fetching (emails_fetchPage searched_source)) \<and>
   pg_query searched_source = ''dupont''"
proof -
  have "email_reachable searched_source"
    unfolding searched_source_def
    by (rule email_reachable.step [OF email_reachable.step [OF email_reachable.start es_filter]
          es_timer])
  moreover have "\<exists>c. pg_active searched_source = Some (0, Fetching c)"
    by (simp add: searched_source_def pg_defs new_email_source_def)
  ultimately have "ds_loading searched_source \<and>
      pg_active searched_source = Some (0, Fetching (emails_fetchPage searched_source))"
    using email_request_current by fastforce
  then show ?thesis
    by (simp add: searched_source_def pg_defs new_email_source_def)
qed

text \<open>
  C5. Reloading cancels: once \<open>load\<close> has been called, answers to earlier requests change
  nothing, and the answer to the new request is what the table shows, rows or error.
\<close>
theorem email_reload_latest_wins:
  assumes "latest_inv emails_fetchPage s" and "\<forall>(t, r) \<in> set late. t \<noteq> ds_next s"
  shows "ds_view (pg_respond (fold (\<lambda>(t, r) s. pg_respond s t r) late
      (pg_load emails_fetchPage 0 s)) (ds_next s) r) = page_rendered r"
  using assms by (rule emails.latest_wins)

theorem email_reload_latest_wins_witness:
  "ds_view (pg_respond (pg_respond
     (pg_load emails_fetchPage 0 (pg_load emails_fetchPage 0 (new_email_source ''c1'' [])))
     0 (Inl (missing_page []))) 1 (Inr \<lparr>pr_items = [], pr_pageIndex = 0, pr_pageSize = 25,
       pr_total = 0\<rparr>)) = ([], None)"
proof -
  let ?s = "pg_load emails_fetchPage 0 (new_email_source ''c1'' [])"
  let ?p = "\<lparr>pr_items = [], pr_pageIndex = 0, pr_pageSize = 25, pr_total = 0\<rparr>"
  have "latest_inv emails_fetchPage (new_email_source ''c1'' [])"
    by (simp add: latest_inv_def open_inv_def pg_inv_def pg_error_inv_def new_email_source_def)
  then have i: "latest_inv emails_fetchPage ?s" by (rule emails.invar_load)
  have n: "ds_next ?s = 1" by (simp add: pg_defs new_email_source_def)
  have "\<forall>(t, r) \<in> set [(0, Inl (missing_page []))]. t \<noteq> ds_next ?s" using n by simp
  from email_reload_latest_wins [OF i this, of "Inr ?p"] show ?thesis
    using n by (simp add: page_rendered_def)
qed

text \<open>
  C6. A plain \<open>DataSource\<close> has no such guard: with two requests in flight the table ends up
  showing the answer that arrives last, which may belong to the earlier request, and the
  spinner stops at the first answer.
\<close>
theorem plain_source_last_answer_wins:
  assumes "\<not> ds_closed s" and "ds_inflight s = []"
  shows "ds_view (ds_deliver (ds_deliver (ds_load (ds_load s)) (Suc (ds_next s)) new)
            (ds_next s) old) = ds_rendered old
    \<and> \<not> ds_loading (ds_deliver (ds_load (ds_load s)) (ds_next s) old)"
proof -
  let ?s1 = "ds_deliver (ds_load (ds_load s)) (Suc (ds_next s)) new"
  have "\<not> ds_closed ?s1" "ds_inflight ?s1 = [ds_next s]"
    using assms by (cases new; simp add: ds_defs)+
  then have "ds_view (ds_deliver ?s1 (ds_next s) old) = ds_rendered old"
    by (simp add: ds_deliver_def ds_answer_view)
  moreover have "\<not> ds_loading (ds_deliver (ds_load (ds_load s)) (ds_next s) old)"
    using assms by (cases old) (simp_all add: ds_defs)
  ultimately show ?thesis by simp
qed

theorem plain_source_last_answer_wins_witness:
  "\<not> ds_closed (new_source :: nat data_source) \<and>
   ds_view (ds_deliver (ds_deliver (ds_load (ds_load (new_source :: nat data_source))) 1
     (Inr [2])) 0 (Inr [1])) = ([1], None)"
proof -
  have h: "\<not> ds_closed (new_source :: nat data_source)" "ds_inflight (new_source :: nat data_source) = []"
    by (simp_all add: new_source_def)
  have n: "ds_next (new_source :: nat data_source) = 0" by (simp add: new_source_def)
  from plain_source_last_answer_wins [OF h, of "Inr [2]" "Inr [1]"] h n show ?thesis
    by (simp add: ds_rendered_def)
qed

end
