(* ===== verification/Payments.thy ===== *)
theory Payments
  imports Paged_Sources
begin

text \<open>
  \<open>budgets/payment-state.ts\<close>, the cotisation source
  (\<open>budgets/datasources/cotisation.datasource.ts\<close>) and the classes the map of a budget gives
  to the lots (\<open>unitClasses$\<close> of \<open>budget-details.component.ts\<close>). Amounts are exact rationals;
  the sources only compare them, halve them and take the sign of a difference, which floating
  point does exactly. Of the server, only the fields that \<open>ListCotisations\<close> gives to a row
  (\<open>controllers/budgets.go\<close>) are here: the colours and the filters rest on them.
\<close>

subsection \<open>The state of a payment\<close>

datatype PaymentState = Done | Doing | Waiting | Overpaid

fun state_code :: "PaymentState \<Rightarrow> int" where
  "state_code Done = 1"
| "state_code Doing = 2"
| "state_code Waiting = 3"
| "state_code Overpaid = 4"

definition state_of_code :: "int option \<Rightarrow> PaymentState option" where
  "state_of_code n =
     (if n = Some 1 then Some Done
      else if n = Some 2 then Some Doing
      else if n = Some 3 then Some Waiting
      else if n = Some 4 then Some Overpaid
      else None)"

lemma state_of_code_code: "state_of_code (Some (state_code p)) = Some p"
  by (cases p) (simp_all add: state_of_code_def)

definition paymentState :: "ModelsCotisationResult \<Rightarrow> PaymentState" where
  "paymentState c =
     (case state_of_code (ctr_payment_state c) of
        Some p \<Rightarrow> p
      | None \<Rightarrow>
          let amount = nullish (ctr_amount c) 0; paid = nullish (ctr_paid c) 0
          in if paid > amount then Overpaid
             else if paid = amount then Done
             else if paid \<ge> amount / 2 then Doing
             else Waiting)"

definition paymentClass :: "ModelsCotisationResult \<Rightarrow> string" where
  "paymentClass c =
     (case paymentState c of
        Overpaid \<Rightarrow> ''payment-overpaid''
      | Done \<Rightarrow> ''payment-done''
      | Doing \<Rightarrow> ''payment-doing''
      | Waiting \<Rightarrow> ''payment-waiting'')"

subsection \<open>The coverage scopes of the cotisation source\<close>

record scope =
  sc_coverage :: string
  sc_id :: string

definition remaining_of :: "ModelsCotisationResult \<Rightarrow> number" where
  "remaining_of c = nullish (ctr_remaining c) (nullish (ctr_amount c) 0 - nullish (ctr_paid c) 0)"

definition in_scope :: "scope \<Rightarrow> ModelsCotisationResult \<Rightarrow> bool" where
  "in_scope sc c =
     (if sc_id sc \<noteq> [] \<and> ctr_id c \<noteq> Some (sc_id sc) then False
      else (let remaining = remaining_of c; paid = nullish (ctr_paid c) 0; v = sc_coverage sc in
        if v = ''received'' then paid > 0
        else if v = ''remaining'' then remaining > 0
        else if v = ''settled'' then remaining \<le> 0
        else if v = ''partial'' then paid > 0 \<and> remaining > 0
        else if v = ''unpaid'' then paid \<le> 0 \<and> remaining > 0
        else if v = ''overpaid'' then remaining < 0
        else True))"

record cotisation_source = "ModelsCotisationResult data_source" +
  cs_filter :: scope
  cs_budgetId :: string

definition setScope :: "string \<Rightarrow> string \<Rightarrow> cotisation_source \<Rightarrow> cotisation_source" where
  "setScope coverage i s = s\<lparr>cs_filter := \<lparr>sc_coverage = coverage, sc_id = i\<rparr>\<rparr>"

definition cs_allResults :: "cotisation_source \<Rightarrow> ModelsCotisationResult list" where
  "cs_allResults s = ds_results s"

definition cs_results :: "cotisation_source \<Rightarrow> ModelsCotisationResult list" where
  "cs_results s = filter (in_scope (cs_filter s)) (cs_allResults s)"

definition cs_fetch :: "cotisation_source \<Rightarrow> api_call" where
  "cs_fetch s = ListCotisations (cs_budgetId s)"

definition budgets_fetch :: api_call where
  "budgets_fetch = ListBudgets"

definition expenses_fetch :: "string \<Rightarrow> api_call" where
  "expenses_fetch budgetId = ListExpenses budgetId"

definition payments_fetch :: "string \<Rightarrow> string \<Rightarrow> api_call" where
  "payments_fetch budgetId cotisationId = ListPayments budgetId cotisationId"

subsection \<open>The row the server sends\<close>

text \<open>
  \<open>ListCotisations\<close> on a row as the database gives it: the amount called first, the sum of its
  adjustments, of its payments and of its refunds. The server computes with exact decimals and writes
  them out; \<open>rd\<close> is the number a client reads from such a text.
\<close>

record cotisation_sums =
  cm_amount :: number
  cm_adjustment :: number
  cm_paid :: number
  cm_refunded :: number

definition due :: "cotisation_sums \<Rightarrow> number" where
  "due m = cm_amount m + cm_adjustment m"

definition kept :: "cotisation_sums \<Rightarrow> number" where
  "kept m = cm_paid m - cm_refunded m"

definition server_state :: "cotisation_sums \<Rightarrow> int" where
  "server_state m =
     (if kept m > due m then 4
      else if kept m = due m then 1
      else if kept m + kept m \<ge> due m then 2
      else 3)"

definition server_row ::
  "(number \<Rightarrow> number) \<Rightarrow> cotisation_sums \<Rightarrow> ModelsCotisationResult \<Rightarrow> ModelsCotisationResult" where
  "server_row rd m c =
     c\<lparr>ctr_initial_amount := Some (rd (cm_amount m)), ctr_adjustment := Some (rd (cm_adjustment m)),
       ctr_amount := Some (rd (due m)), ctr_gross_paid := Some (rd (cm_paid m)),
       ctr_refunded := Some (rd (cm_refunded m)), ctr_paid := Some (rd (kept m)),
       ctr_remaining := Some (rd (due m - kept m)), ctr_payment_state := Some (server_state m)\<rparr>"

subsection \<open>The classes of the lots on the map\<close>

definition assign_class ::
  "(int \<Rightarrow> string option) \<Rightarrow> ModelsCotisationResult \<Rightarrow> (int \<Rightarrow> string option)" where
  "assign_class res c =
     res(nullish (Option.bind (ctr_unit c) unt_number) 0 \<mapsto> paymentClass c)"

definition unitClasses :: "ModelsCotisationResult list \<Rightarrow> (int \<Rightarrow> string option)" where
  "unitClasses cotisations = foldl assign_class Map.empty cotisations"

subsection \<open>Properties\<close>

definition called :: "ModelsCotisationResult \<Rightarrow> number" where
  "called c = nullish (ctr_amount c) 0"

definition received :: "ModelsCotisationResult \<Rightarrow> number" where
  "received c = nullish (ctr_paid c) 0"

lemmas pay_defs = paymentState_def in_scope_def remaining_of_def called_def received_def Let_def

lemma paymentState_amounts:
  assumes "state_of_code (ctr_payment_state c) = None"
  shows "paymentState c =
    (if received c > called c then Overpaid else if received c = called c then Done
     else if 2 * received c \<ge> called c then Doing else Waiting)"
  using assms by (simp add: pay_defs field_simps)

text \<open>
  What the state and the filters mean, in exact amounts: the state of a lot that paid \<open>got\<close> of the
  amount \<open>owed\<close>, and the lots that each coverage keeps.
\<close>

definition state_meant :: "number \<Rightarrow> number \<Rightarrow> PaymentState" where
  "state_meant owed got =
     (if got > owed then Overpaid else if got = owed then Done
      else if 2 * got \<ge> owed then Doing else Waiting)"

definition scope_meant :: "number \<Rightarrow> number \<Rightarrow> (string \<times> bool) list" where
  "scope_meant owed got =
     [(''received'', got > 0), (''remaining'', got < owed), (''settled'', owed \<le> got),
      (''partial'', 0 < got \<and> got < owed), (''unpaid'', got \<le> 0 \<and> got < owed),
      (''overpaid'', owed < got)]"

lemma server_scopes:
  assumes "\<And>x. sgn (rd x) = sgn x"
  shows "\<forall>(v, keeps) \<in> set (scope_meant (due m) (kept m)).
    in_scope \<lparr>sc_coverage = v, sc_id = []\<rparr> (server_row rd m c) = keeps"
proof -
  have "0 < rd x \<longleftrightarrow> 0 < x" "rd x < 0 \<longleftrightarrow> x < 0" for x
    using assms [of x] by (metis sgn_greater, metis sgn_less)
  then show ?thesis
    by (auto simp: scope_meant_def server_row_def in_scope_def remaining_of_def Let_def not_less [symmetric])
qed

text \<open>
  C7. The colour of a lot and the coverage filters say the same of its amounts. For a row as the
  server sends it, whatever its amounts and however its decimals are rounded when they are read, as
  long as no amount loses its sign, the state is the one of the exact amounts and each of the six
  filters keeps the row exactly when the exact amounts say so: overpaid the lots shown as overpaid,
  settled those shown as paid or overpaid, remaining the others, which partial and unpaid share out by
  whether anything was received. The same holds of a row without state and balance and of the amounts
  it gives, a missing one being zero.
\<close>
theorem payment_state_matches_scopes:
  assumes "\<And>x. sgn (rd x) = sgn x"
    and "state_of_code (ctr_payment_state c') = None" and "ctr_remaining c' = None"
  shows "paymentState (server_row rd m c) = state_meant (due m) (kept m) \<and>
    (\<forall>(v, keeps) \<in> set (scope_meant (due m) (kept m)).
       in_scope \<lparr>sc_coverage = v, sc_id = []\<rparr> (server_row rd m c) = keeps) \<and>
    paymentState c' = state_meant (called c') (received c') \<and>
    (\<forall>(v, keeps) \<in> set (scope_meant (called c') (received c')).
       in_scope \<lparr>sc_coverage = v, sc_id = []\<rparr> c' = keeps) \<and>
    (state_meant owed got = Overpaid \<longleftrightarrow> (''overpaid'', True) \<in> set (scope_meant owed got)) \<and>
    (state_meant owed got \<in> {Done, Overpaid} \<longleftrightarrow> (''settled'', True) \<in> set (scope_meant owed got)) \<and>
    (state_meant owed got \<in> {Doing, Waiting} \<longleftrightarrow>
       (''partial'', True) \<in> set (scope_meant owed got) \<or> (''unpaid'', True) \<in> set (scope_meant owed got))"
proof (intro conjI)
  show "paymentState (server_row rd m c) = state_meant (due m) (kept m)"
    by (auto simp: paymentState_def server_row_def server_state_def state_of_code_def state_meant_def)
  show "paymentState c' = state_meant (called c') (received c')"
    using assms(2) by (simp add: paymentState_amounts state_meant_def)
  show "\<forall>(v, keeps) \<in> set (scope_meant (called c') (received c')).
      in_scope \<lparr>sc_coverage = v, sc_id = []\<rparr> c' = keeps"
    using assms(3) by (auto simp: scope_meant_def pay_defs)
qed (rule server_scopes [OF assms(1)], auto simp: scope_meant_def state_meant_def)

definition half_paid :: ModelsCotisationResult where
  "half_paid = \<lparr>ctr_adjustment = None, ctr_amount = Some 100, ctr_budget = None,
     ctr_budget_id = None, ctr_created_at = None, ctr_gross_paid = None, ctr_id = Some ''c1'',
     ctr_initial_amount = None, ctr_paid = Some 50, ctr_payment_state = None,
     ctr_refunded = None, ctr_remaining = None, ctr_unit = None, ctr_unit_id = None,
     ctr_updated_at = None\<rparr>"

text \<open>A lot of 100 with an adjustment of 20, which paid 130 and was given back 10: it is settled.\<close>

definition refunded_sums :: cotisation_sums where
  "refunded_sums = \<lparr>cm_amount = 100, cm_adjustment = 20, cm_paid = 130, cm_refunded = 10\<rparr>"

theorem payment_state_matches_scopes_witness:
  "paymentState half_paid = Doing \<and> in_scope \<lparr>sc_coverage = ''partial'', sc_id = []\<rparr> half_paid \<and>
   paymentState (server_row (\<lambda>x. x) refunded_sums half_paid) = Done \<and>
   in_scope \<lparr>sc_coverage = ''settled'', sc_id = []\<rparr> (server_row (\<lambda>x. x) refunded_sums half_paid)"
proof -
  have h: "state_of_code (ctr_payment_state half_paid) = None" "ctr_remaining half_paid = None"
    by (simp_all add: half_paid_def state_of_code_def)
  have a: "called half_paid = 100" "received half_paid = 50" "due refunded_sums = 120" "kept refunded_sums = 120"
    by (simp_all add: half_paid_def called_def received_def nullish_def due_def kept_def refunded_sums_def)
  from payment_state_matches_scopes [OF refl h, of refunded_sums half_paid] show ?thesis
    by (simp add: a state_meant_def scope_meant_def)
qed

text \<open>
  The filters settled, partial and unpaid cut the lots of a budget into three: every lot is
  in exactly one of them, whatever the amounts, so their tables add up to the whole table.
\<close>
lemma coverage_partition:
  assumes "cs_filter s1 = \<lparr>sc_coverage = ''settled'', sc_id = []\<rparr>"
    and "cs_filter s2 = \<lparr>sc_coverage = ''partial'', sc_id = []\<rparr>"
    and "cs_filter s3 = \<lparr>sc_coverage = ''unpaid'', sc_id = []\<rparr>"
    and "cs_allResults s1 = rows" "cs_allResults s2 = rows" "cs_allResults s3 = rows"
  shows "mset (cs_results s1) + mset (cs_results s2) + mset (cs_results s3) = mset rows"
proof -
  have "filter_mset (\<lambda>c. remaining_of c \<le> 0) M + filter_mset (\<lambda>c. 0 < received c \<and> 0 < remaining_of c) M
      + filter_mset (\<lambda>c. received c \<le> 0 \<and> 0 < remaining_of c) M = M"
    for M :: "ModelsCotisationResult multiset"
    by (induction M) (auto simp: not_le not_less)
  from this [of "mset rows"] show ?thesis
    using assms by (simp add: cs_results_def in_scope_def Let_def received_def)
qed

lemma coverage_partition_witness:
  "mset (filter (in_scope \<lparr>sc_coverage = ''settled'', sc_id = []\<rparr>) [half_paid])
   + mset (filter (in_scope \<lparr>sc_coverage = ''partial'', sc_id = []\<rparr>) [half_paid])
   + mset (filter (in_scope \<lparr>sc_coverage = ''unpaid'', sc_id = []\<rparr>) [half_paid]) = {#half_paid#}"
proof -
  let ?s = "\<lambda>v. setScope v [] \<lparr>ds_results = [half_paid], ds_loading = False, ds_loaded = True,
     ds_error = None, ds_inflight = [], ds_next = 0, ds_closed = False,
     cs_filter = \<lparr>sc_coverage = [], sc_id = []\<rparr>, cs_budgetId = ''b1''\<rparr>"
  have "mset (cs_results (?s ''settled'')) + mset (cs_results (?s ''partial''))
      + mset (cs_results (?s ''unpaid'')) = mset [half_paid]"
    by (rule coverage_partition) (simp_all add: setScope_def cs_allResults_def)
  then show ?thesis by (simp add: cs_results_def cs_allResults_def setScope_def)
qed

lemma unitClasses_append:
  "unitClasses (cs @ [c]) = assign_class (unitClasses cs) c"
  by (simp add: unitClasses_def)

definition lot_number :: "ModelsCotisationResult \<Rightarrow> int" where
  "lot_number c = nullish (Option.bind (ctr_unit c) unt_number) 0"

text \<open>
  The map colours a lot by its last cotisation: a lot no cotisation names has no class, and
  any other lot has the class of the last cotisation with its number.
\<close>
lemma unitClasses_last:
  "unitClasses cs n =
     (case filter (\<lambda>c. lot_number c = n) cs of [] \<Rightarrow> None | ms \<Rightarrow> Some (paymentClass (last ms)))"
proof (induction cs rule: rev_induct)
  case Nil
  then show ?case by (simp add: unitClasses_def)
next
  case (snoc c cs)
  then show ?case
    by (cases "filter (\<lambda>c. lot_number c = n) cs")
       (auto simp: unitClasses_append assign_class_def lot_number_def [symmetric])
qed

end
