(* ===== verification/Ui.thy ===== *)
theory Ui
  imports Api_Service
begin

text \<open>
  What the components share: the effects of a handler besides its new state
  (\<open>shared/services/notifications.service.ts\<close> and the calls of the API service), and the
  confirmation dialog (\<open>shared/components/confirm-dialog\<close>).

  Each component has its own datatype of messages, one constructor per text of the source; the
  arguments of a constructor are what the text interpolates.
\<close>

subsection \<open>Effects\<close>

text \<open>
  \<open>Send\<close>: a call of the API service is subscribed. \<open>Info\<close>: \<open>showDialog\<close>. \<open>Failure\<close>: the
  error handler of the API service with a title. \<open>Ask\<close>: \<open>showConfirm\<close>. \<open>Form\<close>: \<open>showForm\<close>.
  \<open>CloseDialog\<close>: the dialog of the component is closed with a result. \<open>Emit\<close>: an output event.
\<close>

datatype 'm ui_effect =
    Send api_call
  | Info 'm
  | Failure 'm api_error
  | Ask 'm
  | Form 'm
  | CloseDialog bool
  | Emit 'm
  | NavigateTo "string list"
  | QueryParams "(string \<times> string option) list"

fun send_of :: "'m ui_effect \<Rightarrow> api_call option" where
  "send_of (Send c) = Some c"
| "send_of _ = None"

definition sends :: "'m ui_effect list \<Rightarrow> api_call list" where
  "sends es = List.map_filter send_of es"

lemma sends_simps [simp]:
  "sends [] = []"
  "sends (Send c # es) = c # sends es"
  "sends (Info m # es) = sends es"
  "sends (Failure m e # es) = sends es"
  "sends (Ask m # es) = sends es"
  "sends (Form m # es) = sends es"
  "sends (CloseDialog b # es) = sends es"
  "sends (Emit m # es) = sends es"
  "sends (NavigateTo p # es) = sends es"
  "sends (QueryParams q # es) = sends es"
  "sends (es @ es') = sends es @ sends es'"
  by (simp_all add: sends_def map_filter_def)

subsection \<open>The confirmation dialog\<close>

text \<open>
  A dialog with a \<open>force\<close> box closes with a pair, one without with a single flag. The box is the
  state of the checkbox when the dialog shows one.
\<close>

datatype confirm_result = Flag bool | FlagForce bool bool

record confirm_dialog =
  cd_class :: "string option"
  cd_force :: "bool option"

definition confirm_class :: "confirm_dialog \<Rightarrow> string" where
  "confirm_class d = nullish (cd_class d) ''info''"

definition confirm_cancel :: "confirm_dialog \<Rightarrow> confirm_result" where
  "confirm_cancel d = (if truthy_bool (cd_force d) then FlagForce False False else Flag False)"

definition confirm_confirm :: "confirm_dialog \<Rightarrow> bool \<Rightarrow> confirm_result" where
  "confirm_confirm d checked =
     (if truthy_bool (cd_force d) then FlagForce True checked else Flag True)"

text \<open>
  What a subscriber that reads \<open>if (confirm)\<close> sees: an array is truthy whatever it holds.
\<close>

fun confirm_truthy :: "confirm_result \<Rightarrow> bool" where
  "confirm_truthy (Flag b) = b"
| "confirm_truthy (FlagForce _ _) = True"

lemma plain_dialog_answers:
  "cd_force d = None \<Longrightarrow> \<not> confirm_truthy (confirm_cancel d) \<and> confirm_truthy (confirm_confirm d b)"
  by (simp add: confirm_cancel_def confirm_confirm_def truthy_bool_def)

end
