(* ===== verification/Js_Text.thy ===== *)
theory Js_Text
  imports Prelude "HOL-Library.List_Lexorder" "HOL-Library.Char_ord"
begin

text \<open>
  The string functions of the language that the components share: case, white space, the order
  of code units. A string is a list of the first 256 code points, on which these functions are
  exact; the locale-aware order of \<open>localeCompare\<close> is a parameter where it is used.
\<close>

definition lower_char :: "char \<Rightarrow> char" where
  "lower_char c =
     (let n = of_char c :: nat in
      if (65 \<le> n \<and> n \<le> 90) \<or> (192 \<le> n \<and> n \<le> 222 \<and> n \<noteq> 215) then char_of (n + 32) else c)"

definition js_lower :: "string \<Rightarrow> string" where
  "js_lower s = map lower_char s"

definition is_space :: "char \<Rightarrow> bool" where
  "is_space c = ((of_char c :: nat) \<in> {9, 10, 11, 12, 13, 32, 160})"

definition js_trim :: "string \<Rightarrow> string" where
  "js_trim s = rev (dropWhile is_space (rev (dropWhile is_space s)))"

lemma lower_char_idem: "lower_char (lower_char c) = lower_char c"
proof -
  define n :: nat where "n = of_char c"
  then have "(of_char (char_of (n + 32) :: char) :: nat) = (n + 32) mod 256" by simp
  moreover have "n < 256" using nat_of_char_less_256 [of c] by (simp add: n_def)
  ultimately show ?thesis
    by (auto simp: lower_char_def Let_def n_def [symmetric])
qed

lemma js_lower_idem [simp]: "js_lower (js_lower s) = js_lower s"
  by (simp add: js_lower_def lower_char_idem)

lemma js_lower_simps [simp]:
  "js_lower [] = []"
  "js_lower (s @ t) = js_lower s @ js_lower t"
  by (simp_all add: js_lower_def)

lemma dropWhile_idem: "dropWhile P (dropWhile P xs) = dropWhile P xs"
  by (induction xs) auto

lemma js_trim_ends:
  assumes "js_trim s \<noteq> []"
  shows "\<not> is_space (hd (js_trim s)) \<and> \<not> is_space (last (js_trim s))"
proof
  let ?u = "dropWhile is_space s"
  obtain zs where zs: "?u = js_trim s @ zs" "\<forall>c \<in> set zs. is_space c"
  proof
    show "?u = js_trim s @ rev (takeWhile is_space (rev ?u))"
      by (metis js_trim_def rev_append rev_rev_ident takeWhile_dropWhile_id)
    show "\<forall>c \<in> set (rev (takeWhile is_space (rev ?u))). is_space c"
      by (auto dest: set_takeWhileD)
  qed
  with assms have "hd (js_trim s) = hd ?u" by (metis hd_append2)
  with zs assms show "\<not> is_space (hd (js_trim s))" by (metis append_is_Nil_conv hd_dropWhile)
  show "\<not> is_space (last (js_trim s))"
    using assms unfolding js_trim_def by (metis hd_dropWhile last_rev rev_is_Nil_conv)
qed

lemma js_trim_empty_iff: "js_trim s = [] \<longleftrightarrow> (\<forall>c \<in> set s. is_space c)"
proof -
  have "(\<forall>c \<in> set (dropWhile is_space s). is_space c) \<longleftrightarrow> (\<forall>c \<in> set s. is_space c)"
    by (induction s) auto
  then show ?thesis by (simp add: js_trim_def dropWhile_eq_Nil_conv)
qed

text \<open>\<open>a.sort()[0]\<close> on strings some of which are \<open>undefined\<close>: those come last.\<close>

definition first_sorted :: "string option list \<Rightarrow> string option" where
  "first_sorted xs =
     (case sort (List.map_filter id xs) of [] \<Rightarrow> None | x # _ \<Rightarrow> Some x)"

text \<open>\<open>a < b\<close> when one may be \<open>undefined\<close>.\<close>

fun js_less :: "string option \<Rightarrow> string option \<Rightarrow> bool" where
  "js_less (Some a) (Some b) = (a < b)"
| "js_less _ _ = False"

end
