(* ===== verification/Budget_Details.thy ===== *)
theory Budget_Details
  imports Payments Ui Auth Js_Text
begin

text \<open>
  \<open>budgets/components/budget-details\<close>: the page of a budget. The budget is loaded through
  \<open>switchMap\<close> on the route and the refresh subject, so it interprets the locale
  \<open>latest_source\<close>; the sources of its tables are rebuilt with each value of the budget; an
  expense is deleted behind a confirmation whose guard is read again when it closes.
\<close>

subsection \<open>State\<close>

record budget_details =
  bd_loading :: bool
  bd_error :: bool
  bd_coverage :: string
  bd_cotisationFilter :: string
  bd_budget :: "ModelsBudgetResult option"
  bd_expenses :: "string option"
  bd_cotisations :: "cotisation_source option"
  bd_params :: "string \<Rightarrow> string option"
  bd_active :: "nat option"
  bd_next :: nat

datatype details_message =
    DeleteExpenseQuestion "string option"
  | ExpenseDeleted "string option"
  | ExpenseNotDeleted
  | ExpenseForm "string option" "ModelsExpense option"
  | CotisationDialog "string option" "string option" "int option"

definition new_details :: budget_details where
  "new_details = \<lparr>bd_loading = True, bd_error = False, bd_coverage = [],
     bd_cotisationFilter = [], bd_budget = None, bd_expenses = None, bd_cotisations = None,
     bd_params = Map.empty, bd_active = None, bd_next = 0\<rparr>"

definition coverageLabels :: "string list" where
  "coverageLabels =
     [''received'', ''remaining'', ''settled'', ''partial'', ''unpaid'', ''overpaid'']"

definition new_cotisation_source :: "string \<Rightarrow> cotisation_source" where
  "new_cotisation_source i = data_source.extend new_source
     (cotisation_source.fields \<lparr>sc_coverage = [], sc_id = []\<rparr> i)"

subsection \<open>The budget and its sources\<close>

definition expenses_of :: "ModelsBudgetResult option \<Rightarrow> string option" where
  "expenses_of budget = Option.bind budget bur_id"

definition is_draft :: "ModelsBudgetResult option \<Rightarrow> bool" where
  "is_draft budget = (case budget of None \<Rightarrow> False | Some b \<Rightarrow> truthy_bool (bur_draft b))"

definition cotisations_of :: "ModelsBudgetResult option \<Rightarrow> cotisation_source option" where
  "cotisations_of budget =
     (case Option.bind budget bur_id of
        None \<Rightarrow> None
      | Some i \<Rightarrow> if is_draft budget then None else Some (new_cotisation_source i))"

text \<open>
  A value of the budget subject: the sources follow, and the scope of the URL is set on the new
  cotisation source.
\<close>

definition budget_next :: "ModelsBudgetResult option \<Rightarrow> budget_details \<Rightarrow> budget_details" where
  "budget_next budget s =
     s\<lparr>bd_budget := budget, bd_expenses := expenses_of budget,
       bd_cotisations := map_option (setScope (bd_coverage s) (bd_cotisationFilter s))
         (cotisations_of budget)\<rparr>"

definition queryParams_next ::
  "(string \<Rightarrow> string option) \<Rightarrow> budget_details \<Rightarrow> budget_details" where
  "queryParams_next p s =
     (let scope = nullish (p ''coverage'') [];
          coverage = (if scope \<in> set coverageLabels then scope else []);
          cotisation = nullish (p ''cotisation'') []
      in s\<lparr>bd_coverage := coverage, bd_cotisationFilter := cotisation,
           bd_cotisations := map_option (setScope coverage cotisation) (bd_cotisations s)\<rparr>)"

definition details_reload :: "budget_details \<Rightarrow> budget_details" where
  "details_reload s =
     (budget_next None (s\<lparr>bd_loading := True, bd_error := False\<rparr>))
       \<lparr>bd_active := Some (bd_next s), bd_next := Suc (bd_next s)\<rparr>"

text \<open>
  The request of the route's budget. The route has an \<open>id\<close>; without one, writing the address of the
  request throws, and nothing is sent.
\<close>

definition details_request :: "budget_details \<Rightarrow> details_message ui_effect list" where
  "details_request s = (case bd_params s ''id'' of Some i \<Rightarrow> [Send (GetBudget i)] | None \<Rightarrow> [])"

definition params_next ::
  "(string \<Rightarrow> string option) \<Rightarrow> budget_details \<Rightarrow> budget_details \<times> details_message ui_effect list" where
  "params_next p s =
     (let s = details_reload (s\<lparr>bd_params := p\<rparr>) in (s, details_request s))"

definition refreshBudget ::
  "budget_details \<Rightarrow> budget_details \<times> details_message ui_effect list" where
  "refreshBudget s = (let s = details_reload s in (s, details_request s))"

definition refreshExpenses ::
  "budget_details \<Rightarrow> budget_details \<times> details_message ui_effect list" where
  "refreshExpenses s = refreshBudget s"

definition budget_answer ::
  "api_error + ModelsBudgetResult option \<Rightarrow> budget_details \<Rightarrow> budget_details" where
  "budget_answer r s =
     (case r of
        Inl _ \<Rightarrow> budget_next None (s\<lparr>bd_error := True, bd_loading := False\<rparr>)
      | Inr budget \<Rightarrow> budget_next budget (s\<lparr>bd_loading := False\<rparr>))"

definition details_deliver ::
  "budget_details \<Rightarrow> nat \<Rightarrow> api_error + ModelsBudgetResult option \<Rightarrow> budget_details" where
  "details_deliver s t r =
     (if bd_active s = Some t then budget_answer r (s\<lparr>bd_active := None\<rparr>) else s)"

definition filterCoverage :: "string \<Rightarrow> details_message ui_effect list" where
  "filterCoverage coverage =
     [QueryParams [(''coverage'', if coverage = [] then None else Some coverage),
                   (''cotisation'', None)]]"

definition details_unitClasses :: "budget_details \<Rightarrow> int \<Rightarrow> string option" where
  "details_unitClasses s =
     unitClasses (case bd_cotisations s of Some ds \<Rightarrow> cs_allResults ds | None \<Rightarrow> ds_results new_source)"

subsection \<open>Rights and dialogs\<close>

definition canCreateExpense :: "auth \<Rightarrow> budget_details \<Rightarrow> bool" where
  "canCreateExpense a s = (is_draft (bd_budget s) \<and> allowed ''budget.CreateExpense'' a)"

definition canEditExpense :: "auth \<Rightarrow> budget_details \<Rightarrow> bool" where
  "canEditExpense a s = (is_draft (bd_budget s) \<and> allowed ''budget.UpdateExpense'' a)"

definition canDeleteExpense :: "auth \<Rightarrow> budget_details \<Rightarrow> bool" where
  "canDeleteExpense a s = (is_draft (bd_budget s) \<and> allowed ''budget.DeleteExpense'' a)"

definition editExpense ::
  "ModelsExpense option \<Rightarrow> budget_details \<Rightarrow> details_message ui_effect list" where
  "editExpense expense s = [Form (ExpenseForm (Option.bind (bd_budget s) bur_id) expense)]"

definition editExpense_closed ::
  "bool \<Rightarrow> budget_details \<Rightarrow> budget_details \<times> details_message ui_effect list" where
  "editExpense_closed result s = (if result then refreshExpenses s else (s, []))"

text \<open>
  \<open>deleteExpense\<close> keeps the budget it was called on in its closure; \<open>Some budget\<close> is the
  closure of an opened dialog. The subscriber reads the subject again.
\<close>

definition deleteExpense ::
  "ModelsExpense \<Rightarrow> budget_details \<Rightarrow> ModelsBudgetResult option \<times> details_message ui_effect list" where
  "deleteExpense expense s =
     (let budget = bd_budget s in
      if \<not> truthy_str (Option.bind budget bur_id) \<or> \<not> is_draft budget then (None, [])
      else (budget, [Ask (DeleteExpenseQuestion (exp_label expense))]))"

definition deleteExpense_closed ::
  "ModelsBudgetResult \<Rightarrow> ModelsExpense \<Rightarrow> bool \<Rightarrow> budget_details \<Rightarrow> details_message ui_effect list" where
  "deleteExpense_closed budget expense confirm s =
     (if confirm \<and> Option.bind (bd_budget s) bur_id = bur_id budget \<and> is_draft (bd_budget s)
      then [Send (DeleteExpense (nullish (bur_id budget) ''undefined'')
                    (nullish (exp_id expense) ''undefined''))]
      else [])"

definition deleteExpense_next ::
  "ModelsExpense \<Rightarrow> budget_details \<Rightarrow> budget_details \<times> details_message ui_effect list" where
  "deleteExpense_next expense s =
     (let (s, out) = refreshExpenses s in (s, out @ [Info (ExpenseDeleted (exp_label expense))]))"

definition deleteExpense_error :: "api_error \<Rightarrow> details_message ui_effect list" where
  "deleteExpense_error e = [Failure ExpenseNotDeleted e]"

definition cotisationsRowActions :: "ModelsBudgetResult option \<Rightarrow> string list" where
  "cotisationsRowActions budget = (if is_draft budget then [] else [''list''])"

definition cotisation_list ::
  "ModelsCotisationResult \<Rightarrow> budget_details \<Rightarrow> details_message ui_effect list" where
  "cotisation_list row s =
     [Form (CotisationDialog (Option.bind (bd_budget s) bur_id) (ctr_id row)
        (Option.bind (ctr_unit row) unt_number))]"

definition cotisation_list_closed ::
  "budget_details \<Rightarrow> budget_details \<times> details_message ui_effect list" where
  "cotisation_list_closed s = refreshBudget s"

definition refreshCotisations :: "budget_details \<Rightarrow> budget_details \<times> details_message ui_effect list" where
  "refreshCotisations s =
     (case bd_cotisations s of
        None \<Rightarrow> (s, [])
      | Some ds \<Rightarrow> (s\<lparr>bd_cotisations := Some (ds_load ds)\<rparr>, [Send (cs_fetch ds)]))"

subsection \<open>The column of the members\<close>

definition member_names :: "ModelsCotisationResult \<Rightarrow> (string option \<times> string option) list" where
  "member_names row =
     map (\<lambda>m. (mem_first_name m, mem_last_name m))
       (nullish (Option.bind (ctr_unit row) unt_members) [])"

text \<open>A name that is missing makes the filter throw: \<open>None\<close>.\<close>

fun members_match :: "string \<Rightarrow> (string option \<times> string option) list \<Rightarrow> bool option" where
  "members_match pattern [] = Some False"
| "members_match pattern ((first_name, last_name) # ms) =
     (case first_name of
        None \<Rightarrow> None
      | Some f \<Rightarrow>
          if str_includes (js_lower f) pattern then Some True
          else (case last_name of
             None \<Rightarrow> None
           | Some l \<Rightarrow>
               if str_includes (js_lower l) pattern then Some True
               else members_match pattern ms))"

definition members_filterFunc ::
  "(string option \<times> string option) list \<Rightarrow> string \<Rightarrow> bool option" where
  "members_filterFunc members pattern =
     (if pattern = [] then Some True else members_match (js_lower pattern) members)"

definition members_render :: "(string option \<times> string option) list \<Rightarrow> string" where
  "members_render v =
     join_str '', '' (map (\<lambda>(f, l). nullish f ''undefined'' @ '' '' @ nullish l ''undefined'') v)"

definition members_sortFunc ::
  "(string option \<times> string option) list \<Rightarrow> (string option \<times> string option) list \<Rightarrow> int" where
  "members_sortFunc a b =
     (let x = first_sorted (map snd a); y = first_sorted (map snd b) in
      if x = y then 0 else if js_less x y then 1 else - 1)"

subsection \<open>The latest budget wins\<close>

lemmas details_defs = details_reload_def details_deliver_def budget_answer_def budget_next_def
  params_next_def refreshBudget_def refreshExpenses_def queryParams_next_def
  refreshCotisations_def details_request_def Let_def

definition details_view :: "budget_details \<Rightarrow> ModelsBudgetResult option \<times> bool \<times> bool" where
  "details_view s = (bd_budget s, bd_error s, bd_loading s)"

definition details_rendered ::
  "api_error + ModelsBudgetResult option \<Rightarrow> ModelsBudgetResult option \<times> bool \<times> bool" where
  "details_rendered r = (case r of Inl _ \<Rightarrow> (None, True, False) | Inr b \<Rightarrow> (b, False, False))"

text \<open>While a request is in flight there is no error on the page.\<close>

definition details_inv :: "budget_details \<Rightarrow> bool" where
  "details_inv s \<longleftrightarrow> (bd_active s \<noteq> None \<longrightarrow> bd_loading s \<and> \<not> bd_error s \<and> bd_budget s = None)"

interpretation details:
  latest_source details_reload details_deliver bd_active bd_next details_view details_rendered
    details_inv
proof unfold_locales
  fix s :: budget_details and t and r :: "api_error + ModelsBudgetResult option"
  show "details_inv (details_reload s)" by (simp add: details_inv_def details_defs)
  show "bd_active (details_reload s) = Some (bd_next s)" by (simp add: details_defs)
  show "bd_next (details_reload s) = Suc (bd_next s)" by (simp add: details_defs)
  assume inv: "details_inv s"
  then show "details_inv (details_deliver s t r)"
    by (auto simp: details_inv_def details_defs split: sum.split)
  show "details_deliver s t r = s" if "bd_active s \<noteq> Some t"
    using that by (simp add: details_deliver_def)
  assume act: "bd_active s = Some t"
  then show "bd_active (details_deliver s t r) = None"
    by (simp add: details_defs split: sum.split)
  from act inv show "details_view (details_deliver s t r) = details_rendered r"
    by (simp add: details_inv_def details_view_def details_rendered_def details_defs split: sum.split)
qed

subsection \<open>Runs of the page\<close>

text \<open>
  A run of the page under the query parameters \<open>p\<close> of its URL: the last ones the router gave it,
  none before the first.
\<close>

inductive details_run :: "(string \<Rightarrow> string option) \<Rightarrow> budget_details \<Rightarrow> bool" where
  start: "details_run Map.empty new_details"
| queryParams: "details_run p s \<Longrightarrow> details_run q (queryParams_next q s)"
| params: "details_run p s \<Longrightarrow> details_run p (fst (params_next route s))"
| refresh: "details_run p s \<Longrightarrow> details_run p (fst (refreshBudget s))"
| answer: "details_run p s \<Longrightarrow> details_run p (details_deliver s t r)"
| cotisations: "details_run p s \<Longrightarrow> details_run p (fst (refreshCotisations s))"
| rows: "details_run p s \<Longrightarrow> bd_cotisations s = Some ds \<Longrightarrow>
    details_run p (s\<lparr>bd_cotisations := Some (ds_deliver ds t rows)\<rparr>)"

text \<open>The scope a URL asks for: a coverage the page knows, and one call for funds or all of them.\<close>

definition url_coverage :: "(string \<Rightarrow> string option) \<Rightarrow> string" where
  "url_coverage p =
     (case p ''coverage'' of None \<Rightarrow> [] | Some c \<Rightarrow> if c \<in> set coverageLabels then c else [])"

definition url_cotisation :: "(string \<Rightarrow> string option) \<Rightarrow> string" where
  "url_cotisation p = (case p ''cotisation'' of None \<Rightarrow> [] | Some i \<Rightarrow> i)"

definition sources_inv :: "budget_details \<Rightarrow> bool" where
  "sources_inv s \<longleftrightarrow> bd_expenses s = expenses_of (bd_budget s) \<and>
     bd_coverage s \<in> set ([] # coverageLabels) \<and>
     (case bd_cotisations s of
        None \<Rightarrow> cotisations_of (bd_budget s) = None
      | Some cs \<Rightarrow> \<not> is_draft (bd_budget s) \<and>
          Option.bind (bd_budget s) bur_id = Some (cs_budgetId cs) \<and>
          cs_filter cs = \<lparr>sc_coverage = bd_coverage s, sc_id = bd_cotisationFilter s\<rparr>)"

lemma sources_inv_next:
  "bd_coverage s \<in> set ([] # coverageLabels) \<Longrightarrow> sources_inv (budget_next b s)"
  by (auto simp: sources_inv_def budget_next_def cotisations_of_def new_cotisation_source_def
      setScope_def cotisation_source.defs data_source.defs new_source_def split: option.split)

lemma sources_inv_reload:
  assumes "bd_coverage s \<in> set ([] # coverageLabels)"
  shows "sources_inv (details_reload s)"
proof -
  have "sources_inv (x\<lparr>bd_active := a, bd_next := n\<rparr>) = sources_inv x" for x :: budget_details and a n
    by (simp add: sources_inv_def split: option.split)
  with assms show ?thesis by (simp add: details_reload_def sources_inv_next)
qed

lemma source_kept [simp]:
  "cs_filter (ds_load ds) = cs_filter ds" "cs_budgetId (ds_load ds) = cs_budgetId ds"
  "cs_filter (ds_deliver ds t r) = cs_filter ds" "cs_budgetId (ds_deliver ds t r) = cs_budgetId ds"
  by (auto simp: ds_defs split: sum.split)

definition follows_url :: "(string \<Rightarrow> string option) \<Rightarrow> budget_details \<Rightarrow> bool" where
  "follows_url p s \<longleftrightarrow> bd_coverage s = url_coverage p \<and> bd_cotisationFilter s = url_cotisation p"

lemma scope_kept [simp]:
  "follows_url p (details_reload s) = follows_url p s" "follows_url p (budget_next b s) = follows_url p s"
  "follows_url p (s\<lparr>bd_cotisations := cs\<rparr>) = follows_url p s"
  "follows_url p (s\<lparr>bd_params := q\<rparr>) = follows_url p s"
  "follows_url p (fst (refreshCotisations s)) = follows_url p s"
  "follows_url p (details_deliver s t r) = follows_url p s"
  by (simp_all add: follows_url_def details_defs split: option.split sum.split)

lemma follows_url_coverage: "follows_url p s \<Longrightarrow> bd_coverage s \<in> set ([] # coverageLabels)"
  by (auto simp: follows_url_def url_coverage_def split: option.split)

lemma queryParams_url: "follows_url q (queryParams_next q s)"
  by (simp add: follows_url_def queryParams_next_def url_coverage_def url_cotisation_def nullish_def
      Let_def split: option.split)

lemma run_sources_inv: "details_run p s \<Longrightarrow> follows_url p s \<and> sources_inv s"
proof (induction rule: details_run.induct)
  case start
  show ?case
    by (simp add: new_details_def sources_inv_def expenses_of_def cotisations_of_def follows_url_def
        url_coverage_def url_cotisation_def)
next
  case (queryParams p s q)
  then have "sources_inv (queryParams_next q s)"
    by (auto simp: sources_inv_def queryParams_next_def setScope_def Let_def split: option.splits)
  then show ?case by (simp add: queryParams_url)
next
  case (params p s route)
  then have "bd_coverage s \<in> set ([] # coverageLabels)" by (blast intro: follows_url_coverage)
  with params show ?case by (simp add: params_next_def Let_def sources_inv_reload)
next
  case (refresh p s)
  then have "bd_coverage s \<in> set ([] # coverageLabels)" by (blast intro: follows_url_coverage)
  with refresh show ?case by (simp add: refreshBudget_def Let_def sources_inv_reload)
next
  case (answer p s t r)
  then have "bd_coverage s \<in> set ([] # coverageLabels)" by (blast intro: follows_url_coverage)
  with answer have "sources_inv (details_deliver s t r)"
    by (cases r) (simp_all add: details_deliver_def budget_answer_def sources_inv_next)
  with answer show ?case by simp
next
  case (cotisations p s)
  then show ?case
    by (auto simp: sources_inv_def refreshCotisations_def split: option.splits)
next
  case (rows p s ds t rs)
  then show ?case by (simp add: sources_inv_def)
qed

subsection \<open>Properties\<close>

text \<open>
  C13. The page shows the budget of the latest route or refresh: whatever answers to earlier
  requests arrive late, once the answer to the last request is delivered the budget, the error
  flag and the loading flag are those of that answer.
\<close>
theorem details_latest_wins:
  assumes "details_inv s" and "\<forall>(t, r) \<in> set late. t \<noteq> bd_next s"
  shows "details_view (details_deliver
      (fold (\<lambda>(t, r) s. details_deliver s t r) late (fst (refreshBudget s))) (bd_next s) r) =
    details_rendered r"
  using details.latest_wins [OF assms] by (simp add: refreshBudget_def Let_def)

definition sample_budget :: ModelsBudgetResult where
  "sample_budget = \<lparr>bur_adjustment = None, bur_amount = Some 1200, bur_called = None,
     bur_created_at = None, bur_draft = Some False, bur_gross_paid = None, bur_id = Some ''b1'',
     bur_label = Some ''2024'', bur_paid = None, bur_preview = None, bur_refunded = None,
     bur_updated_at = None\<rparr>"

theorem details_latest_wins_witness:
  "details_view (details_deliver
     (fold (\<lambda>(t, r) s. details_deliver s t r) [(0, Inr None)]
       (fst (refreshBudget (fst (params_next [''id'' \<mapsto> ''b1''] new_details))))) 1
     (Inr (Some sample_budget))) = (Some sample_budget, False, False)"
proof -
  let ?s = "fst (params_next [''id'' \<mapsto> ''b1''] new_details)"
  have inv: "details_inv ?s" by (simp add: details_inv_def details_defs)
  have n: "bd_next ?s = 1" by (simp add: details_defs new_details_def)
  then have late: "\<forall>(t, r) \<in> set [(0, Inr None :: api_error + ModelsBudgetResult option)].
      t \<noteq> bd_next ?s" by simp
  from details_latest_wins [OF inv late, where r = "Inr (Some sample_budget)"] n
  show ?thesis by (simp add: details_rendered_def)
qed

text \<open>
  C14. The calls for funds on the page are those the URL asks for. In every run of the page, whatever
  the order of its URLs, its loads and their answers, the cotisation source, when there is one,
  belongs to the published budget on display, and the rows it shows are those of its budget, in their
  order, that the coverage of the current URL admits (every row when the URL has no coverage the page
  knows), and only the call for funds the URL names when it names one; the page shows that coverage
  and that call as its scope, and without a source no lot has a class.
\<close>
theorem details_scope_follows_url:
  assumes "details_run p s"
  shows "(case bd_cotisations s of
      None \<Rightarrow> details_unitClasses s = Map.empty
    | Some cs \<Rightarrow>
        (\<exists>b. bd_budget s = Some b \<and> bur_id b = Some (cs_budgetId cs) \<and>
           \<not> truthy_bool (bur_draft b)) \<and>
        cs_results cs =
          filter (\<lambda>c. (url_cotisation p = [] \<or> ctr_id c = Some (url_cotisation p)) \<and>
             in_scope \<lparr>sc_coverage = url_coverage p, sc_id = []\<rparr> c) (cs_allResults cs)) \<and>
    bd_coverage s = url_coverage p \<and> bd_cotisationFilter s = url_cotisation p"
proof -
  have inv: "follows_url p s" "sources_inv s" using run_sources_inv [OF assms] by blast+
  have "filter (in_scope \<lparr>sc_coverage = v, sc_id = i\<rparr>) rows =
      filter (\<lambda>c. (i = [] \<or> ctr_id c = Some i) \<and> in_scope \<lparr>sc_coverage = v, sc_id = []\<rparr> c) rows"
    for v i rows
    by (rule filter_cong [OF refl]) (auto simp: in_scope_def)
  note scope = this [of "url_coverage p" "url_cotisation p"]
  show ?thesis
  proof (cases "bd_cotisations s")
    case None
    with inv show ?thesis
      by (simp add: details_unitClasses_def unitClasses_def new_source_def follows_url_def)
  next
    case (Some cs)
    then have "cs_filter cs = \<lparr>sc_coverage = url_coverage p, sc_id = url_cotisation p\<rparr>"
      using inv by (simp add: sources_inv_def follows_url_def)
    then have "cs_results cs = filter (\<lambda>c. (url_cotisation p = [] \<or> ctr_id c = Some (url_cotisation p)) \<and>
        in_scope \<lparr>sc_coverage = url_coverage p, sc_id = []\<rparr> c) (cs_allResults cs)"
      unfolding cs_results_def by (simp only: scope)
    moreover have "\<exists>b. bd_budget s = Some b \<and> bur_id b = Some (cs_budgetId cs) \<and> \<not> truthy_bool (bur_draft b)"
      using Some inv(2) by (auto simp: sources_inv_def is_draft_def split: option.splits)
    ultimately show ?thesis using Some inv(1) by (simp add: follows_url_def)
  qed
qed

definition unpaid_url :: "string \<Rightarrow> string option" where
  "unpaid_url = [''coverage'' \<mapsto> ''unpaid'', ''cotisation'' \<mapsto> ''c1'']"

definition unpaid_page :: budget_details where
  "unpaid_page = queryParams_next unpaid_url
     (details_deliver (fst (params_next [''id'' \<mapsto> ''b1''] new_details)) 0 (Inr (Some sample_budget)))"

theorem details_scope_follows_url_witness:
  "bd_cotisationFilter unpaid_page = ''c1'' \<and>
   (case bd_cotisations unpaid_page of
      None \<Rightarrow> False
    | Some cs \<Rightarrow> cs_results cs =
        filter (\<lambda>c. (''c1'' = [] \<or> ctr_id c = Some ''c1'') \<and>
          in_scope \<lparr>sc_coverage = ''unpaid'', sc_id = []\<rparr> c) (cs_allResults cs))"
proof -
  have r: "details_run unpaid_url unpaid_page"
    unfolding unpaid_page_def
    by (rule details_run.queryParams, rule details_run.answer, rule details_run.params,
        rule details_run.start)
  have "bd_cotisations unpaid_page \<noteq> None"
    by (simp add: unpaid_page_def details_defs new_details_def cotisations_of_def sample_budget_def
        is_draft_def truthy_bool_def)
  moreover have "url_coverage unpaid_url = ''unpaid''" "url_cotisation unpaid_url = ''c1''"
    by (simp_all add: url_coverage_def url_cotisation_def unpaid_url_def coverageLabels_def)
  ultimately show ?thesis using details_scope_follows_url [OF r] by (auto split: option.splits)
qed

text \<open>
  C15. An expense is only deleted from a draft: when the page sends the deletion after its
  confirmation, the dialog was confirmed, the budget it was opened on had an identifier and was a
  draft then, and the budget on display when the dialog closes is the same one and is a draft
  still; any state \<open>s'\<close> the page may be in then is covered.
\<close>
theorem expense_deleted_only_in_draft:
  assumes "deleteExpense e s = (Some b, out)"
    and "Send (DeleteExpense bid eid) \<in> set (deleteExpense_closed b e confirm s')"
  shows "confirm \<and> bd_budget s = Some b \<and> bur_id b = Some bid \<and> bid \<noteq> [] \<and> truthy_bool (bur_draft b) \<and>
    (\<exists>b'. bd_budget s' = Some b' \<and> bur_id b' = Some bid \<and> truthy_bool (bur_draft b')) \<and>
    eid = nullish (exp_id e) ''undefined''"
proof -
  from assms(1) have b: "bd_budget s = Some b" "truthy_str (bur_id b)" "truthy_bool (bur_draft b)"
    by (auto simp: deleteExpense_def is_draft_def Let_def split: if_splits option.splits)
  then obtain i where i: "bur_id b = Some i" "i \<noteq> []"
    by (cases "bur_id b") (auto simp: truthy_str_def)
  with assms(2) b show ?thesis
    by (auto simp: deleteExpense_closed_def is_draft_def nullish_def split: if_splits option.splits)
qed

definition draft_budget :: ModelsBudgetResult where
  "draft_budget = sample_budget\<lparr>bur_draft := Some True\<rparr>"

definition sample_expense :: ModelsExpense where
  "sample_expense = \<lparr>exp_amount = Some 10, exp_budget = None, exp_budget_id = Some ''b1'',
     exp_created_at = None, exp_id = Some ''e1'', exp_label = Some ''Eau'', exp_updated_at = None\<rparr>"

theorem expense_deleted_only_in_draft_witness:
  "let s = new_details\<lparr>bd_budget := Some draft_budget\<rparr> in
   Send (DeleteExpense ''b1'' ''e1'') \<in> set (deleteExpense_closed draft_budget sample_expense True s) \<and>
   (\<exists>b'. bd_budget s = Some b' \<and> bur_id b' = Some ''b1'' \<and> truthy_bool (bur_draft b'))"
proof -
  let ?s = "new_details\<lparr>bd_budget := Some draft_budget\<rparr>"
  have d: "deleteExpense sample_expense ?s =
      (Some draft_budget, [Ask (DeleteExpenseQuestion (Some ''Eau''))])"
    by (simp add: deleteExpense_def is_draft_def draft_budget_def sample_budget_def
        sample_expense_def)
  have c: "Send (DeleteExpense ''b1'' ''e1'')
      \<in> set (deleteExpense_closed draft_budget sample_expense True ?s)"
    by (simp add: deleteExpense_closed_def is_draft_def draft_budget_def sample_budget_def
        sample_expense_def nullish_def)
  from expense_deleted_only_in_draft [OF d c] c show ?thesis by (simp add: Let_def)
qed

text \<open>The order of the column of the members contradicts itself on a lot without member.\<close>

lemma members_sort_inconsistent:
  "members_sortFunc [] [(Some f, Some l)] = -1 \<and> members_sortFunc [(Some f, Some l)] [] = -1"
  by (simp add: members_sortFunc_def first_sorted_def List.map_filter_def)

text \<open>Between lots with members it is the reverse order of their first last names.\<close>

lemma members_sort_reverse:
  assumes "first_sorted (map snd a) = Some x" and "first_sorted (map snd b) = Some y"
  shows "members_sortFunc a b = (if x = y then 0 else if x < y then 1 else - 1)"
  using assms by (simp add: members_sortFunc_def)

end
