(* ===== verification/Money_Input.thy ===== *)
theory Money_Input
  imports Js_Number
begin

text \<open>
  \<open>budgets/money-input.ts\<close>: which form values are accepted as amounts. The test runs a regular
  expression over \<open>String(value)\<close>; the main result says which numbers that accepts.
\<close>

text \<open>A form control holds any value; only \<open>typeof value === 'number'\<close> matters.\<close>

datatype form_value = Num js_number | Other

subsection \<open>The test\<close>

text \<open>The expression \<open>^\d+(\.\d{1,2})?$\<close>.\<close>

definition two_decimals :: "string \<Rightarrow> bool" where
  "two_decimals s =
     (let whole = takeWhile is_digit s; rest = dropWhile is_digit s in
      whole \<noteq> [] \<and>
      (case rest of [] \<Rightarrow> True
       | c # ds \<Rightarrow> c = CHR ''.'' \<and> list_all is_digit ds \<and> 1 \<le> length ds \<and> length ds \<le> 2))"

definition max_money :: rat where
  "max_money = 999999999999 / 100"

fun validMoneyInput :: "form_value \<Rightarrow> bool" where
  "validMoneyInput Other = False"
| "validMoneyInput (Num v) =
     (if \<not> is_finite v \<or> number_val v \<le> 0 \<or> max_money < number_val v then False
      else two_decimals (number_str v))"

lemma list_all_takeWhile: "list_all P xs \<Longrightarrow> takeWhile P (xs @ ys) = xs @ takeWhile P ys"
  by (induction xs) auto

lemma list_all_dropWhile: "list_all P xs \<Longrightarrow> dropWhile P (xs @ ys) = dropWhile P ys"
  by (induction xs) auto

lemma two_decimals_whole:
  assumes "list_all is_digit w"
  shows "two_decimals w \<longleftrightarrow> w \<noteq> []"
proof -
  have tw: "takeWhile is_digit w = w" and dw: "dropWhile is_digit w = []"
    using list_all_takeWhile [OF assms, of "[]"] list_all_dropWhile [OF assms, of "[]"]
    by simp_all
  show ?thesis by (simp only: two_decimals_def Let_def tw dw list.case simp_thms)
qed

lemma two_decimals_point:
  "list_all is_digit w \<Longrightarrow> \<not> is_digit c \<Longrightarrow>
   two_decimals (w @ c # ds) \<longleftrightarrow>
     w \<noteq> [] \<and> c = CHR ''.'' \<and> list_all is_digit ds \<and> 1 \<le> length ds \<and> length ds \<le> 2"
  by (simp add: two_decimals_def Let_def list_all_takeWhile list_all_dropWhile)

subsection \<open>What the test accepts\<close>

lemma two_decimals_positive_str:
  assumes "list_all is_digit ds" and "ds \<noteq> []"
  shows "two_decimals (positive_str ds n) \<longleftrightarrow> n \<le> 21 \<and> int (length ds) - n \<le> 2"
proof -
  let ?k = "int (length ds)"
  have digits: "list_all is_digit (take i ds)" "list_all is_digit (drop i ds)" for i
    using assms(1) by (auto simp: list_all_iff dest: in_set_takeD in_set_dropD)
  have zeros: "list_all is_digit (replicate i CHR ''0'')" for i
    by (simp add: list_all_iff)
  consider "?k \<le> n" "n \<le> 21" | "n < ?k" "0 < n" "n \<le> 21" | "- 6 < n" "n \<le> 0"
    | "21 < n \<or> n \<le> - 6" by linarith
  then show ?thesis
  proof cases
    case 1
    then show ?thesis
      using assms zeros by (simp add: positive_str_def Let_def two_decimals_whole)
  next
    case 2
    then have "0 < nat n" "nat n < length ds" by auto
    with 2 have "positive_str ds n = take (nat n) ds @ CHR ''.'' # drop (nat n) ds"
      by (simp add: positive_str_def Let_def)
    moreover have "take (nat n) ds \<noteq> []" using \<open>0 < nat n\<close> assms(2) by simp
    ultimately show ?thesis
      using 2 digits \<open>nat n < length ds\<close> by (auto simp: two_decimals_point)
  next
    case 3
    have "\<not> ?k \<le> n" using 3 assms(2) by (cases ds) auto
    with 3 have "positive_str ds n
        = [CHR ''0''] @ CHR ''.'' # (replicate (nat (- n)) CHR ''0'' @ ds)"
      by (simp add: positive_str_def Let_def)
    moreover have "two_decimals ([CHR ''0''] @ CHR ''.'' # (replicate (nat (- n)) CHR ''0'' @ ds))
        \<longleftrightarrow> nat (- n) + length ds \<le> 2"
      using assms zeros by (subst two_decimals_point) (auto simp: Suc_le_eq)
    ultimately show ?thesis using 3 by auto
  next
    case 4
    have "\<not> two_decimals (positive_str ds n)"
    proof (cases "?k = 1")
      case True
      then have "positive_str ds n = ds @ CHR ''e'' # tl (exponent_str (n - 1))"
        using 4 by (auto simp: positive_str_def Let_def exponent_str_def)
      then show ?thesis using assms by (simp add: two_decimals_point)
    next
      case False
      then have "positive_str ds n
          = take 1 ds @ CHR ''.'' # (drop 1 ds @ CHR ''e'' # tl (exponent_str (n - 1)))"
        using 4 by (auto simp: positive_str_def Let_def exponent_str_def)
      then show ?thesis using digits by (simp add: two_decimals_point)
    qed
    then show ?thesis using 4 assms(2) by (cases ds) auto
  qed
qed

lemma dec_cents_iff:
  assumes "s mod 10 \<noteq> 0"
  shows "(\<exists>c::nat. of_nat s * pow10 e = of_nat c / 100) \<longleftrightarrow> - 2 \<le> e"
proof
  assume "- 2 \<le> e"
  have "of_nat s * pow10 e = of_nat (s * 10 ^ nat (e + 2)) / 100"
    using pow10_add [of "e + 2" "- 2"] \<open>- 2 \<le> e\<close> by (simp add: pow10_def)
  then show "\<exists>c::nat. of_nat s * pow10 e = of_nat c / 100" by blast
next
  assume "\<exists>c::nat. of_nat s * pow10 e = of_nat c / 100"
  then obtain c :: nat where c: "of_nat s * pow10 e = (of_nat c / 100 :: rat)" by blast
  show "- 2 \<le> e"
  proof (rule ccontr)
    assume "\<not> - 2 \<le> e"
    define m where "m = nat (- e - 3)"
    have "nat (- e) = Suc m + 2" and "\<not> 0 \<le> e"
      using \<open>\<not> - 2 \<le> e\<close> by (simp_all add: m_def)
    then have "of_nat s / 10 ^ (Suc m + 2) = (of_nat c / 100 :: rat)"
      using c by (simp add: pow10_def)
    then have "(of_nat s :: rat) = of_nat (c * 10 ^ Suc m)"
      by (simp add: field_simps power_add)
    then have "s = c * 10 ^ Suc m" by (metis of_nat_eq_iff)
    then have "s mod 10 = 0" by simp
    with assms show False by simp
  qed
qed

lemma money_input_cents:
  assumes "wf_number v"
  shows "validMoneyInput (Num v) \<longleftrightarrow>
    (\<exists>c::nat. 0 < c \<and> c \<le> 999999999999 \<and> number_val v = of_nat c / 100)"
proof (cases v)
  case (Dec neg s n)
  let ?e = "n - int (length (digits_of s))"
  let ?x = "of_nat s * pow10 ?e"
  from assms Dec have s: "0 < s" "s mod 10 \<noteq> 0" by simp_all
  then have pos: "0 < ?x" by simp
  show ?thesis
  proof (cases neg)
    case True
    have "number_val v < 0" using Dec True pos by simp
    moreover have "\<not> number_val v = of_nat c / 100" for c :: nat
      using calculation by (metis less_le_not_le of_nat_0_le_iff zero_le_divide_iff zero_le_numeral)
    ultimately show ?thesis using Dec True by auto
  next
    case False
    have v: "number_val v = ?x" using Dec False by simp
    have small: "n \<le> 21" if "?x \<le> max_money"
    proof (rule ccontr)
      assume "\<not> n \<le> 21"
      then have "pow10 10 \<le> pow10 (n - 1)" by (intro pow10_mono) simp
      also have "\<dots> \<le> ?x" using dec_val_ge [OF s(1)] .
      finally show False using that by (simp add: pow10_def max_money_def)
    qed
    have "validMoneyInput (Num v) \<longleftrightarrow> ?x \<le> max_money \<and> - 2 \<le> ?e"
      using Dec False pos small v by (auto simp: two_decimals_positive_str)
    also have "\<dots> \<longleftrightarrow> ?x \<le> max_money \<and> (\<exists>c::nat. ?x = of_nat c / 100)"
      using dec_cents_iff [OF s(2), of ?e] by simp
    also have "\<dots> \<longleftrightarrow> (\<exists>c::nat. 0 < c \<and> c \<le> 999999999999 \<and> ?x = of_nat c / 100)"
    proof -
      have "0 < c \<and> c \<le> 999999999999 \<longleftrightarrow> ?x \<le> max_money" if "?x = of_nat c / 100" for c :: nat
        using pos unfolding that max_money_def by (auto simp: divide_le_cancel)
      then show ?thesis by blast
    qed
    finally show ?thesis using v by simp
  qed
qed simp_all

text \<open>
  The same test on the value of a control: a missing or non-numeric value is refused. This is how
  the forms use the validator.
\<close>

definition money_valid :: "number option \<Rightarrow> bool" where
  "money_valid a =
     (case a of None \<Rightarrow> False
      | Some x \<Rightarrow> 0 < x \<and> x \<le> max_money \<and> snd (quotient_of (x * 100)) = 1)"

lemma quotient_int: "snd (quotient_of x) = 1 \<longleftrightarrow> x \<in> \<int>"
proof
  assume "snd (quotient_of x) = 1"
  then have "x = of_int (fst (quotient_of x))"
    by (metis div_by_1 of_int_1 prod.collapse quotient_of_div)
  then show "x \<in> \<int>" by (metis Ints_of_int)
qed (auto elim: Ints_cases)

lemma money_valid_cents:
  "money_valid (Some x) \<longleftrightarrow> (\<exists>c::nat. 0 < c \<and> c \<le> 999999999999 \<and> x = of_nat c / 100)"
proof
  assume "money_valid (Some x)"
  then have pos: "0 < x" and le: "x \<le> 999999999999 / 100" and int: "x * 100 \<in> \<int>"
    unfolding money_valid_def max_money_def by (simp_all add: quotient_int)
  from int obtain i where i: "x * 100 = of_int i" by (elim Ints_cases)
  have "0 < (of_int i :: rat)" unfolding i [symmetric] using pos by simp
  then have ipos: "0 < i" by simp
  have "(of_int i :: rat) \<le> of_int 999999999999" unfolding i [symmetric] using le by simp
  then have "i \<le> 999999999999" unfolding of_int_le_iff .
  moreover from ipos i have "x = of_nat (nat i) / 100" by (simp add: eq_divide_eq)
  ultimately show "\<exists>c::nat. 0 < c \<and> c \<le> 999999999999 \<and> x = of_nat c / 100"
    using ipos by (intro exI [of _ "nat i"] conjI) auto
next
  assume "\<exists>c::nat. 0 < c \<and> c \<le> 999999999999 \<and> x = of_nat c / 100"
  then obtain c :: nat where c: "0 < c" "c \<le> 999999999999" "x = of_nat c / 100" by blast
  have "(of_nat c :: rat) \<le> 999999999999" using c(2) by (metis of_nat_le_iff of_nat_numeral)
  with c show "money_valid (Some x)"
    by (simp add: money_valid_def max_money_def quotient_int)
qed

lemma money_valid_input:
  "wf_number v \<Longrightarrow> validMoneyInput (Num v) = money_valid (Some (number_val v))"
  by (simp only: money_input_cents money_valid_cents)

text \<open>
  C1. A number passes \<open>validMoneyInput\<close> exactly when it is a positive whole number of cents,
  at most 9 999 999 999.99: the test on the printed decimal neither lets a fraction of a cent
  through nor refuses an exact amount, whatever notation the conversion to text chooses.
\<close>
theorem validMoneyInput_iff_cents:
  assumes "wf_number v"
  shows "validMoneyInput (Num v) \<longleftrightarrow>
    (\<exists>c::nat. 0 < c \<and> c \<le> 999999999999 \<and> number_val v = of_nat c / 100)"
  using assms by (rule money_input_cents)

theorem validMoneyInput_iff_cents_witness:
  "wf_number (Dec False 1234 2) \<and> validMoneyInput (Num (Dec False 1234 2)) \<and>
   (\<exists>c::nat. 0 < c \<and> c \<le> 999999999999 \<and> number_val (Dec False 1234 2) = of_nat c / 100)"
proof -
  have w: "wf_number (Dec False 1234 2)" by simp
  have "validMoneyInput (Num (Dec False 1234 2))"
    by (simp add: digits_of_def nat_str.simps positive_str_def two_decimals_def is_digit_def
        pow10_def max_money_def Let_def)
  then show ?thesis using w validMoneyInput_iff_cents [OF w] by blast
qed

end
