(* ===== verification/Forms.thy ===== *)
theory Forms
  imports Api_Request Money_Input Ui Js_Text
begin

text \<open>
  The dialogs that save one object: the forms of budgets, expenses, payments
  (\<open>budgets/components/*-form\<close>), lots (\<open>units/components/unit-form\<close>) and attachments
  (\<open>emails/components/email-attachment-form\<close>). Each has a flag set while its request is in
  flight; the contract of that flag is the locale \<open>submit_guard\<close>, which the other forms of
  the program interpret too. A control holds \<open>None\<close> where the source holds \<open>null\<close> or
  \<open>undefined\<close>.
\<close>

subsection \<open>The contract: one request in flight\<close>

datatype ('r, 'u) form_event = Submit | Answer 'r | Edit 'u

text \<open>A form with the number of its requests in flight and the requests it has sent.\<close>

fun form_step ::
  "('s \<Rightarrow> 's \<times> 'e list) \<Rightarrow> ('r \<Rightarrow> 's \<Rightarrow> 's \<times> 'e list) \<Rightarrow> ('u \<Rightarrow> 's \<Rightarrow> 's) \<Rightarrow> ('e list \<Rightarrow> 'c list) \<Rightarrow>
   ('r, 'u) form_event \<Rightarrow> 's \<times> nat \<times> 'c list \<Rightarrow> 's \<times> nat \<times> 'c list" where
  "form_step submit answer edit requests Submit (s, n, cs) =
     (let (s', out) = submit s in (s', n + length (requests out), cs @ requests out))"
| "form_step submit answer edit requests (Answer r) (s, n, cs) =
     (if n = 0 then (s, n, cs)
      else (let (s', out) = answer r s in (s', n - 1 + length (requests out), cs @ requests out)))"
| "form_step submit answer edit requests (Edit u) (s, n, cs) = (edit u s, n, cs)"

fun answers_in :: "('r, 'u) form_event list \<Rightarrow> nat" where
  "answers_in [] = 0"
| "answers_in (Answer r # evs) = Suc (answers_in evs)"
| "answers_in (Submit # evs) = answers_in evs"
| "answers_in (Edit u # evs) = answers_in evs"

locale submit_guard =
  fixes submit :: "'s \<Rightarrow> 's \<times> 'e list"
    and answer :: "'r \<Rightarrow> 's \<Rightarrow> 's \<times> 'e list"
    and edit :: "'u \<Rightarrow> 's \<Rightarrow> 's"
    and requests :: "'e list \<Rightarrow> 'c list"
    and busy :: "'s \<Rightarrow> bool"
  assumes submit_busy: "busy s \<Longrightarrow> requests (snd (submit s)) = [] \<and> busy (fst (submit s))"
    and submit_idle: "\<not> busy s \<Longrightarrow> requests (snd (submit s)) = [] \<or>
      (\<exists>c. requests (snd (submit s)) = [c] \<and> busy (fst (submit s)))"
    and answer_silent: "requests (snd (answer r s)) = []"
    and edit_busy: "busy (edit u s) = busy s"
begin

definition guarded :: "'s \<times> nat \<times> 'c list \<Rightarrow> bool" where
  "guarded x \<longleftrightarrow> (case x of (s, n, cs) \<Rightarrow> n \<le> 1 \<and> (n = 1 \<longrightarrow> busy s))"

lemma guarded_step:
  assumes "guarded x"
  shows "guarded (form_step submit answer edit requests ev x)"
proof -
  obtain s n cs where x: "x = (s, n, cs)" by (cases x)
  show ?thesis
  proof (cases ev)
    case Submit
    show ?thesis
    proof (cases "busy s")
      case True
      with assms x Submit submit_busy [OF True] show ?thesis
        by (cases "submit s") (simp add: guarded_def)
    next
      case False
      with assms x have "n = 0" by (auto simp: guarded_def)
      with x Submit submit_idle [OF False] show ?thesis
        by (cases "submit s") (auto simp: guarded_def)
    qed
  next
    case (Answer r)
    with assms x answer_silent [of r s] show ?thesis
      by (cases "answer r s") (auto simp: guarded_def)
  next
    case (Edit u)
    with assms x show ?thesis by (auto simp: guarded_def edit_busy)
  qed
qed

lemma guarded_run: "guarded x \<Longrightarrow> guarded (fold (form_step submit answer edit requests) evs x)"
  by (induction evs arbitrary: x) (simp_all add: guarded_step)

lemma one_in_flight:
  "fst (snd (fold (form_step submit answer edit requests) evs (s, 0, []))) \<le> 1"
  using guarded_run [of "(s, 0, [])" evs] by (auto simp: guarded_def split: prod.splits)

lemma sent_le:
  "length (snd (snd (fold (form_step submit answer edit requests) evs (s, n, cs)))) + n \<le>
   length cs + answers_in evs + fst (snd (fold (form_step submit answer edit requests) evs (s, n, cs)))"
proof (induction evs arbitrary: s n cs)
  case (Cons ev evs)
  obtain s' n' cs' where x: "form_step submit answer edit requests ev (s, n, cs) = (s', n', cs')"
    by (cases "form_step submit answer edit requests ev (s, n, cs)")
  show ?case
  proof (cases ev)
    case (Answer r)
    with x answer_silent [of r s] have "cs' = cs" "n' = n - 1"
      by (auto split: if_splits prod.splits)
    with Cons [of s' n' cs'] x Answer show ?thesis by simp
  qed (use x Cons [of s' n' cs'] in \<open>auto split: prod.splits\<close>)
qed simp

text \<open>So each request but the last one has been answered.\<close>

lemma sent_answered:
  "length (snd (snd (fold (form_step submit answer edit requests) evs (s, 0, [])))) \<le> answers_in evs + 1"
  using sent_le [of evs s 0 "[]"] one_in_flight [of evs s] by simp

end

subsection \<open>Validators\<close>

text \<open>\<open>Validators.required\<close>: neither missing nor the empty string.\<close>

definition required :: "string option \<Rightarrow> bool" where
  "required v = truthy_str v"

definition max_length :: "nat \<Rightarrow> string \<Rightarrow> bool" where
  "max_length n v = (length v \<le> n)"

datatype form_message =
    BudgetUpdated "string option"
  | BudgetCreated "string option"
  | BudgetNotUpdated
  | BudgetNotCreated
  | ExpenseUpdated "string option"
  | ExpenseCreated "string option"
  | ExpenseNotUpdated
  | ExpenseNotCreated
  | PaymentUpdated
  | PaymentCreated
  | PaymentNotSaved
  | UnitUpdated "int option"
  | UnitCreated "int option"
  | UnitNotUpdated
  | UnitNotCreated

subsection \<open>\<open>BudgetFormComponent\<close>\<close>

record budget_form =
  bf_budget :: "ModelsBudget option"
  bf_saving :: bool
  bf_touched :: bool
  bf_label :: "string option"

definition new_budget_form :: "ModelsBudget option \<Rightarrow> budget_form" where
  "new_budget_form budget = \<lparr>bf_budget = budget, bf_saving = False, bf_touched = (budget \<noteq> None),
     bf_label = Option.bind budget bud_label\<rparr>"

definition budget_form_id :: "budget_form \<Rightarrow> string option" where
  "budget_form_id s =
     (let i = Option.bind (bf_budget s) bud_id in if truthy_str i then i else None)"

definition budget_form_invalid :: "budget_form \<Rightarrow> bool" where
  "budget_form_invalid s = (\<not> required (bf_label s))"

definition budget_form_cancel :: "budget_form \<Rightarrow> form_message ui_effect list" where
  "budget_form_cancel s = (if bf_saving s then [] else [CloseDialog False])"

definition budget_form_submit :: "budget_form \<Rightarrow> budget_form \<times> form_message ui_effect list" where
  "budget_form_submit s =
     (if bf_saving s then (s, [])
      else if budget_form_invalid s then (s\<lparr>bf_touched := True\<rparr>, [])
      else (s\<lparr>bf_saving := True\<rparr>,
        [Send (case budget_form_id s of
           None \<Rightarrow> CreateBudget \<lparr>cbi_label = bf_label s\<rparr>
         | Some i \<Rightarrow> UpdateBudget i \<lparr>ubi_label = bf_label s\<rparr>)]))"

definition budget_form_answer ::
  "api_error + ModelsBudget option \<Rightarrow> budget_form \<Rightarrow> budget_form \<times> form_message ui_effect list" where
  "budget_form_answer r s =
     (s\<lparr>bf_saving := False\<rparr>,
      case r of
        Inr budget \<Rightarrow> [CloseDialog True,
          Info (let label = Option.bind budget bud_label in
                if budget_form_id s \<noteq> None then BudgetUpdated label else BudgetCreated label)]
      | Inl e \<Rightarrow> [Failure (if budget_form_id s \<noteq> None then BudgetNotUpdated else BudgetNotCreated) e])"

definition budget_form_edit :: "string option \<Rightarrow> budget_form \<Rightarrow> budget_form" where
  "budget_form_edit label s = s\<lparr>bf_label := label\<rparr>"

interpretation budget_form:
  submit_guard budget_form_submit budget_form_answer budget_form_edit sends bf_saving
  by unfold_locales
    (auto simp: budget_form_submit_def budget_form_answer_def budget_form_edit_def split: sum.split)

subsection \<open>\<open>ExpenseFormComponent\<close>\<close>

record expense_form =
  ef_budgetId :: string
  ef_expense :: "ModelsExpense option"
  ef_saving :: bool
  ef_touched :: bool
  ef_label :: "string option"
  ef_amount :: "number option"

definition new_expense_form :: "string \<Rightarrow> ModelsExpense option \<Rightarrow> expense_form" where
  "new_expense_form budgetId expense = \<lparr>ef_budgetId = budgetId, ef_expense = expense,
     ef_saving = False, ef_touched = (expense \<noteq> None),
     ef_label = Option.bind expense exp_label, ef_amount = Option.bind expense exp_amount\<rparr>"

definition expense_form_id :: "expense_form \<Rightarrow> string option" where
  "expense_form_id s =
     (let i = Option.bind (ef_expense s) exp_id in if truthy_str i then i else None)"

definition expense_form_invalid :: "expense_form \<Rightarrow> bool" where
  "expense_form_invalid s = (\<not> (required (ef_label s) \<and> money_valid (ef_amount s)))"

definition expense_form_cancel :: "expense_form \<Rightarrow> form_message ui_effect list" where
  "expense_form_cancel s = (if ef_saving s then [] else [CloseDialog False])"

definition expense_form_submit :: "expense_form \<Rightarrow> expense_form \<times> form_message ui_effect list" where
  "expense_form_submit s =
     (if ef_saving s then (s, [])
      else if expense_form_invalid s then (s\<lparr>ef_touched := True\<rparr>, [])
      else (s\<lparr>ef_saving := True\<rparr>,
        [Send (case expense_form_id s of
           None \<Rightarrow> CreateExpense (ef_budgetId s) \<lparr>cei_amount = ef_amount s, cei_label = ef_label s\<rparr>
         | Some i \<Rightarrow> UpdateExpense (ef_budgetId s) i
             \<lparr>uei_amount = ef_amount s, uei_label = ef_label s\<rparr>)]))"

definition expense_form_answer ::
  "api_error + ModelsExpense option \<Rightarrow> expense_form \<Rightarrow> expense_form \<times> form_message ui_effect list" where
  "expense_form_answer r s =
     (s\<lparr>ef_saving := False\<rparr>,
      case r of
        Inr expense \<Rightarrow> [CloseDialog True,
          Info (let label = Option.bind expense exp_label in
                if expense_form_id s \<noteq> None then ExpenseUpdated label else ExpenseCreated label)]
      | Inl e \<Rightarrow> [Failure (if expense_form_id s \<noteq> None then ExpenseNotUpdated else ExpenseNotCreated) e])"

definition expense_form_edit ::
  "string option \<times> number option \<Rightarrow> expense_form \<Rightarrow> expense_form" where
  "expense_form_edit v s = s\<lparr>ef_label := fst v, ef_amount := snd v\<rparr>"

interpretation expense_form:
  submit_guard expense_form_submit expense_form_answer expense_form_edit sends ef_saving
  by unfold_locales
    (auto simp: expense_form_submit_def expense_form_answer_def expense_form_edit_def split: sum.split)

subsection \<open>\<open>PaymentFormComponent\<close>\<close>

text \<open>
  The date library is not in the repository: \<open>day\<close> formats a stored date, or the current one for
  \<open>None\<close>, as a day; \<open>stamp\<close> formats the day of the form for the request.
\<close>

record payment_form =
  pf_budget_id :: string
  pf_cotisation_id :: string
  pf_payment :: "ModelsPayment option"
  pf_busy :: bool
  pf_enabled :: bool
  pf_touched :: bool
  pf_amount :: "number option"
  pf_comment :: "string option"
  pf_date :: "string option"

definition new_payment_form ::
  "(string option \<Rightarrow> string) \<Rightarrow> string \<Rightarrow> string \<Rightarrow> ModelsPayment option \<Rightarrow> payment_form" where
  "new_payment_form day budget cotisation payment =
     \<lparr>pf_budget_id = budget, pf_cotisation_id = cotisation, pf_payment = payment, pf_busy = False,
      pf_enabled = True, pf_touched = (payment \<noteq> None),
      pf_amount = Option.bind payment pay_amount, pf_comment = Option.bind payment pay_comment,
      pf_date = Some (day (let d = Option.bind payment pay_date in if truthy_str d then d else None))\<rparr>"

definition payment_form_id :: "payment_form \<Rightarrow> string option" where
  "payment_form_id s =
     (let i = Option.bind (pf_payment s) pay_id in if truthy_str i then i else None)"

text \<open>A disabled group is neither valid nor invalid.\<close>

definition payment_form_invalid :: "payment_form \<Rightarrow> bool" where
  "payment_form_invalid s =
     (pf_enabled s \<and>
      \<not> (money_valid (pf_amount s) \<and> required (pf_comment s) \<and> required (pf_date s)))"

definition payment_form_cancel :: "payment_form \<Rightarrow> form_message ui_effect list" where
  "payment_form_cancel s = (if \<not> pf_busy s then [CloseDialog False] else [])"

definition payment_form_submit ::
  "(string option \<Rightarrow> string) \<Rightarrow> payment_form \<Rightarrow> payment_form \<times> form_message ui_effect list" where
  "payment_form_submit stamp s =
     (if pf_busy s then (s, [])
      else if payment_form_invalid s then (s\<lparr>pf_touched := True\<rparr>, [])
      else (s\<lparr>pf_busy := True, pf_enabled := False\<rparr>,
        [Send (case payment_form_id s of
           None \<Rightarrow> CreatePayment (pf_budget_id s) (pf_cotisation_id s)
             \<lparr>cpi_amount = pf_amount s, cpi_comment = pf_comment s, cpi_date = Some (stamp (pf_date s))\<rparr>
         | Some i \<Rightarrow> UpdatePayment (pf_budget_id s) (pf_cotisation_id s) i
             \<lparr>upi_amount = pf_amount s, upi_comment = pf_comment s,
              upi_date = Some (stamp (pf_date s))\<rparr>)]))"

definition payment_form_answer ::
  "api_error + ModelsPayment option \<Rightarrow> payment_form \<Rightarrow> payment_form \<times> form_message ui_effect list" where
  "payment_form_answer r s =
     (case r of
        Inr _ \<Rightarrow> (s, [CloseDialog True,
          Info (if payment_form_id s \<noteq> None then PaymentUpdated else PaymentCreated)])
      | Inl e \<Rightarrow> (s\<lparr>pf_busy := False, pf_enabled := True\<rparr>, [Failure PaymentNotSaved e]))"

definition payment_form_edit ::
  "number option \<times> string option \<times> string option \<Rightarrow> payment_form \<Rightarrow> payment_form" where
  "payment_form_edit v s =
     (if pf_enabled s
      then s\<lparr>pf_amount := fst v, pf_comment := fst (snd v), pf_date := snd (snd v)\<rparr> else s)"

interpretation payment_form:
  submit_guard "payment_form_submit stamp" payment_form_answer
    payment_form_edit sends pf_busy for stamp
  by unfold_locales
    (auto simp: payment_form_submit_def payment_form_answer_def payment_form_edit_def split: sum.split)

subsection \<open>\<open>UnitFormComponent\<close>\<close>

text \<open>The number inputs hold whole numbers; the pattern is tested on the printed share.\<close>

record unit_form =
  uf_unit :: "ModelsUnit option"
  uf_saving :: bool
  uf_touched :: bool
  uf_number :: "int option"
  uf_share :: "int option"
  uf_address :: "string option"

definition new_unit_form :: "ModelsUnit option \<Rightarrow> unit_form" where
  "new_unit_form u = \<lparr>uf_unit = u, uf_saving = False, uf_touched = (u \<noteq> None),
     uf_number = Option.bind u unt_number, uf_share = Option.bind u unt_share,
     uf_address = Option.bind u unt_address\<rparr>"

definition unit_form_id :: "unit_form \<Rightarrow> string option" where
  "unit_form_id s = (let i = Option.bind (uf_unit s) unt_id in if truthy_str i then i else None)"

definition share_valid :: "int option \<Rightarrow> bool" where
  "share_valid v =
     (case v of None \<Rightarrow> False | Some n \<Rightarrow> 0 \<le> n \<and> list_all is_digit (int_str n) \<and> int_str n \<noteq> [])"

definition unit_form_invalid :: "unit_form \<Rightarrow> bool" where
  "unit_form_invalid s =
     (\<not> (uf_number s \<noteq> None \<and> share_valid (uf_share s) \<and> required (uf_address s)))"

definition unit_form_cancel :: "unit_form \<Rightarrow> form_message ui_effect list" where
  "unit_form_cancel s = (if uf_saving s then [] else [CloseDialog False])"

definition unit_form_submit :: "unit_form \<Rightarrow> unit_form \<times> form_message ui_effect list" where
  "unit_form_submit s =
     (if uf_saving s then (s, [])
      else if unit_form_invalid s then (s\<lparr>uf_touched := True\<rparr>, [])
      else (s\<lparr>uf_saving := True\<rparr>,
        [Send (case unit_form_id s of
           None \<Rightarrow> CreateUnit \<lparr>cui_address = uf_address s, cui_number = uf_number s,
             cui_share = uf_share s\<rparr>
         | Some i \<Rightarrow> UpdateUnit i \<lparr>uui_address = uf_address s, uui_number = uf_number s,
             uui_share = uf_share s\<rparr>)]))"

definition unit_form_answer ::
  "api_error + ModelsUnit option \<Rightarrow> unit_form \<Rightarrow> unit_form \<times> form_message ui_effect list" where
  "unit_form_answer r s =
     (s\<lparr>uf_saving := False\<rparr>,
      case r of
        Inr u \<Rightarrow> [CloseDialog True,
          Info (let n = Option.bind u unt_number in
                if unit_form_id s \<noteq> None then UnitUpdated n else UnitCreated n)]
      | Inl e \<Rightarrow> [Failure (if unit_form_id s \<noteq> None then UnitNotUpdated else UnitNotCreated) e])"

definition unit_form_edit ::
  "int option \<times> int option \<times> string option \<Rightarrow> unit_form \<Rightarrow> unit_form" where
  "unit_form_edit v s =
     s\<lparr>uf_number := fst v, uf_share := fst (snd v), uf_address := snd (snd v)\<rparr>"

interpretation unit_form:
  submit_guard unit_form_submit unit_form_answer unit_form_edit sends uf_saving
  by unfold_locales
    (auto simp: unit_form_submit_def unit_form_answer_def unit_form_edit_def split: sum.split)

lemma share_valid_iff: "share_valid v \<longleftrightarrow> (\<exists>n \<ge> 0. v = Some n)"
  by (auto simp: share_valid_def int_str_def nat_str_digits split: option.split)

subsection \<open>\<open>EmailAttachmentFormComponent\<close>\<close>

record js_file =
  file_name :: string
  file_type :: string
  file_content :: string

record attachment_form =
  af_template_id :: string
  af_file :: "js_file option"
  af_saving :: bool
  af_touched :: bool
  af_dirty :: bool
  af_name :: "string option"
  af_inline :: bool

datatype attachment_effect =
    PostFile "string \<times> (string \<times> string) list \<times> js_file"
  | AttachmentSaved "string option"
  | AttachmentNotSaved api_error
  | CloseAttachment bool

fun posts_of :: "attachment_effect list \<Rightarrow> (string \<times> (string \<times> string) list \<times> js_file) list" where
  "posts_of [] = []"
| "posts_of (PostFile p # es) = p # posts_of es"
| "posts_of (_ # es) = posts_of es"

definition new_attachment_form :: "string \<Rightarrow> attachment_form" where
  "new_attachment_form template = \<lparr>af_template_id = template, af_file = None, af_saving = False,
     af_touched = False, af_dirty = False, af_name = Some [], af_inline = False\<rparr>"

definition onFileSelected :: "js_file option \<Rightarrow> attachment_form \<Rightarrow> attachment_form" where
  "onFileSelected file s =
     (case file of
        None \<Rightarrow> s\<lparr>af_file := None\<rparr>
      | Some f \<Rightarrow> s\<lparr>af_touched := True, af_dirty := True, af_name := Some (file_name f),
          af_inline := False, af_file := Some f\<rparr>)"

definition attachment_form_cancel :: "attachment_form \<Rightarrow> attachment_effect list" where
  "attachment_form_cancel s = (if af_saving s then [] else [CloseAttachment False])"

definition attachment_form_submit ::
  "attachment_form \<Rightarrow> attachment_form \<times> attachment_effect list" where
  "attachment_form_submit s =
     (if af_saving s then (s, [])
      else (case (af_name s, af_file s) of
          (Some (c # cs), Some f) \<Rightarrow>
            (s\<lparr>af_saving := True\<rparr>,
             [PostFile (createEmailAttachment (af_template_id s) (c # cs) (af_inline s)
                (file_type f) f)])
        | _ \<Rightarrow> (s\<lparr>af_touched := True\<rparr>, [])))"

definition attachment_form_answer ::
  "api_error + ModelsAttachment option \<Rightarrow> attachment_form \<Rightarrow> attachment_form \<times> attachment_effect list" where
  "attachment_form_answer r s =
     (s\<lparr>af_saving := False\<rparr>,
      case r of
        Inr result \<Rightarrow> [CloseAttachment True, AttachmentSaved (Option.bind result att_name)]
      | Inl e \<Rightarrow> [AttachmentNotSaved e])"

datatype attachment_edit = SelectFile "js_file option" | TypeName "string option" | SetInline bool

fun attachment_form_edit :: "attachment_edit \<Rightarrow> attachment_form \<Rightarrow> attachment_form" where
  "attachment_form_edit (SelectFile f) s = onFileSelected f s"
| "attachment_form_edit (TypeName n) s = s\<lparr>af_name := n\<rparr>"
| "attachment_form_edit (SetInline b) s = s\<lparr>af_inline := b\<rparr>"

interpretation attachment_form:
  submit_guard attachment_form_submit attachment_form_answer attachment_form_edit posts_of af_saving
proof unfold_locales
  fix s r u
  show "af_saving s \<Longrightarrow> posts_of (snd (attachment_form_submit s)) = [] \<and>
      af_saving (fst (attachment_form_submit s))"
    by (simp add: attachment_form_submit_def)
  show "\<not> af_saving s \<Longrightarrow> posts_of (snd (attachment_form_submit s)) = [] \<or>
      (\<exists>c. posts_of (snd (attachment_form_submit s)) = [c] \<and> af_saving (fst (attachment_form_submit s)))"
    by (auto simp: attachment_form_submit_def createEmailAttachment_def split: option.split list.split)
  show "posts_of (snd (attachment_form_answer r s)) = []"
    by (simp add: attachment_form_answer_def split: sum.split)
  show "af_saving (attachment_form_edit u s) = af_saving s"
    by (cases u) (simp_all add: onFileSelected_def split: option.split)
qed

subsection \<open>Properties\<close>

text \<open>
  C16. No form sends an object twice because a button was pressed twice: in any sequence of
  submissions, answers and edits, each of the five forms has at most one request in flight, and
  has sent at most one more request than it was answered.
\<close>
theorem forms_one_in_flight:
  "(\<forall>evs s. case fold (form_step budget_form_submit budget_form_answer budget_form_edit sends) evs (s, 0, [])
      of (_, n, cs) \<Rightarrow> n \<le> 1 \<and> length cs \<le> answers_in evs + 1) \<and>
   (\<forall>evs s. case fold (form_step expense_form_submit expense_form_answer expense_form_edit sends) evs (s, 0, [])
      of (_, n, cs) \<Rightarrow> n \<le> 1 \<and> length cs \<le> answers_in evs + 1) \<and>
   (\<forall>stamp evs s. case fold (form_step (payment_form_submit stamp) payment_form_answer payment_form_edit sends) evs (s, 0, [])
      of (_, n, cs) \<Rightarrow> n \<le> 1 \<and> length cs \<le> answers_in evs + 1) \<and>
   (\<forall>evs s. case fold (form_step unit_form_submit unit_form_answer unit_form_edit sends) evs (s, 0, [])
      of (_, n, cs) \<Rightarrow> n \<le> 1 \<and> length cs \<le> answers_in evs + 1) \<and>
   (\<forall>evs s. case fold (form_step attachment_form_submit attachment_form_answer attachment_form_edit posts_of)
        evs (s, 0, [])
      of (_, n, cs) \<Rightarrow> n \<le> 1 \<and> length cs \<le> answers_in evs + 1)"
  using budget_form.one_in_flight budget_form.sent_answered
    expense_form.one_in_flight expense_form.sent_answered
    payment_form.one_in_flight payment_form.sent_answered
    unit_form.one_in_flight unit_form.sent_answered
    attachment_form.one_in_flight attachment_form.sent_answered
  by (intro conjI allI) (simp_all add: case_prod_beta)

lemma busy_payment_silent:
  assumes "pf_busy s"
  shows "snd (snd (fold (form_step (payment_form_submit stamp) payment_form_answer payment_form_edit sends)
    evs (s, 0, cs))) = cs"
  using assms
proof (induction evs arbitrary: s)
  case (Cons ev evs)
  have b: "pf_busy (payment_form_edit v s)" for v
    using Cons.prems by (simp add: payment_form_edit_def)
  with Cons show ?case by (cases ev) (simp_all add: payment_form_submit_def)
qed simp

text \<open>
  C17. A payment that was saved is never sent again from the same dialog: once the answer to the
  request in flight is a success, no later sequence of submissions, answers and edits sends
  anything.
\<close>
theorem payment_saved_once:
  assumes "fold (form_step (payment_form_submit stamp) payment_form_answer payment_form_edit sends)
      evs (new_payment_form day b c p, 0, []) = (s, 1, cs)"
  shows "snd (snd (fold (form_step (payment_form_submit stamp) payment_form_answer payment_form_edit sends)
    (evs @ Answer (Inr saved) # evs') (new_payment_form day b c p, 0, []))) = cs"
proof -
  have "pf_busy s"
    using payment_form.guarded_run [of "(new_payment_form day b c p, 0, [])" stamp evs] assms
    by (simp add: payment_form.guarded_def)
  moreover have "form_step (payment_form_submit stamp) payment_form_answer payment_form_edit sends
      (Answer (Inr saved)) (s, 1, cs) = (s, 0, cs)"
    by (simp add: payment_form_answer_def)
  ultimately show ?thesis
    by (simp only: fold_append comp_apply assms fold_simps busy_payment_silent)
qed

theorem payment_saved_once_witness:
  "snd (snd (fold (form_step (payment_form_submit (\<lambda>d. nullish d [])) payment_form_answer
       payment_form_edit sends)
     ([Edit (Some 120, Some ''virement'', Some ''2024-05-01''), Submit] @
       Answer (Inr None) # [Submit, Submit])
     (new_payment_form (\<lambda>d. ''2024-05-02'') ''b1'' ''c1'' None, 0, []))) =
   [CreatePayment ''b1'' ''c1'' \<lparr>cpi_amount = Some 120, cpi_comment = Some ''virement'',
      cpi_date = Some ''2024-05-01''\<rparr>]"
proof -
  let ?s = "\<lparr>pf_budget_id = ''b1'', pf_cotisation_id = ''c1'', pf_payment = None, pf_busy = True,
     pf_enabled = False, pf_touched = False, pf_amount = Some 120, pf_comment = Some ''virement'',
     pf_date = Some ''2024-05-01''\<rparr>"
  have m: "money_valid (Some 120)"
    by (rule iffD2 [OF money_valid_cents]) (intro exI [of _ 12000]; simp)
  have r: "fold (form_step (payment_form_submit (\<lambda>d. nullish d [])) payment_form_answer
       payment_form_edit sends)
     [Edit (Some 120, Some ''virement'', Some ''2024-05-01''), Submit]
     (new_payment_form (\<lambda>d. ''2024-05-02'') ''b1'' ''c1'' None, 0, []) =
     (?s, 1, [CreatePayment ''b1'' ''c1'' \<lparr>cpi_amount = Some 120, cpi_comment = Some ''virement'',
      cpi_date = Some ''2024-05-01''\<rparr>])"
    by (simp add: new_payment_form_def payment_form_edit_def payment_form_submit_def
        payment_form_invalid_def payment_form_id_def m required_def nullish_def)
  show ?thesis by (rule payment_saved_once [OF r])
qed

text \<open>
  C18. What the payment form sends is what it was opened for: one creation without an identifier,
  one modification of exactly that payment with one, under the budget and cotisation of the
  dialog, with an amount that is a positive whole number of cents up to the ceiling and a comment
  and a date that are not empty; an invalid form sends nothing.
\<close>
theorem payment_request_valid:
  assumes "Send call \<in> set (snd (payment_form_submit stamp s))" and "pf_enabled s"
  shows "\<exists>c::nat. \<exists>amount comment date. 0 < c \<and> c \<le> 999999999999 \<and> amount = of_nat c / 100 \<and>
    pf_comment s = Some comment \<and> comment \<noteq> [] \<and> pf_date s = Some date \<and> date \<noteq> [] \<and>
    call = (case Option.bind (pf_payment s) pay_id of
        Some (i # is) \<Rightarrow> UpdatePayment (pf_budget_id s) (pf_cotisation_id s) (i # is)
          \<lparr>upi_amount = Some amount, upi_comment = Some comment, upi_date = Some (stamp (Some date))\<rparr>
      | _ \<Rightarrow> CreatePayment (pf_budget_id s) (pf_cotisation_id s)
          \<lparr>cpi_amount = Some amount, cpi_comment = Some comment, cpi_date = Some (stamp (Some date))\<rparr>)"
proof -
  from assms have v: "money_valid (pf_amount s)" "required (pf_comment s)" "required (pf_date s)"
    by (auto simp: payment_form_submit_def payment_form_invalid_def split: if_splits)
  from v(1) obtain x where x: "pf_amount s = Some x"
    by (cases "pf_amount s") (simp_all add: money_valid_def)
  with v(1) obtain c :: nat where c: "0 < c" "c \<le> 999999999999" "x = of_nat c / 100"
    using money_valid_cents by auto
  from v(2,3) obtain comment date where cd: "pf_comment s = Some comment" "comment \<noteq> []"
    "pf_date s = Some date" "date \<noteq> []" by (auto simp: required_def elim!: truthy_strE)
  from assms have "call = (case payment_form_id s of
           None \<Rightarrow> CreatePayment (pf_budget_id s) (pf_cotisation_id s)
             \<lparr>cpi_amount = pf_amount s, cpi_comment = pf_comment s, cpi_date = Some (stamp (pf_date s))\<rparr>
         | Some i \<Rightarrow> UpdatePayment (pf_budget_id s) (pf_cotisation_id s) i
             \<lparr>upi_amount = pf_amount s, upi_comment = pf_comment s, upi_date = Some (stamp (pf_date s))\<rparr>)"
    by (auto simp: payment_form_submit_def split: if_splits)
  with x c cd show ?thesis
    by (intro exI [of _ c] exI [of _ x] exI [of _ comment] exI [of _ date])
      (auto simp: payment_form_id_def Let_def truthy_str_def split: option.splits list.splits)
qed

theorem payment_request_valid_witness:
  "let s = (new_payment_form (\<lambda>d. ''2024-05-02'') ''b1'' ''c1'' None)
        \<lparr>pf_amount := Some 120, pf_comment := Some ''virement''\<rparr> in
   Send (CreatePayment ''b1'' ''c1'' \<lparr>cpi_amount = Some 120, cpi_comment = Some ''virement'',
      cpi_date = Some ''2024-05-02''\<rparr>) \<in> set (snd (payment_form_submit (\<lambda>d. nullish d []) s)) \<and>
   (\<exists>c::nat. 0 < c \<and> (120::number) = of_nat c / 100)"
proof -
  let ?s = "(new_payment_form (\<lambda>d. ''2024-05-02'') ''b1'' ''c1'' None)
        \<lparr>pf_amount := Some 120, pf_comment := Some ''virement''\<rparr>"
  have m: "money_valid (Some 120)"
    by (rule iffD2 [OF money_valid_cents]) (intro exI [of _ 12000]; simp)
  have e: "pf_enabled ?s" by (simp add: new_payment_form_def)
  have c: "Send (CreatePayment ''b1'' ''c1'' \<lparr>cpi_amount = Some 120, cpi_comment = Some ''virement'',
      cpi_date = Some ''2024-05-02''\<rparr>) \<in> set (snd (payment_form_submit (\<lambda>d. nullish d []) ?s))"
    by (simp add: new_payment_form_def payment_form_submit_def
        payment_form_invalid_def payment_form_id_def m required_def nullish_def)
  from payment_request_valid [OF c e] have "\<exists>c::nat. 0 < c \<and> (120::number) = of_nat c / 100"
    by (auto simp: new_payment_form_def)
  with c show ?thesis by (simp add: Let_def)
qed

end
