(* ===== verification/Financial_History.thy ===== *)
theory Financial_History
  imports Forms Data_Sources
begin

text \<open>
  \<open>budgets/components/financial-history\<close>: the ledger of a cotisation and the two-step entry of
  a refund or an adjustment, previewed by the server and then confirmed. The pair of lists is
  loaded by one subscription at a time, which is the locale \<open>latest_source\<close>. The request of
  an operation in flight is kept with the payload of its closure.
\<close>

subsection \<open>State\<close>

datatype entry_kind = Refund | Adjustment

fun kind_str :: "entry_kind \<Rightarrow> string" where
  "kind_str Refund = ''refund''"
| "kind_str Adjustment = ''adjustment''"

record entry_form =
  en_amount :: "number option"
  en_direction :: string
  en_date :: string
  en_reason :: string
  en_reference :: string

datatype history_error =
    ReasonMissing
  | PreviewFailed
  | AnswerLost
  | ServerSays string

datatype pending =
    PreviewOf CreateFinancialEntryInput
  | EntryOf CreateFinancialEntryInput

record financial_history =
  fh_budgetId :: string
  fh_cotisationId :: string
  fh_cotisation :: "ModelsCotisationResult option"
  fh_entries :: "ModelsFinancialEntry list"
  fh_loading :: bool
  fh_loadError :: bool
  fh_error :: "history_error option"
  fh_busy :: bool
  fh_kind :: "entry_kind option"
  fh_reversal :: "ModelsFinancialEntry option"
  fh_preview :: "ModelsFinancialPreview option"
  fh_operationId :: string
  fh_payload :: "CreateFinancialEntryInput option"
  fh_alive :: bool
  fh_returnFocus :: bool
  fh_form :: entry_form
  fh_enabled :: bool
  fh_touched :: bool
  fh_active :: "nat option"
  fh_next :: nat
  fh_pending :: "pending option"

datatype history_event = Changed | AddPayment

definition new_history :: "string \<Rightarrow> string \<Rightarrow> string \<Rightarrow> financial_history" where
  "new_history budgetId cotisationId today =
     \<lparr>fh_budgetId = budgetId, fh_cotisationId = cotisationId, fh_cotisation = None, fh_entries = [],
      fh_loading = True, fh_loadError = False, fh_error = None, fh_busy = False, fh_kind = None,
      fh_reversal = None, fh_preview = None, fh_operationId = [], fh_payload = None,
      fh_alive = True, fh_returnFocus = False,
      fh_form = \<lparr>en_amount = Some 0, en_direction = ''increase'', en_date = today,
        en_reason = [], en_reference = []\<rparr>,
      fh_enabled = True, fh_touched = False, fh_active = None, fh_next = 0, fh_pending = None\<rparr>"

subsection \<open>The ledger\<close>

definition fh_members :: "financial_history \<Rightarrow> string option" where
  "fh_members s =
     (let names = join_str '', '' (map (\<lambda>m. nullish (mem_first_name m) ''undefined'' @ '' '' @
                 nullish (mem_last_name m) ''undefined'')
               (nullish (Option.bind (Option.bind (fh_cotisation s) ctr_unit) unt_members) []))
      in if names = [] then None else Some names)"

text \<open>\<open>e.reverses_id === entry.id\<close>: two missing identifiers are equal, \<open>null\<close> is not missing.\<close>

definition reversed :: "ModelsFinancialEntry \<Rightarrow> financial_history \<Rightarrow> bool" where
  "reversed entry s =
     list_ex (\<lambda>e. fen_reverses_id e = map_option Some (fen_id entry)) (fh_entries s)"

definition forget :: "financial_history \<Rightarrow> financial_history" where
  "forget s = s\<lparr>fh_preview := None, fh_payload := None\<rparr>"

definition fh_load :: "financial_history \<Rightarrow> financial_history" where
  "fh_load s =
     (if \<not> fh_alive s then s
      else (forget s)\<lparr>fh_loading := True, fh_loadError := False, fh_active := Some (fh_next s),
        fh_next := Suc (fh_next s)\<rparr>)"

definition fh_load_calls :: "financial_history \<Rightarrow> history_event ui_effect list" where
  "fh_load_calls s =
     (if \<not> fh_alive s then []
      else [Send (ListCotisations (fh_budgetId s)),
            Send (ListFinancialEntries (fh_budgetId s) (fh_cotisationId s))])"

text \<open>\<open>forkJoin\<close> answers once: with both lists, or with the first error.\<close>

definition fh_answer ::
  "api_error + ModelsCotisationResult list \<times> ModelsFinancialEntry list \<Rightarrow>
   financial_history \<Rightarrow> financial_history" where
  "fh_answer r s =
     (case r of
        Inr (rows, entries) \<Rightarrow>
          (let c = List.find (\<lambda>c. ctr_id c = Some (fh_cotisationId s)) rows
           in s\<lparr>fh_cotisation := c, fh_entries := entries, fh_loading := False,
                fh_loadError := (c = None)\<rparr>)
      | Inl _ \<Rightarrow> s\<lparr>fh_loading := False, fh_loadError := True\<rparr>)"

definition fh_deliver ::
  "financial_history \<Rightarrow> nat \<Rightarrow>
   api_error + ModelsCotisationResult list \<times> ModelsFinancialEntry list \<Rightarrow> financial_history" where
  "fh_deliver s t r =
     (if fh_active s = Some t then fh_answer r (s\<lparr>fh_active := None\<rparr>) else s)"

definition fh_destroy :: "financial_history \<Rightarrow> financial_history" where
  "fh_destroy s = s\<lparr>fh_alive := False, fh_active := None, fh_pending := None\<rparr>"

subsection \<open>An operation\<close>

text \<open>A change of the form, which is possible while it is enabled.\<close>

definition fh_edit :: "entry_form \<Rightarrow> financial_history \<Rightarrow> financial_history" where
  "fh_edit v s =
     (if fh_enabled s then (forget s)\<lparr>fh_form := v, fh_error := None\<rparr> else s)"

definition start ::
  "entry_kind \<Rightarrow> ModelsFinancialEntry option \<Rightarrow> string \<Rightarrow> string \<Rightarrow> financial_history \<Rightarrow>
   financial_history" where
  "start kind entry uuid today s =
     (if fh_busy s \<or> fh_loading s \<or> fh_loadError s then s
      else (forget s)\<lparr>fh_kind := Some kind, fh_reversal := entry, fh_error := None,
        fh_operationId := uuid, fh_touched := False,
        fh_form := \<lparr>en_amount = Some (case entry of None \<Rightarrow> 0 | Some e \<Rightarrow> \<bar>nullish (fen_amount e) 0\<bar>),
          en_direction = ''increase'', en_date = today, en_reason = [], en_reference = []\<rparr>\<rparr>)"

definition fh_cancel :: "financial_history \<Rightarrow> financial_history" where
  "fh_cancel s =
     (if \<not> fh_busy s then (forget s)\<lparr>fh_returnFocus := True, fh_kind := None\<rparr> else s)"

definition entry_form_valid :: "entry_form \<Rightarrow> bool" where
  "entry_form_valid v \<longleftrightarrow>
     money_valid (en_amount v) \<and> required (Some (en_date v)) \<and>
     required (Some (en_reason v)) \<and> max_length 1000 (en_reason v) \<and>
     max_length 200 (en_reference v)"

definition fh_invalid :: "financial_history \<Rightarrow> bool" where
  "fh_invalid s = (fh_enabled s \<and> \<not> entry_form_valid (fh_form s))"

definition entry_payload :: "entry_kind \<Rightarrow> financial_history \<Rightarrow> CreateFinancialEntryInput" where
  "entry_payload kind s =
     (let v = fh_form s in
      \<lparr>cfei_amount = (if kind = Adjustment \<and> en_direction v = ''decrease''
           then map_option uminus (en_amount v) else en_amount v),
       cfei_date = Some (en_date v), cfei_id = Some (fh_operationId s),
       cfei_kind = Some (kind_str kind), cfei_reason = Some (js_trim (en_reason v)),
       cfei_reference = Some (js_trim (en_reference v)),
       cfei_reverses_id = Option.bind (fh_reversal s) fen_id, cfei_version = None\<rparr>)"

text \<open>The two inputs have the same members.\<close>

definition preview_input :: "CreateFinancialEntryInput \<Rightarrow> PreviewFinancialEntryInput" where
  "preview_input p = \<lparr>pfei_amount = cfei_amount p, pfei_date = cfei_date p, pfei_id = cfei_id p,
     pfei_kind = cfei_kind p, pfei_reason = cfei_reason p, pfei_reference = cfei_reference p,
     pfei_reverses_id = cfei_reverses_id p, pfei_version = cfei_version p\<rparr>"

definition review :: "financial_history \<Rightarrow> financial_history \<times> history_event ui_effect list" where
  "review s =
     (case fh_kind s of
        None \<Rightarrow> (s\<lparr>fh_touched := True\<rparr>, [])
      | Some kind \<Rightarrow>
          if fh_busy s \<or> fh_invalid s then (s\<lparr>fh_touched := True\<rparr>, [])
          else (let payload = entry_payload kind s in
            if \<not> truthy_str (cfei_reason payload) then (s\<lparr>fh_error := Some ReasonMissing\<rparr>, [])
            else (s\<lparr>fh_busy := True, fh_enabled := False, fh_error := None,
                     fh_pending := Some (PreviewOf payload)\<rparr>,
              [Send (PreviewFinancialEntry (fh_budgetId s) (fh_cotisationId s) (preview_input payload))])))"

definition said :: "history_error \<Rightarrow> api_error \<Rightarrow> history_error" where
  "said m e = (case err_message e of Some t \<Rightarrow> ServerSays t | None \<Rightarrow> m)"

definition review_answer ::
  "api_error + ModelsFinancialPreview option \<Rightarrow> financial_history \<Rightarrow> financial_history" where
  "review_answer r s =
     (case fh_pending s of
        Some (PreviewOf payload) \<Rightarrow>
          (let s = s\<lparr>fh_pending := None, fh_busy := False, fh_enabled := True\<rparr> in
           case r of
             Inr p \<Rightarrow> s\<lparr>fh_preview := p,
               fh_payload := Some (payload\<lparr>cfei_version := Option.bind p fpv_version\<rparr>)\<rparr>
           | Inl e \<Rightarrow> s\<lparr>fh_error := Some (said PreviewFailed e)\<rparr>)
      | _ \<Rightarrow> s)"

definition fh_confirm :: "financial_history \<Rightarrow> financial_history \<times> history_event ui_effect list" where
  "fh_confirm s =
     (case (fh_preview s, fh_payload s) of
        (Some _, Some payload) \<Rightarrow>
          if fh_busy s then (s, [])
          else (s\<lparr>fh_busy := True, fh_enabled := False, fh_error := None,
                   fh_pending := Some (EntryOf payload)\<rparr>,
            [Send (CreateFinancialEntry (fh_budgetId s) (fh_cotisationId s) payload)])
      | _ \<Rightarrow> (s, []))"

definition confirm_answer ::
  "api_error + ModelsFinancialEntry option \<Rightarrow> financial_history \<Rightarrow>
   financial_history \<times> history_event ui_effect list" where
  "confirm_answer r s =
     (case fh_pending s of
        Some (EntryOf _) \<Rightarrow>
          (let s = s\<lparr>fh_pending := None, fh_busy := False, fh_enabled := True\<rparr> in
           case r of
             Inr _ \<Rightarrow> (let s = fh_cancel s in (fh_load s, fh_load_calls s @ [Emit Changed]))
           | Inl e \<Rightarrow>
               (let s = (forget s)\<lparr>fh_error := Some (said AnswerLost e)\<rparr>
                in (fh_load s, fh_load_calls s)))
      | _ \<Rightarrow> (s, []))"

lemmas history_defs = fh_load_def fh_load_calls_def fh_answer_def fh_deliver_def fh_destroy_def fh_edit_def
  start_def fh_cancel_def review_def review_answer_def fh_confirm_def confirm_answer_def
  forget_def Let_def

subsection \<open>The latest load wins\<close>

definition fh_view ::
  "financial_history \<Rightarrow> (ModelsCotisationResult \<times> ModelsFinancialEntry list) option \<times> bool" where
  "fh_view s =
     (if fh_loadError s then None
      else map_option (\<lambda>c. (c, fh_entries s)) (fh_cotisation s), fh_loading s)"

definition fh_rendered ::
  "string \<Rightarrow> api_error + ModelsCotisationResult list \<times> ModelsFinancialEntry list \<Rightarrow>
   (ModelsCotisationResult \<times> ModelsFinancialEntry list) option \<times> bool" where
  "fh_rendered cid r =
     (case r of
        Inr (rows, entries) \<Rightarrow>
          map_option (\<lambda>c. (c, entries)) (List.find (\<lambda>c. ctr_id c = Some cid) rows)
      | Inl _ \<Rightarrow> None, False)"

definition fh_inv :: "string \<Rightarrow> financial_history \<Rightarrow> bool" where
  "fh_inv cid s \<longleftrightarrow> fh_alive s \<and> fh_cotisationId s = cid"

interpretation history:
  latest_source fh_load fh_deliver fh_active fh_next fh_view "fh_rendered cid" "fh_inv cid" for cid
  by unfold_locales
    (auto simp: fh_inv_def history_defs fh_view_def fh_rendered_def split: sum.split)

subsection \<open>Runs\<close>

inductive history_step :: "financial_history \<Rightarrow> financial_history \<Rightarrow> bool" where
  load: "history_step s (fh_load s)"
| deliver: "history_step s (fh_deliver s t r)"
| edit: "history_step s (fh_edit v s)"
| start: "history_step s (start kind entry uuid today s)"
| cancel: "history_step s (fh_cancel s)"
| review: "history_step s (fst (review s))"
| reviewed: "history_step s (review_answer pr s)"
| confirm: "history_step s (fst (fh_confirm s))"
| confirmed: "history_step s (fst (confirm_answer cr s))"
| destroy: "history_step s (fh_destroy s)"

inductive history_reachable :: "string \<Rightarrow> string \<Rightarrow> financial_history \<Rightarrow> bool" for b c where
  new: "history_reachable b c (new_history b c today)"
| step: "history_reachable b c s \<Longrightarrow> history_step s s' \<Longrightarrow> history_reachable b c s'"

text \<open>
  The payload kept for the confirmation is the one of the operation on the form, with the version
  the server previewed, and it passed the validators.
\<close>

definition reviewed_payload :: "CreateFinancialEntryInput \<Rightarrow> financial_history \<Rightarrow> bool" where
  "reviewed_payload p s \<longleftrightarrow>
     (\<exists>kind. fh_kind s = Some kind \<and> p = entry_payload kind s) \<and> entry_form_valid (fh_form s) \<and>
     js_trim (en_reason (fh_form s)) \<noteq> []"

definition operation_inv :: "financial_history \<Rightarrow> bool" where
  "operation_inv s \<longleftrightarrow>
     (fh_enabled s = (\<not> fh_busy s)) \<and>
     (\<forall>p. fh_pending s = Some (PreviewOf p) \<longrightarrow> fh_busy s \<and> reviewed_payload p s) \<and>
     (\<forall>p. fh_pending s = Some (EntryOf p) \<longrightarrow> fh_busy s) \<and>
     (\<forall>p. fh_payload s = Some p \<longrightarrow>
        (\<exists>p'. reviewed_payload p' s \<and>
           p = p'\<lparr>cfei_version := Option.bind (fh_preview s) fpv_version\<rparr>))"

text \<open>Only the form, the kind, the operation and the reversed entry make a payload.\<close>

lemma reviewed_payload_cong:
  assumes "fh_form s' = fh_form s" and "fh_kind s' = fh_kind s"
    and "fh_operationId s' = fh_operationId s" and "fh_reversal s' = fh_reversal s"
  shows "reviewed_payload p s' = reviewed_payload p s"
  using assms by (simp add: reviewed_payload_def entry_payload_def)

lemma op_inv_keep:
  assumes "operation_inv s" and "fh_form s' = fh_form s" and "fh_kind s' = fh_kind s"
    and "fh_operationId s' = fh_operationId s" and "fh_reversal s' = fh_reversal s"
    and "fh_enabled s' = (\<not> fh_busy s')"
    and "fh_pending s' = None \<or> (fh_pending s' = fh_pending s \<and> fh_busy s' = fh_busy s)"
    and "fh_payload s' = None \<or> (fh_payload s' = fh_payload s \<and> fh_preview s' = fh_preview s)"
  shows "operation_inv s'"
proof -
  note c = reviewed_payload_cong [OF assms(2-5)]
  have "fh_payload s' = Some p \<Longrightarrow> fh_payload s = Some p \<and> fh_preview s' = fh_preview s" for p
    using assms(8) by auto
  moreover have "fh_pending s' = Some q \<Longrightarrow> fh_pending s = Some q \<and> fh_busy s' = fh_busy s" for q
    using assms(7) by auto
  ultimately show ?thesis
    using assms(1,6) unfolding operation_inv_def c by fastforce
qed

lemma op_inv_load: "operation_inv s \<Longrightarrow> operation_inv (fh_load s)"
  by (rule op_inv_keep [of s])
    (auto simp: fh_load_def forget_def operation_inv_def)

lemma op_inv_cancel:
  "operation_inv s \<Longrightarrow> operation_inv (fh_cancel s)"
  by (auto simp: fh_cancel_def forget_def operation_inv_def)

lemma op_inv_start: "operation_inv s \<Longrightarrow> operation_inv (start kind entry uuid today s)"
  by (auto simp: start_def forget_def operation_inv_def)

lemma op_inv_edit: "operation_inv s \<Longrightarrow> operation_inv (fh_edit v s)"
  by (auto simp: fh_edit_def forget_def operation_inv_def)

lemma op_inv_deliver: "operation_inv s \<Longrightarrow> operation_inv (fh_deliver s t r)"
  by (rule op_inv_keep [of s])
    (auto simp: fh_deliver_def fh_answer_def operation_inv_def Let_def split: sum.split)

lemma op_inv_sent:
  assumes inv: "operation_inv s" and k: "fh_kind s = Some kind" and b: "\<not> fh_busy s" "\<not> fh_invalid s"
    and r: "truthy_str (cfei_reason (entry_payload kind s))"
  shows "operation_inv (fst (review s))"
proof -
  from inv b have "fh_enabled s" by (simp add: operation_inv_def)
  with b have "entry_form_valid (fh_form s)" by (simp add: fh_invalid_def)
  moreover from r have "js_trim (en_reason (fh_form s)) \<noteq> []" by (simp add: entry_payload_def Let_def)
  ultimately have p: "reviewed_payload (entry_payload kind s) s"
    using k by (simp add: reviewed_payload_def)
  let ?s = "s\<lparr>fh_busy := True, fh_enabled := False, fh_error := None,
     fh_pending := Some (PreviewOf (entry_payload kind s))\<rparr>"
  have c: "reviewed_payload q ?s = reviewed_payload q s" for q
    by (rule reviewed_payload_cong) simp_all
  from k b r have "fst (review s) = ?s" by (simp add: review_def Let_def)
  with inv p show ?thesis by (simp add: operation_inv_def c)
qed

lemma op_inv_review:
  assumes inv: "operation_inv s"
  shows "operation_inv (fst (review s))"
proof (cases "fh_kind s")
  case None
  with inv show ?thesis by - (rule op_inv_keep [of s], simp_all add: review_def operation_inv_def)
next
  case k: (Some kind)
  consider "fh_busy s \<or> fh_invalid s"
    | "\<not> fh_busy s" "\<not> fh_invalid s" "\<not> truthy_str (cfei_reason (entry_payload kind s))"
    | "\<not> fh_busy s" "\<not> fh_invalid s" "truthy_str (cfei_reason (entry_payload kind s))" by blast
  then show ?thesis
  proof cases
    case 1
    with inv k show ?thesis
      by - (rule op_inv_keep [of s], simp_all add: review_def operation_inv_def)
  next
    case 2
    with inv k show ?thesis
      by - (rule op_inv_keep [of s], simp_all add: review_def operation_inv_def Let_def)
  next
    case 3
    with inv k show ?thesis by (intro op_inv_sent) simp_all
  qed
qed

lemma op_inv_reviewed:
  assumes inv: "operation_inv s"
  shows "operation_inv (review_answer r s)"
proof (cases "\<exists>p. fh_pending s = Some (PreviewOf p)")
  case False
  then show ?thesis using inv by (auto simp: review_answer_def split: option.splits pending.splits)
next
  case True
  then obtain p where p: "fh_pending s = Some (PreviewOf p)" by blast
  with inv have rp: "reviewed_payload p s" by (simp add: operation_inv_def)
  show ?thesis
  proof (cases r)
    case (Inl e)
    with p inv show ?thesis
      by - (rule op_inv_keep [of s], simp_all add: review_answer_def Let_def)
  next
    case (Inr v)
    let ?s = "review_answer r s"
    have c: "reviewed_payload q ?s = reviewed_payload q s" for q
      by (rule reviewed_payload_cong) (simp_all add: review_answer_def p Inr Let_def)
    have "fh_pending ?s = None" "fh_enabled ?s" "\<not> fh_busy ?s" "fh_preview ?s = v"
      "fh_payload ?s = Some (p\<lparr>cfei_version := Option.bind v fpv_version\<rparr>)"
      by (simp_all add: review_answer_def p Inr Let_def)
    with rp show ?thesis by (auto simp: operation_inv_def c)
  qed
qed

lemma op_inv_confirm:
  assumes "operation_inv s"
  shows "operation_inv (fst (fh_confirm s))"
proof (cases "fst (fh_confirm s) = s")
  case False
  then obtain p where p: "fh_payload s = Some p" "\<not> fh_busy s"
    and s': "fst (fh_confirm s) = s\<lparr>fh_busy := True, fh_enabled := False, fh_error := None,
      fh_pending := Some (EntryOf p)\<rparr>" (is "_ = ?s")
    by (auto simp: fh_confirm_def split: option.splits if_splits)
  have c: "reviewed_payload q ?s = reviewed_payload q s" for q
    by (rule reviewed_payload_cong) simp_all
  from assms s' show ?thesis by (simp add: operation_inv_def c)
qed (use assms in simp)

lemma op_inv_confirmed:
  assumes inv: "operation_inv s"
  shows "operation_inv (fst (confirm_answer r s))"
proof (cases "\<exists>p. fh_pending s = Some (EntryOf p)")
  case False
  then show ?thesis using inv by (auto simp: confirm_answer_def split: option.splits pending.splits)
next
  case True
  then obtain p where p: "fh_pending s = Some (EntryOf p)" by blast
  let ?s = "s\<lparr>fh_pending := None, fh_busy := False, fh_enabled := True\<rparr>"
  from inv have s: "operation_inv ?s" by (rule op_inv_keep) simp_all
  show ?thesis
  proof (cases r)
    case (Inl e)
    have "operation_inv ((forget ?s)\<lparr>fh_error := Some (said AnswerLost e)\<rparr>)"
      using s by (rule op_inv_keep) (simp_all add: forget_def)
    with p Inl show ?thesis by (simp add: confirm_answer_def Let_def op_inv_load)
  next
    case (Inr e)
    with p s show ?thesis by (simp add: confirm_answer_def Let_def op_inv_load op_inv_cancel)
  qed
qed

lemma operation_inv_step: "history_step s s' \<Longrightarrow> operation_inv s \<Longrightarrow> operation_inv s'"
proof (induction rule: history_step.induct)
  case (destroy s)
  then show ?case by - (rule op_inv_keep [of s], simp_all add: fh_destroy_def operation_inv_def)
qed (simp_all add: op_inv_load op_inv_deliver op_inv_edit op_inv_start op_inv_cancel op_inv_review
    op_inv_reviewed op_inv_confirm op_inv_confirmed)

lemma reachable_operation_inv: "history_reachable b c s \<Longrightarrow> operation_inv s"
proof (induction rule: history_reachable.induct)
  case (new today)
  show ?case by (simp add: operation_inv_def new_history_def)
qed (blast intro: operation_inv_step)

text \<open>The dialog stays on the budget and the cotisation it was opened for.\<close>

lemma history_step_ids:
  "history_step s s' \<Longrightarrow> fh_budgetId s' = fh_budgetId s \<and> fh_cotisationId s' = fh_cotisationId s"
  by (induction rule: history_step.induct)
    (auto simp: history_defs split: option.split sum.split pending.split)

lemma reachable_ids:
  "history_reachable b c s \<Longrightarrow> fh_budgetId s = b \<and> fh_cotisationId s = c"
  by (induction rule: history_reachable.induct)
    (auto dest: history_step_ids simp: new_history_def)

subsection \<open>Properties\<close>

text \<open>
  C19. What is confirmed is what was previewed: in every run of the dialog, the entry it sends is
  the operation on the form (its identifier, kind, reversed entry, date, trimmed reason and
  reference) with the version of the preview on display, for the budget and the cotisation the
  dialog was opened for; its amount is a positive whole number of cents, negated only for an
  adjustment that decreases, and its reason is not blank.
\<close>
theorem entry_confirmed_as_previewed:
  assumes "history_reachable b c s" and "Send call \<in> set (snd (fh_confirm s))"
  shows "\<exists>kind preview. \<exists>n::nat. fh_kind s = Some kind \<and> fh_preview s = Some preview \<and>
    call = CreateFinancialEntry b c ((entry_payload kind s)\<lparr>cfei_version := fpv_version preview\<rparr>) \<and>
    0 < n \<and> n \<le> 999999999999 \<and>
    cfei_amount (entry_payload kind s) = Some (if kind = Adjustment \<and>
        en_direction (fh_form s) = ''decrease'' then - (of_nat n / 100) else of_nat n / 100) \<and>
    js_trim (en_reason (fh_form s)) \<noteq> [] \<and> length (en_reason (fh_form s)) \<le> 1000"
proof -
  from assms(2) obtain v p where v: "fh_preview s = Some v" "fh_payload s = Some p"
    and call: "call = CreateFinancialEntry (fh_budgetId s) (fh_cotisationId s) p"
    by (auto simp: fh_confirm_def split: option.splits if_splits)
  from reachable_operation_inv [OF assms(1)] v obtain p' where p': "reviewed_payload p' s"
    "p = p'\<lparr>cfei_version := fpv_version v\<rparr>"
    by (auto simp: operation_inv_def)
  then obtain kind where k: "fh_kind s = Some kind" "p' = entry_payload kind s"
    and f: "entry_form_valid (fh_form s)" "js_trim (en_reason (fh_form s)) \<noteq> []"
    by (auto simp: reviewed_payload_def)
  from f(1) have m: "money_valid (en_amount (fh_form s))" and len: "length (en_reason (fh_form s)) \<le> 1000"
    by (simp_all add: entry_form_valid_def max_length_def)
  then obtain x where x: "en_amount (fh_form s) = Some x"
    by (cases "en_amount (fh_form s)") (simp_all add: money_valid_def)
  with m obtain n :: nat where "0 < n" "n \<le> 999999999999" "x = of_nat n / 100"
    using money_valid_cents by auto
  with v k p' f len x call reachable_ids [OF assms(1)] show ?thesis
    by (intro exI [of _ kind] exI [of _ v] exI [of _ n]) (auto simp: entry_payload_def Let_def)
qed

definition sample_preview :: ModelsFinancialPreview where
  "sample_preview = \<lparr>fpv_called_after = Some 90, fpv_called_before = Some 100,
     fpv_paid_after = Some 50, fpv_paid_before = Some 50, fpv_remaining_after = Some 40,
     fpv_version = Some ''v7''\<rparr>"

definition sample_cotisation :: ModelsCotisationResult where
  "sample_cotisation = \<lparr>ctr_adjustment = None, ctr_amount = Some 100, ctr_budget = None,
     ctr_budget_id = Some ''b1'', ctr_created_at = None, ctr_gross_paid = None,
     ctr_id = Some ''c1'', ctr_initial_amount = None, ctr_paid = Some 50,
     ctr_payment_state = None, ctr_refunded = None, ctr_remaining = None, ctr_unit = None,
     ctr_unit_id = None, ctr_updated_at = None\<rparr>"

definition sample_entry_form :: entry_form where
  "sample_entry_form = \<lparr>en_amount = Some 10, en_direction = ''decrease'', en_date = ''2024-05-01'',
     en_reason = '' erreur '', en_reference = []\<rparr>"

definition ready_history :: financial_history where
  "ready_history = fh_deliver (fh_load (new_history ''b1'' ''c1'' ''2024-05-01'')) 0
     (Inr ([sample_cotisation], []))"

definition reviewed_history :: financial_history where
  "reviewed_history = review_answer (Inr (Some sample_preview)) (fst (review
     (fh_edit sample_entry_form (start Adjustment None ''u1'' ''2024-05-01'' ready_history))))"

lemma ready_history_reachable: "history_reachable ''b1'' ''c1'' ready_history"
  unfolding ready_history_def
  by (rule history_reachable.step [OF history_reachable.step [OF history_reachable.new
      history_step.load] history_step.deliver])

lemma reviewed_history_reachable: "history_reachable ''b1'' ''c1'' reviewed_history"
  unfolding reviewed_history_def
  by (rule history_reachable.step [OF history_reachable.step [OF history_reachable.step
      [OF history_reachable.step [OF ready_history_reachable history_step.start]
        history_step.edit] history_step.review] history_step.reviewed])

lemma sample_entry_form_valid: "entry_form_valid sample_entry_form"
proof -
  have "money_valid (Some 10)"
    by (rule iffD2 [OF money_valid_cents]) (intro exI [of _ 1000]; simp)
  then show ?thesis
    by (simp add: entry_form_valid_def sample_entry_form_def required_def max_length_def)
qed

lemma sample_reason: "js_trim '' erreur '' = ''erreur''"
  by (simp add: js_trim_def is_space_def)

definition sample_payload :: CreateFinancialEntryInput where
  "sample_payload = \<lparr>cfei_amount = Some (-10), cfei_date = Some ''2024-05-01'',
     cfei_id = Some ''u1'', cfei_kind = Some ''adjustment'', cfei_reason = Some ''erreur'',
     cfei_reference = Some [], cfei_reverses_id = None, cfei_version = Some ''v7''\<rparr>"

lemma reviewed_history_state:
  "fh_preview reviewed_history = Some sample_preview"
  "fh_payload reviewed_history = Some sample_payload"
  "\<not> fh_busy reviewed_history"
  "fh_budgetId reviewed_history = ''b1''" "fh_cotisationId reviewed_history = ''c1''"
proof -
  define s where "s = fh_edit sample_entry_form (start Adjustment None ''u1'' ''2024-05-01'' ready_history)"
  have r: "fh_loadError ready_history = False" "fh_loading ready_history = False"
    "fh_busy ready_history = False" "fh_enabled ready_history" "fh_pending ready_history = None"
    "fh_budgetId ready_history = ''b1''" "fh_cotisationId ready_history = ''c1''"
    by (simp_all add: ready_history_def history_defs new_history_def sample_cotisation_def)
  then have s: "fh_form s = sample_entry_form" "fh_kind s = Some Adjustment" "fh_operationId s = ''u1''"
    "fh_reversal s = None" "\<not> fh_busy s" "fh_enabled s" "fh_budgetId s = ''b1''"
    "fh_cotisationId s = ''c1''"
    by (simp_all add: s_def start_def fh_edit_def forget_def)
  have p: "(entry_payload Adjustment s)\<lparr>cfei_version := Some ''v7''\<rparr> = sample_payload"
    by (simp add: entry_payload_def s sample_entry_form_def sample_payload_def sample_reason
        js_trim_def [of "[]"])
  have t: "truthy_str (cfei_reason (entry_payload Adjustment s))"
    by (simp add: entry_payload_def s sample_entry_form_def sample_reason)
  have v: "\<not> fh_invalid s" by (simp add: fh_invalid_def s sample_entry_form_valid)
  note d = reviewed_history_def s_def [symmetric] review_def review_answer_def Let_def
  show "fh_preview reviewed_history = Some sample_preview" "\<not> fh_busy reviewed_history"
    "fh_budgetId reviewed_history = ''b1''" "fh_cotisationId reviewed_history = ''c1''"
    by (simp_all add: d s v t)
  show "fh_payload reviewed_history = Some sample_payload"
    using p by (simp add: d s v t sample_preview_def)
qed

theorem entry_confirmed_as_previewed_witness:
  "Send (CreateFinancialEntry ''b1'' ''c1'' sample_payload) \<in> set (snd (fh_confirm reviewed_history)) \<and>
   (\<exists>kind preview. fh_kind reviewed_history = Some kind \<and> fh_preview reviewed_history = Some preview \<and>
      sample_payload = (entry_payload kind reviewed_history)\<lparr>cfei_version := fpv_version preview\<rparr>)"
proof -
  have c: "Send (CreateFinancialEntry ''b1'' ''c1'' sample_payload)
      \<in> set (snd (fh_confirm reviewed_history))"
    by (simp add: fh_confirm_def reviewed_history_state)
  from entry_confirmed_as_previewed [OF reviewed_history_reachable c] c show ?thesis by auto
qed

text \<open>
  The ledger on display is that of the latest load: whatever answers to earlier loads arrive
  late, the answer to the last one decides the cotisation and the entries shown, the error when
  the cotisation is not among the rows, and the end of the loading; nothing is shown from two
  different answers.
\<close>
lemma ledger_latest_wins:
  assumes "fh_alive s" and "\<forall>(t, r) \<in> set late. t \<noteq> fh_next s"
  shows "fh_view (fh_deliver (fold (\<lambda>(t, r) s. fh_deliver s t r) late (fh_load s)) (fh_next s) r) =
    fh_rendered (fh_cotisationId s) r"
proof -
  have "fh_inv (fh_cotisationId s) s" using assms(1) by (simp add: fh_inv_def)
  from history.latest_wins [OF this assms(2)] show ?thesis .
qed

lemma sample_ledger_latest_wins:
  "fh_view (fh_deliver (fold (\<lambda>(t, r) s. fh_deliver s t r)
      [(0, Inl \<lparr>err_message = None, err_status = 500, err_statusText = []\<rparr>)]
      (fh_load (fh_load (new_history ''b1'' ''c1'' ''2024-05-01'')))) 1
      (Inr ([sample_cotisation], []))) = (Some (sample_cotisation, []), False)"
proof -
  let ?s = "fh_load (new_history ''b1'' ''c1'' ''2024-05-01'')"
  have a: "fh_alive ?s" and n: "fh_next ?s = 1" and c: "fh_cotisationId ?s = ''c1''"
    by (simp_all add: history_defs new_history_def)
  have l: "\<forall>(t, r) \<in> set [(0, Inl \<lparr>err_message = None, err_status = 500, err_statusText = []\<rparr>
      :: api_error + ModelsCotisationResult list \<times> ModelsFinancialEntry list)]. t \<noteq> fh_next ?s"
    using n by simp
  from ledger_latest_wins [OF a l, where r = "Inr ([sample_cotisation], [])"] show ?thesis
    by (simp add: n c fh_rendered_def sample_cotisation_def)
qed

end
