(* ===== verification/Sorting_Js.thy ===== *)
theory Sorting_Js
  imports Prelude
begin

text \<open>
  \<open>Array.prototype.sort\<close> with a comparison function. ECMAScript requires the sort to be stable
  and, for a consistent comparison, leaves no other freedom: the result is the one stable
  sorted permutation, which insertion from the right computes. The contract of a comparison
  function is the locale \<open>comparator\<close>; the comparison functions of the components interpret it.
\<close>

fun insert_cmp :: "('a \<Rightarrow> 'a \<Rightarrow> int) \<Rightarrow> 'a \<Rightarrow> 'a list \<Rightarrow> 'a list" where
  "insert_cmp c x [] = [x]"
| "insert_cmp c x (y # ys) = (if c x y \<le> 0 then x # y # ys else y # insert_cmp c x ys)"

fun js_sort :: "('a \<Rightarrow> 'a \<Rightarrow> int) \<Rightarrow> 'a list \<Rightarrow> 'a list" where
  "js_sort c [] = []"
| "js_sort c (x # xs) = insert_cmp c x (js_sort c xs)"

lemma mset_insert_cmp: "mset (insert_cmp c x xs) = add_mset x (mset xs)"
  by (induction xs) auto

lemma mset_js_sort [simp]: "mset (js_sort c xs) = mset xs"
  by (induction xs) (auto simp: mset_insert_cmp)

lemma set_insert_cmp: "set (insert_cmp c x xs) = insert x (set xs)"
  using mset_insert_cmp [of c x xs] by (metis set_mset_add_mset_insert set_mset_mset)

lemma set_js_sort [simp]: "set (js_sort c xs) = set xs"
  by (metis mset_js_sort set_mset_mset)

lemma length_js_sort [simp]: "length (js_sort c xs) = length xs"
  by (metis mset_js_sort size_mset)

lemma distinct_js_sort [simp]: "distinct (js_sort c xs) = distinct xs"
  by (metis mset_js_sort mset_eq_imp_distinct_iff)

lemma js_sort_Nil_iff [simp]: "js_sort c xs = [] \<longleftrightarrow> xs = []"
  by (metis length_0_conv length_js_sort)

text \<open>A comparison that always answers 0 leaves the list as it is.\<close>

lemma js_sort_zero: "js_sort (\<lambda>a b. 0) xs = xs"
proof (induction xs)
  case (Cons x xs)
  then show ?case by (cases xs) auto
qed simp

lemma js_sort_sorted_id: "sorted_wrt (\<lambda>a b. c a b \<le> 0) xs \<Longrightarrow> js_sort c xs = xs"
proof (induction xs)
  case (Cons x xs)
  then show ?case by (cases xs) auto
qed simp

locale comparator =
  fixes cmp :: "'a \<Rightarrow> 'a \<Rightarrow> int"
  assumes total: "0 < cmp x y \<Longrightarrow> cmp y x \<le> 0"
    and trans: "cmp x y \<le> 0 \<Longrightarrow> cmp y z \<le> 0 \<Longrightarrow> cmp x z \<le> 0"
begin

lemma sorted_insert_cmp:
  "sorted_wrt (\<lambda>a b. cmp a b \<le> 0) xs \<Longrightarrow> sorted_wrt (\<lambda>a b. cmp a b \<le> 0) (insert_cmp cmp x xs)"
proof (induction xs)
  case (Cons y ys)
  show ?case
  proof (cases "cmp x y \<le> 0")
    case True
    with Cons.prems show ?thesis by (auto intro: trans)
  next
    case False
    then have "cmp y x \<le> 0" by (intro total) simp
    with False Cons show ?thesis by (auto simp: set_insert_cmp)
  qed
qed simp

lemma sorted: "sorted_wrt (\<lambda>a b. cmp a b \<le> 0) (js_sort cmp xs)"
  by (induction xs) (auto simp: sorted_insert_cmp)

lemma head_least: "x \<in> set xs \<Longrightarrow> cmp (hd (js_sort cmp xs)) x \<le> 0 \<or> hd (js_sort cmp xs) = x"
proof -
  assume x: "x \<in> set xs"
  then obtain y ys where s: "js_sort cmp xs = y # ys" by (cases "js_sort cmp xs") auto
  with x have "x \<in> set (y # ys)" by (metis set_js_sort)
  then show ?thesis using sorted [of xs] s by auto
qed

text \<open>
  Stability: among elements the comparison cannot tell apart from a given one, the order of
  the input is kept.
\<close>

lemma filter_insert_cmp:
  assumes "\<And>a b. P a \<Longrightarrow> P b \<Longrightarrow> cmp a b \<le> 0"
  shows "filter P (insert_cmp cmp x xs) = (if P x then x # filter P xs else filter P xs)"
  using assms by (induction xs) auto

lemma stable:
  "(\<And>a b. P a \<Longrightarrow> P b \<Longrightarrow> cmp a b \<le> 0) \<Longrightarrow> filter P (js_sort cmp xs) = filter P xs"
  by (induction xs) (simp_all add: filter_insert_cmp)

end

text \<open>
  \<open>a.k - b.k\<close> on an integer key is a comparison, and so are two comparisons chained by
  \<open>||\<close> (the second decides where the first answers 0).
\<close>

definition cmp_key :: "('a \<Rightarrow> int) \<Rightarrow> 'a \<Rightarrow> 'a \<Rightarrow> int" where
  "cmp_key k a b = k a - k b"

interpretation key: comparator "cmp_key k"
  by unfold_locales (auto simp: cmp_key_def)

lemma sorted_cmp_key: "sorted (map k (js_sort (cmp_key k) xs))"
  using key.sorted [of k xs] by (simp add: cmp_key_def sorted_wrt_map)

text \<open>
  An order of the kind \<open>localeCompare\<close> gives: the sign turns with the arguments, and it is
  transitive. Its opposite is one too, so that it sorts in either direction.
\<close>

definition collation :: "('a \<Rightarrow> 'a \<Rightarrow> int) \<Rightarrow> bool" where
  "collation c \<longleftrightarrow> (\<forall>x y. (0 < c x y) = (c y x < 0)) \<and>
     (\<forall>x y z. c x y \<le> 0 \<longrightarrow> c y z \<le> 0 \<longrightarrow> c x z \<le> 0)"

lemma collationD:
  assumes "collation c"
  shows "c x y < 0 \<longleftrightarrow> 0 < c y x" and "c x y = 0 \<longleftrightarrow> c y x = 0"
    and "c x y \<le> 0 \<Longrightarrow> c y z \<le> 0 \<Longrightarrow> c x z \<le> 0"
  using assms unfolding collation_def by (metis, metis less_irrefl linorder_neqE, blast)

lemma collation_chain:
  assumes "collation c" and "collation d"
  shows "collation (\<lambda>a b. if c (f a) (f b) \<noteq> 0 then c (f a) (f b) else d (g a) (g b))"
  unfolding collation_def
proof (intro conjI allI impI)
  fix x y z
  let ?k = "\<lambda>a b. if c (f a) (f b) \<noteq> 0 then c (f a) (f b) else d (g a) (g b)"
  show "(0 < ?k x y) = (?k y x < 0)"
    using collationD [OF assms(1), of "f x" "f y"] collationD [OF assms(1), of "f y" "f x"]
      collationD(1) [OF assms(2), of "g y" "g x"] by auto
  assume "?k x y \<le> 0" and "?k y z \<le> 0"
  then have c: "c (f x) (f y) \<le> 0" "c (f y) (f z) \<le> 0" by (auto split: if_splits)
  then have xz: "c (f x) (f z) \<le> 0" by (rule collationD(3) [OF assms(1)])
  show "?k x z \<le> 0"
  proof (cases "c (f x) (f z) = 0")
    case True
    then have zx: "c (f z) (f x) \<le> 0" using collationD(2) [OF assms(1), of "f x" "f z"] by simp
    have "c (f y) (f x) \<le> 0" by (rule collationD(3) [OF assms(1) c(2) zx])
    moreover have "c (f z) (f y) \<le> 0" by (rule collationD(3) [OF assms(1) zx c(1)])
    ultimately have "c (f x) (f y) = 0" "c (f y) (f z) = 0"
      using c collationD(1) [OF assms(1)] by (metis antisym_conv1 leD order_le_less)+
    with \<open>?k x y \<le> 0\<close> \<open>?k y z \<le> 0\<close> True show ?thesis
      using collationD(3) [OF assms(2)] by auto
  qed (use xz in simp)
qed

lemma collation_vimage: "collation c \<Longrightarrow> collation (\<lambda>a b. c (f a) (f b))"
  by (auto simp: collation_def)

lemma collation_comparator: "collation c \<Longrightarrow> comparator c"
  by (auto simp: collation_def comparator_def)

lemma collation_opposite:
  assumes "collation c"
  shows "collation (\<lambda>a b. - c a b)"
  unfolding collation_def
proof (intro conjI allI impI)
  fix x y z
  show "(0 < - c x y) = (- c y x < 0)" using collationD(1) [OF assms, of x y] by linarith
  assume "- c x y \<le> 0" "- c y z \<le> 0"
  then have "c z y \<le> 0" "c y x \<le> 0"
    using collationD(1) [OF assms, of x y] collationD(1) [OF assms, of y z] by linarith+
  then have "c z x \<le> 0" by (rule collationD(3) [OF assms])
  then show "- c x z \<le> 0" using collationD(1) [OF assms, of x z] by linarith
qed

text \<open>Sorting depends on the comparison of the elements of the list only.\<close>

lemma js_sort_cong:
  "(\<And>a b. a \<in> set xs \<Longrightarrow> b \<in> set xs \<Longrightarrow> c a b = d a b) \<Longrightarrow> js_sort c xs = js_sort d xs"
proof (induction xs)
  case (Cons x xs)
  have "insert_cmp c x ys = insert_cmp d x ys" if "set ys \<subseteq> set xs" for ys
    using that Cons.prems by (induction ys) auto
  with Cons show ?case by simp
qed simp

end
