(* ===== verification/Users.thy ===== *)
theory Users
  imports Forms Data_Sources Sorting_Js
begin

text \<open>
  \<open>users/\<close>: the labels of accounts and permissions (\<open>user-labels.ts\<close>), the form of an account's
  rights and the list of accounts with its access decisions. The locale-aware order of labels is
  a parameter; an action is assumed not to be the name of an inherited member of a record (such
  as \<open>constructor\<close>).
\<close>

subsection \<open>Labels\<close>

definition accessState :: "AuthUser \<Rightarrow> string" where
  "accessState u = nullish (usr_access_status u)
     (if truthy_bool (usr_enabled u) then ''active'' else ''disabled'')"

definition provider_name :: "AuthUserIdentity \<Rightarrow> string" where
  "provider_name i =
     (if idn_issuer i = Some ''https://accounts.google.com'' then ''Google''
      else if (case idn_issuer i of None \<Rightarrow> False | Some s \<Rightarrow> str_includes s ''/realms/'')
      then ''Keycloak'' else ''Fournisseur OIDC'')"

definition no_identity :: string where
  "no_identity = ''Identit'' @ [CHR 0xE9] @ '' non associ'' @ [CHR 0xE9] @ ''e''"

definition providerLabel :: "AuthUser \<Rightarrow> string" where
  "providerLabel u =
     (let names = join_str '', '' (js_set (map provider_name (nullish (usr_identities u) [])))
      in if names = [] then no_identity else names)"

definition permissions :: "string list" where
  "permissions =
     [''budget.CreateBudget'', ''budget.UpdateBudget'', ''budget.DeleteBudget'',
      ''budget.PublishBudget'', ''budget.CreateExpense'', ''budget.UpdateExpense'',
      ''budget.DeleteExpense'', ''budget.CreatePayment'', ''budget.UpdatePayment'',
      ''budget.DeletePayment'', ''budget.CreateRefund'', ''budget.CreateAdjustment'',
      ''budget.SendEmail'', ''email.CreateEmailTemplate'', ''email.UpdateEmailTemplate'',
      ''email.DeleteEmailTemplate'', ''email.AddAttachment'', ''email.RemoveAttachment'',
      ''email.CreateEmailCampaign'', ''email.DeleteEmailCampaign'', ''email.DeleteEmail'',
      ''email.SendEmail'', ''email.SetError'', ''member.CreateMember'', ''member.UpdateMember'',
      ''member.DeleteMember'', ''member.LinkUnit'', ''member.UnlinkUnit'', ''unit.CreateUnit'',
      ''unit.UpdateUnit'', ''unit.DeleteUnit'']"

text \<open>A permission has its own text, another action is shown as a historical one.\<close>

datatype permission_label = Permission string | Historical string

definition permissionLabel :: "string \<Rightarrow> permission_label" where
  "permissionLabel action =
     (if action \<in> set permissions then Permission action else Historical action)"

datatype permission_group = BudgetGroup | EmailGroup | MemberGroup | UnitGroup | HistoricalGroup

definition permissionGroup :: "string \<Rightarrow> permission_group" where
  "permissionGroup action =
     (let root = hd (split_char CHR ''.'' action) in
      if root = ''budget'' then BudgetGroup
      else if root = ''email'' then EmailGroup
      else if root = ''member'' then MemberGroup
      else if root = ''unit'' then UnitGroup
      else HistoricalGroup)"

subsection \<open>The form of an account\<close>

datatype user_error = RightsNotSaved | ServerSaid string

record user_form =
  us_user :: "AuthUser option"
  us_groups :: "(permission_group \<times> string list) list"
  us_loadingActions :: bool
  us_actionsError :: bool
  us_saving :: bool
  us_error :: "user_error option"
  us_username :: string
  us_admin :: bool
  us_actions :: "string list"
  us_refused :: bool
  us_enabled :: bool
  us_touched :: bool

datatype user_message = UserFormFor "AuthUser option" | RefreshSession | Decision string "AuthUser"

definition new_user_form :: "AuthUser option \<Rightarrow> user_form" where
  "new_user_form user =
     \<lparr>us_user = user, us_groups = [], us_loadingActions = True, us_actionsError = False,
      us_saving = False, us_error = None,
      us_username = nullish (Option.bind user usr_username) [],
      us_admin = truthy_bool (Option.bind user usr_admin),
      us_actions = nullish (Option.bind user usr_actions) [],
      us_refused = False, us_enabled = True, us_touched = False\<rparr>"

definition loadActions :: "user_form \<Rightarrow> user_form \<times> user_message ui_effect list" where
  "loadActions s =
     (if us_saving s then (s, [])
      else (s\<lparr>us_loadingActions := True, us_actionsError := False\<rparr>, [Send ListActions]))"

fun group_actions ::
  "string list \<Rightarrow> (permission_group \<times> string list) list \<Rightarrow> (permission_group \<times> string list) list" where
  "group_actions [] groups = groups"
| "group_actions (action # as) groups =
     (let g = permissionGroup action
      in group_actions as (omap_set g (nullish (map_of groups g) [] @ [action]) groups))"

text \<open>\<open>cmp\<close> is \<open>localeCompare\<close> in French.\<close>

definition action_groups ::
  "(permission_label \<Rightarrow> permission_label \<Rightarrow> int) \<Rightarrow> string list \<Rightarrow> string list \<Rightarrow>
   (permission_group \<times> string list) list" where
  "action_groups cmp actions held =
     map (\<lambda>(label, as). (label, js_sort (\<lambda>a b. cmp (permissionLabel a) (permissionLabel b)) as))
       (group_actions (js_set (actions @ held)) [])"

definition actions_answer ::
  "(permission_label \<Rightarrow> permission_label \<Rightarrow> int) \<Rightarrow> api_error + string list \<Rightarrow> user_form \<Rightarrow> user_form" where
  "actions_answer cmp r s =
     (case r of
        Inr actions \<Rightarrow>
          s\<lparr>us_groups := action_groups cmp actions (nullish (Option.bind (us_user s) usr_actions) []),
            us_loadingActions := False\<rparr>
      | Inl _ \<Rightarrow> s\<lparr>us_loadingActions := False, us_actionsError := True\<rparr>)"

definition user_form_cancel :: "user_form \<Rightarrow> user_message ui_effect list" where
  "user_form_cancel s = (if \<not> us_saving s then [CloseDialog False] else [])"

definition user_form_invalid :: "user_form \<Rightarrow> bool" where
  "user_form_invalid s =
     (us_enabled s \<and>
      (us_refused s \<or> \<not> (required (Some (us_username s)) \<and> max_length 320 (us_username s))))"

text \<open>
  A member whose value is undefined is not sent. The body of a creation has the same members as
  that of a modification, except the date of the account, which does not exist yet.
\<close>

definition user_request :: "user_form \<Rightarrow> api_call" where
  "user_request s =
     (let name = Some (js_trim (us_username s));
          enabled = Some (nullish (Option.bind (us_user s) usr_enabled) False)
      in case Option.bind (us_user s) usr_id of
           Some (i # is) \<Rightarrow> UpdateUser (i # is)
             \<lparr>uusi_access_decision = None, uusi_actions = Some (us_actions s),
              uusi_admin = Some (us_admin s), uusi_enabled = enabled,
              uusi_expected_updated_at = map_option Some (Option.bind (us_user s) usr_updated_at),
              uusi_username = name\<rparr>
         | _ \<Rightarrow> CreateUser
             \<lparr>cusi_actions = Some (us_actions s), cusi_admin = Some (us_admin s),
              cusi_enabled = enabled, cusi_username = name\<rparr>)"

definition user_form_submit :: "user_form \<Rightarrow> user_form \<times> user_message ui_effect list" where
  "user_form_submit s =
     (if us_saving s \<or> us_loadingActions s \<or> us_actionsError s then (s, [])
      else if user_form_invalid s then (s\<lparr>us_touched := True\<rparr>, [])
      else if js_trim (us_username s) = [] then (s\<lparr>us_refused := True\<rparr>, [])
      else (s\<lparr>us_saving := True, us_error := None, us_enabled := False\<rparr>, [Send (user_request s)]))"

definition user_form_answer ::
  "api_error + AuthUser option \<Rightarrow> user_form \<Rightarrow> user_form \<times> user_message ui_effect list" where
  "user_form_answer r s =
     (case r of
        Inr _ \<Rightarrow> (s, [CloseDialog True])
      | Inl e \<Rightarrow> (s\<lparr>us_saving := False, us_enabled := True,
          us_error := Some (case err_message e of Some m \<Rightarrow> ServerSaid m | None \<Rightarrow> RightsNotSaved)\<rparr>, []))"

definition user_form_edit ::
  "string \<times> bool \<times> string list \<Rightarrow> user_form \<Rightarrow> user_form" where
  "user_form_edit v s =
     (if us_enabled s
      then s\<lparr>us_username := fst v, us_admin := fst (snd v), us_actions := snd (snd v),
             us_refused := False\<rparr>
      else s)"

interpretation user_form:
  submit_guard user_form_submit user_form_answer user_form_edit sends us_saving
  by unfold_locales
    (auto simp: user_form_submit_def user_form_answer_def user_form_edit_def split: sum.split)

subsection \<open>The list of accounts and its decisions\<close>

datatype decision = Approve | Reject | Disable | Reactivate

fun decision_str :: "decision \<Rightarrow> string" where
  "decision_str Approve = ''approve''"
| "decision_str Reject = ''reject''"
| "decision_str Disable = ''disable''"
| "decision_str Reactivate = ''reactivate''"

text \<open>The dialog of a decision is open, or one of its requests is in flight.\<close>

datatype decide_phase =
    Idle
  | Checking decision
  | Confirming AuthUser decision
  | Updating AuthUser decision

datatype list_error = StateChanged | NotChecked | AccessNotChanged | ListServerSaid string

datatype list_info = RightsSaved | DecisionSaved decision "string option"

record user_list =
  ul_source :: "AuthUser data_source"
  ul_status :: string
  ul_busy :: bool
  ul_info :: "list_info option"
  ul_error :: "list_error option"
  ul_phase :: decide_phase

definition new_user_list :: user_list where
  "new_user_list = \<lparr>ul_source = new_source, ul_status = [], ul_busy = False, ul_info = None,
     ul_error = None, ul_phase = Idle\<rparr>"

definition users_fetch :: "string \<Rightarrow> api_call" where
  "users_fetch status = ListUsers [(''status'', if status = [] then None else Some (QStr status))]"

definition ul_refresh :: "user_list \<Rightarrow> user_list \<times> user_message ui_effect list" where
  "ul_refresh s =
     (s\<lparr>ul_source := user_load (ul_source s)\<rparr>, [Send (users_fetch (ul_status s))])"

definition ul_params ::
  "(string \<Rightarrow> string option) \<Rightarrow> user_list \<Rightarrow> user_list \<times> user_message ui_effect list" where
  "ul_params p s =
     (let status = nullish (p ''status'') [] in
      ul_refresh (s\<lparr>ul_status :=
        if status \<in> set [''active'', ''pending'', ''rejected'', ''disabled''] then status else []\<rparr>))"

definition ul_filter :: "string \<Rightarrow> user_list \<Rightarrow> user_message ui_effect list" where
  "ul_filter status s =
     (if \<not> ul_busy s then [QueryParams [(''status'', if status = [] then None else Some status)]]
      else [])"

definition ul_edit :: "AuthUser option \<Rightarrow> user_list \<Rightarrow> user_message ui_effect list" where
  "ul_edit user s = (if ul_busy s then [] else [Form (UserFormFor user)])"

definition ul_edit_closed :: "bool \<Rightarrow> user_list \<Rightarrow> user_list \<times> user_message ui_effect list" where
  "ul_edit_closed saved s =
     (let (s, out) = ul_refresh s in
      if saved then (s\<lparr>ul_info := Some RightsSaved\<rparr>, out @ [Emit RefreshSession]) else (s, out))"

text \<open>The visible row actions.\<close>

definition row_action_visible :: "decision \<Rightarrow> AuthUser \<Rightarrow> bool" where
  "row_action_visible d u =
     (case d of
        Approve \<Rightarrow> accessState u = ''pending''
      | Reject \<Rightarrow> accessState u = ''pending''
      | Disable \<Rightarrow> accessState u = ''active''
      | Reactivate \<Rightarrow> accessState u \<in> set [''disabled'', ''rejected''])"

definition decide ::
  "AuthUser \<Rightarrow> decision \<Rightarrow> user_list \<Rightarrow> user_list \<times> user_message ui_effect list" where
  "decide user decision s =
     (if ul_busy s then (s, [])
      else (case usr_id user of
          Some (i # is) \<Rightarrow>
            (s\<lparr>ul_busy := True, ul_error := None, ul_info := None, ul_phase := Checking decision\<rparr>,
             [Send (GetUser (i # is))])
        | _ \<Rightarrow> (s, [])))"

definition expected_state :: "decision \<Rightarrow> string option" where
  "expected_state d =
     (if d = Approve \<or> d = Reject then Some ''pending''
      else if d = Disable then Some ''active'' else None)"

definition state_changed :: "AuthUser \<Rightarrow> decision \<Rightarrow> bool" where
  "state_changed u d =
     (case expected_state d of
        Some e \<Rightarrow> accessState u \<noteq> e
      | None \<Rightarrow> accessState u \<notin> set [''disabled'', ''rejected''])"

definition decide_checked ::
  "api_error + AuthUser option \<Rightarrow> user_list \<Rightarrow> user_list \<times> user_message ui_effect list" where
  "decide_checked r s =
     (case ul_phase s of
        Checking decision \<Rightarrow>
          (case r of
             Inl _ \<Rightarrow> (s\<lparr>ul_busy := False, ul_error := Some NotChecked, ul_phase := Idle\<rparr>, [])
           | Inr None \<Rightarrow> (s\<lparr>ul_busy := False, ul_phase := Idle\<rparr>, [])
           | Inr (Some current) \<Rightarrow>
               if state_changed current decision
               then ul_refresh (s\<lparr>ul_busy := False, ul_error := Some StateChanged, ul_phase := Idle\<rparr>)
               else (s\<lparr>ul_phase := Confirming current decision\<rparr>,
                     [Ask (Decision (decision_str decision) current)]))
      | _ \<Rightarrow> (s, []))"

definition decision_body :: "AuthUser \<Rightarrow> decision \<Rightarrow> UpdateUserInput" where
  "decision_body current d =
     \<lparr>uusi_access_decision = Some (decision_str d), uusi_actions = usr_actions current,
      uusi_admin = usr_admin current, uusi_enabled = Some (d = Approve \<or> d = Reactivate),
      uusi_expected_updated_at = map_option Some (usr_updated_at current),
      uusi_username = usr_username current\<rparr>"

definition decide_closed :: "bool \<Rightarrow> user_list \<Rightarrow> user_list \<times> user_message ui_effect list" where
  "decide_closed confirm s =
     (case ul_phase s of
        Confirming current decision \<Rightarrow>
          if \<not> confirm then (s\<lparr>ul_busy := False, ul_phase := Idle\<rparr>, [])
          else (s\<lparr>ul_phase := Updating current decision\<rparr>,
            [Send (UpdateUser (nullish (usr_id current) ''undefined'') (decision_body current decision))])
      | _ \<Rightarrow> (s, []))"

definition decide_answer ::
  "api_error + AuthUser option \<Rightarrow> user_list \<Rightarrow> user_list \<times> user_message ui_effect list" where
  "decide_answer r s =
     (case ul_phase s of
        Updating current decision \<Rightarrow>
          (case r of
             Inr _ \<Rightarrow>
               (let (s, out) = ul_refresh (s\<lparr>ul_busy := False, ul_phase := Idle,
                      ul_info := Some (DecisionSaved decision (usr_username current))\<rparr>)
                in (s, out @ [Emit RefreshSession]))
           | Inl e \<Rightarrow> ul_refresh (s\<lparr>ul_busy := False, ul_phase := Idle,
               ul_error := Some (case err_message e of Some m \<Rightarrow> ListServerSaid m
                 | None \<Rightarrow> AccessNotChanged)\<rparr>))
      | _ \<Rightarrow> (s, []))"

subsection \<open>Runs of the list\<close>

text \<open>
  What happens to the list: its parameters and rows, the form of an account closed, a decision asked
  for on a row, the answer to the request that reads the account again, the dialog closed and the
  answer to the change of the account.
\<close>

datatype decide_event =
    ListParams "string \<Rightarrow> string option"
  | ListRows nat "api_error + AuthUser list"
  | EditClosed bool
  | Decide AuthUser decision
  | is_checked: Checked "api_error + AuthUser option"
  | is_closed: Closed bool
  | Updated "api_error + AuthUser option"

fun decide_handle ::
  "decide_event \<Rightarrow> user_list \<Rightarrow> user_list \<times> user_message ui_effect list" where
  "decide_handle (ListParams p) s = ul_params p s"
| "decide_handle (ListRows t r) s = (s\<lparr>ul_source := ds_deliver (ul_source s) t r\<rparr>, [])"
| "decide_handle (EditClosed saved) s = ul_edit_closed saved s"
| "decide_handle (Decide user d) s = decide user d s"
| "decide_handle (Checked r) s = decide_checked r s"
| "decide_handle (Closed confirm) s = decide_closed confirm s"
| "decide_handle (Updated r) s = decide_answer r s"

text \<open>A run: the events so far, each with what it sent or opened, and the state they led to.\<close>

type_synonym decide_trace = "(decide_event \<times> user_message ui_effect list) list"

inductive decide_run :: "decide_trace \<Rightarrow> user_list \<Rightarrow> bool" where
  start: "decide_run [] new_user_list"
| event: "decide_run tr s \<Longrightarrow>
    decide_run (tr @ [(e, snd (decide_handle e s))]) (fst (decide_handle e s))"

text \<open>
  A trace that ends in the reading of an account for a decision: the row was decided on, its account
  was asked for, and no answer came yet. Then one that ends in the dialog: the answer was the account
  the dialog shows, and the dialog is still open.
\<close>

definition asked_again :: "decision \<Rightarrow> decide_trace \<Rightarrow> bool" where
  "asked_again d tr \<longleftrightarrow>
     (\<exists>before row i between. tr = before @ (Decide row d, [Send (GetUser i)]) # between \<and>
        usr_id row = Some i \<and> i \<noteq> [] \<and> list_all (\<lambda>(e, _). \<not> is_checked e) between)"

definition read_again :: "AuthUser \<Rightarrow> decision \<Rightarrow> decide_trace \<Rightarrow> bool" where
  "read_again u d tr \<longleftrightarrow>
     (\<exists>asked after.
        tr = asked @ (Checked (Inr (Some u)), [Ask (Decision (decision_str d) u)]) # after \<and>
        asked_again d asked \<and> list_all (\<lambda>(e, _). \<not> is_closed e) after)"

definition phase_told :: "decide_trace \<Rightarrow> user_list \<Rightarrow> bool" where
  "phase_told tr s \<longleftrightarrow> (ul_busy s \<longleftrightarrow> ul_phase s \<noteq> Idle) \<and>
     (case ul_phase s of
        Checking d \<Rightarrow> asked_again d tr
      | Confirming u d \<Rightarrow> read_again u d tr \<and> \<not> state_changed u d
      | _ \<Rightarrow> True)"

lemma asked_again_later:
  "asked_again d tr \<Longrightarrow> \<not> is_checked e \<Longrightarrow> asked_again d (tr @ [(e, out)])"
  unfolding asked_again_def by fastforce

lemma read_again_later:
  "read_again u d tr \<Longrightarrow> \<not> is_closed e \<Longrightarrow> read_again u d (tr @ [(e, out)])"
  unfolding read_again_def by fastforce

lemma asked_again_now:
  "usr_id row = Some i \<Longrightarrow> i \<noteq> [] \<Longrightarrow> asked_again d (tr @ [(Decide row d, [Send (GetUser i)])])"
  unfolding asked_again_def by fastforce

lemma read_again_now:
  "asked_again d tr \<Longrightarrow>
   read_again u d (tr @ [(Checked (Inr (Some u)), [Ask (Decision (decision_str d) u)])])"
  unfolding read_again_def by fastforce

lemma ul_refresh_keeps [simp]:
  "ul_busy (fst (ul_refresh s)) = ul_busy s" "ul_phase (fst (ul_refresh s)) = ul_phase s"
  "sends (snd (ul_refresh s)) = [users_fetch (ul_status s)]"
  by (simp_all add: ul_refresh_def)

text \<open>An event that leaves the phase as it is leaves its justification.\<close>

lemma phase_told_kept:
  assumes "phase_told tr s" and "ul_busy s' = ul_busy s" "ul_phase s' = ul_phase s"
    and "\<not> is_checked e \<or> (\<forall>d. ul_phase s \<noteq> Checking d)"
    and "\<not> is_closed e \<or> (\<forall>u d. ul_phase s \<noteq> Confirming u d)"
  shows "phase_told (tr @ [(e, out)]) s'"
  using assms
  by (cases "ul_phase s") (auto simp: phase_told_def asked_again_later read_again_later)

lemma phase_told_idle: "\<not> ul_busy s \<Longrightarrow> ul_phase s = Idle \<Longrightarrow> phase_told tr s"
  by (simp add: phase_told_def)

lemma phase_told_step:
  assumes "phase_told tr s"
  shows "phase_told (tr @ [(e, snd (decide_handle e s))]) (fst (decide_handle e s))"
proof (cases e)
  case (Decide row d)
  show ?thesis
  proof (cases "snd (decide row d s) = []")
    case True
    then have "decide row d s = (s, [])" by (auto simp: decide_def split: option.splits list.splits if_splits)
    with Decide show ?thesis by (simp add: phase_told_kept [OF assms])
  next
    case False
    then obtain i where "usr_id row = Some i" "i \<noteq> []" "snd (decide row d s) = [Send (GetUser i)]"
      "ul_busy (fst (decide row d s))" "ul_phase (fst (decide row d s)) = Checking d"
      by (auto simp: decide_def split: option.splits list.splits if_splits)
    with Decide show ?thesis by (simp add: phase_told_def asked_again_now)
  qed
next
  case (Checked r)
  with assms show ?thesis
    by (cases "ul_phase s")
      (auto simp: decide_checked_def phase_told_def read_again_now read_again_later
        split: sum.split option.split)
next
  case (Closed confirm)
  with assms show ?thesis
    by (cases "ul_phase s") (auto simp: decide_closed_def phase_told_def asked_again_later)
next
  case (Updated r)
  show ?thesis
  proof (cases "ul_phase s")
    case (Updating u d)
    with Updated show ?thesis
      by (auto intro!: phase_told_idle simp: decide_answer_def case_prod_beta Let_def split: sum.split)
  qed (use Updated in \<open>auto simp: decide_answer_def intro: phase_told_kept [OF assms]\<close>)
qed (use assms in \<open>auto intro!: phase_told_kept [OF assms]
    simp: ul_params_def ul_edit_closed_def case_prod_beta Let_def\<close>)

lemma decide_run_told: "decide_run tr s \<Longrightarrow> phase_told tr s"
  by (induction rule: decide_run.induct)
    (simp_all add: phase_told_idle new_user_list_def phase_told_step)

lemma visible_iff_unchanged: "row_action_visible d u \<longleftrightarrow> \<not> state_changed u d"
  by (cases d) (auto simp: row_action_visible_def state_changed_def expected_state_def)

subsection \<open>The groups of permissions\<close>

lemma mset_omap_set:
  assumes "distinct (map fst m)"
  shows "mset (concat (map snd (omap_set k (nullish (map_of m k) [] @ [x]) m))) =
    add_mset x (mset (concat (map snd m)))"
  using assms
proof (induction m)
  case (Cons kv m)
  obtain k' v' where kv: "kv = (k', v')" by fastforce
  show ?case
  proof (cases "k' = k")
    case True
    with kv show ?thesis by (simp add: nullish_def)
  next
    case False
    with Cons kv show ?thesis by simp
  qed
qed (simp add: nullish_def)

lemma omap_set_in:
  "(g, as) \<in> set (omap_set k v m) \<Longrightarrow> (g = k \<and> as = v) \<or> (g, as) \<in> set m"
  by (induction k v m rule: omap_set.induct) (auto split: if_splits)

lemma group_actions_facts:
  assumes "distinct (map fst gs)" and "\<forall>(g, as) \<in> set gs. \<forall>a \<in> set as. permissionGroup a = g"
  shows "distinct (map fst (group_actions as gs)) \<and>
    mset (concat (map snd (group_actions as gs))) = mset as + mset (concat (map snd gs)) \<and>
    (\<forall>(g, xs) \<in> set (group_actions as gs). \<forall>a \<in> set xs. permissionGroup a = g)"
  using assms
proof (induction as arbitrary: gs)
  case (Cons a as)
  let ?g = "permissionGroup a"
  let ?gs = "omap_set ?g (nullish (map_of gs ?g) [] @ [a]) gs"
  have d: "distinct (map fst ?gs)" using Cons.prems(1) by (rule distinct_omap_set)
  have "\<forall>x \<in> set (nullish (map_of gs ?g) []). permissionGroup x = ?g"
  proof (cases "map_of gs ?g")
    case (Some xs)
    with Cons.prems(2) show ?thesis by (auto simp: nullish_def dest!: map_of_SomeD)
  qed (simp add: nullish_def)
  then have l: "\<forall>(g, xs) \<in> set ?gs. \<forall>x \<in> set xs. permissionGroup x = g"
    using Cons.prems(2) by (auto dest!: omap_set_in)
  from Cons.IH [OF d l] mset_omap_set [OF Cons.prems(1), of ?g a] show ?case
    by (simp add: Let_def)
qed simp

lemma comparator_vimage: "comparator cmp \<Longrightarrow> comparator (\<lambda>a b. cmp (f a) (f b))"
  by (auto simp: comparator_def)

subsection \<open>Properties\<close>

text \<open>
  C21. A decision on an account is only sent when the dialog of that decision is confirmed, and the
  dialog was only opened after the account was read again: in the run that leads there the user
  decided on a row, the request for the account of that row was sent, its answer, the first one
  since, opened the dialog on the account as it was just read, and the dialog was not closed since. That
  account is in a state the decision applies to (the same states in which its row action is
  visible); the change goes to it, keeps its name, its rights and its date of modification as they
  were just read, enables it exactly when the decision is to approve or to reactivate, and no other
  decision is in flight.
\<close>
theorem decision_after_check:
  assumes "decide_run tr s" and "Send (UpdateUser i body) \<in> set (snd (decide_handle e s))"
  shows "e = Closed True \<and>
    (\<exists>before row j between u after d.
       tr = before @ (Decide row d, [Send (GetUser j)]) # between @
         (Checked (Inr (Some u)), [Ask (Decision (decision_str d) u)]) # after \<and>
       usr_id row = Some j \<and> j \<noteq> [] \<and> list_all (\<lambda>(e, _). \<not> is_checked e) between \<and>
       list_all (\<lambda>(e, _). \<not> is_closed e) after \<and> row_action_visible d u \<and>
       i = nullish (usr_id u) ''undefined'' \<and> uusi_access_decision body = Some (decision_str d) \<and>
       uusi_enabled body = Some (d = Approve \<or> d = Reactivate) \<and>
       uusi_admin body = usr_admin u \<and> uusi_actions body = usr_actions u \<and>
       uusi_username body = usr_username u \<and>
       uusi_expected_updated_at body = map_option Some (usr_updated_at u)) \<and>
    ul_busy s \<and> (\<forall>v d'. snd (decide v d' s) = [])"
proof -
  obtain confirm where e: "e = Closed confirm"
    using assms(2)
    by (cases e) (auto simp: ul_params_def ul_edit_closed_def ul_refresh_def users_fetch_def decide_def
        decide_checked_def decide_answer_def Let_def
        split: option.splits list.splits if_splits decide_phase.splits sum.splits)
  with assms(2) obtain u d where ph: "ul_phase s = Confirming u d" and c: "confirm"
    and i: "i = nullish (usr_id u) ''undefined''" and b: "body = decision_body u d"
    by (auto simp: decide_closed_def split: decide_phase.splits if_splits)
  from decide_run_told [OF assms(1)] ph have busy: "ul_busy s" and u: "\<not> state_changed u d"
    and "read_again u d tr" by (simp_all add: phase_told_def)
  then obtain before row j between after where tr: "tr = before @ (Decide row d, [Send (GetUser j)]) #
      between @ (Checked (Inr (Some u)), [Ask (Decision (decision_str d) u)]) # after"
    and j: "usr_id row = Some j" "j \<noteq> []" and q: "list_all (\<lambda>(e, _). \<not> is_checked e) between"
      "list_all (\<lambda>(e, _). \<not> is_closed e) after"
    unfolding read_again_def asked_again_def by fastforce
  have "row_action_visible d u" using u by (simp add: visible_iff_unchanged)
  then show ?thesis
    using e c tr j q i b busy by (auto simp: decision_body_def decide_def intro!: exI)
qed

definition pending_user :: AuthUser where
  "pending_user = \<lparr>usr_access_status = Some ''pending'', usr_actions = None, usr_admin = Some False,
     usr_created_at = None, usr_enabled = Some False, usr_id = Some ''u7'', usr_identities = None,
     usr_tour_version = None, usr_updated_at = Some ''2024'', usr_username = Some ''lea''\<rparr>"

text \<open>The account was renamed since the row was loaded.\<close>

definition renamed_user :: AuthUser where
  "renamed_user = pending_user\<lparr>usr_username := Some ''lea.b'', usr_updated_at := Some ''2025''\<rparr>"

definition confirming_list :: user_list where
  "confirming_list =
     fst (decide_checked (Inr (Some renamed_user)) (fst (decide pending_user Approve new_user_list)))"

theorem decision_after_check_witness:
  "Send (UpdateUser ''u7'' (decision_body renamed_user Approve))
     \<in> set (snd (decide_handle (Closed True) confirming_list)) \<and>
   row_action_visible Approve renamed_user \<and>
   decide_run [(Decide pending_user Approve, [Send (GetUser ''u7'')]),
     (Checked (Inr (Some renamed_user)), [Ask (Decision ''approve'' renamed_user)])] confirming_list"
proof -
  let ?s = "fst (decide pending_user Approve new_user_list)"
  have d: "snd (decide pending_user Approve new_user_list) = [Send (GetUser ''u7'')]"
    "ul_phase ?s = Checking Approve"
    by (simp_all add: decide_def new_user_list_def pending_user_def)
  have n: "\<not> state_changed renamed_user Approve"
    by (simp add: state_changed_def expected_state_def accessState_def nullish_def renamed_user_def
        pending_user_def)
  have k: "snd (decide_checked (Inr (Some renamed_user)) ?s) = [Ask (Decision ''approve'' renamed_user)]"
    "ul_phase confirming_list = Confirming renamed_user Approve"
    by (simp_all add: confirming_list_def decide_checked_def d(2) n)
  have r: "decide_run [(Decide pending_user Approve, [Send (GetUser ''u7'')]),
     (Checked (Inr (Some renamed_user)), [Ask (Decision ''approve'' renamed_user)])] confirming_list"
    using decide_run.event [OF decide_run.event [OF decide_run.start, of "Decide pending_user Approve"],
        of "Checked (Inr (Some renamed_user))"]
    by (simp add: d(1) k(1) confirming_list_def)
  have c: "Send (UpdateUser ''u7'' (decision_body renamed_user Approve))
     \<in> set (snd (decide_handle (Closed True) confirming_list))"
    by (simp add: decide_closed_def k(2) renamed_user_def pending_user_def nullish_def)
  from decision_after_check [OF r c] r c show ?thesis by (auto simp: append_eq_Cons_conv Cons_eq_append_conv)
qed

text \<open>
  The form of an account shows every known action and every action the account holds exactly
  once, in the group of its prefix and nowhere else, each group once and sorted by label,
  whatever consistent order the locale gives to labels.
\<close>
lemma permission_groups_partition:
  assumes "comparator cmp"
  shows "mset (concat (map snd (action_groups cmp actions held))) = mset (js_set (actions @ held)) \<and>
    distinct (map fst (action_groups cmp actions held)) \<and>
    (\<forall>(g, as) \<in> set (action_groups cmp actions held).
       (\<forall>a \<in> set as. permissionGroup a = g) \<and>
       sorted_wrt (\<lambda>a b. cmp (permissionLabel a) (permissionLabel b) \<le> 0) as)"
proof -
  let ?c = "\<lambda>a b. cmp (permissionLabel a) (permissionLabel b)"
  let ?gs = "group_actions (js_set (actions @ held)) []"
  have f: "distinct (map fst ?gs)" "mset (concat (map snd ?gs)) = mset (js_set (actions @ held))"
    "\<forall>(g, xs) \<in> set ?gs. \<forall>a \<in> set xs. permissionGroup a = g"
    using group_actions_facts [of "[]" "js_set (actions @ held)"] by simp_all
  have m: "mset (concat (map snd (map (\<lambda>(l, as). (l, js_sort ?c as)) gs))) = mset (concat (map snd gs))"
    for gs :: "(permission_group \<times> string list) list"
    by (induction gs) auto
  have k: "map fst (map (\<lambda>(l, as). (l, js_sort ?c as)) gs) = map fst gs"
    for gs :: "(permission_group \<times> string list) list"
    by (induction gs) auto
  have "sorted_wrt (\<lambda>a b. ?c a b \<le> 0) (js_sort ?c as)" for as
    by (rule comparator.sorted [OF comparator_vimage [OF assms]])
  then have "\<forall>(g, as) \<in> set (action_groups cmp actions held).
       (\<forall>a \<in> set as. permissionGroup a = g) \<and> sorted_wrt (\<lambda>a b. ?c a b \<le> 0) as"
    using f(3) by (auto simp: action_groups_def)
  with f(1,2) show ?thesis unfolding action_groups_def m k by blast
qed

lemma permission_groups_partition_witness:
  "comparator (\<lambda>(a::permission_label) b. 0) \<and>
   mset (concat (map snd (action_groups (\<lambda>a b. 0) [''unit.CreateUnit'', ''budget.CreateBudget'']
     [''budget.CreateBudget'', ''old'']))) =
   mset [''unit.CreateUnit'', ''budget.CreateBudget'', ''old'']"
proof -
  have c: "comparator (\<lambda>(a::permission_label) b. 0)" by (simp add: comparator_def)
  have "js_set ([''unit.CreateUnit'', ''budget.CreateBudget''] @ [''budget.CreateBudget'', ''old'']) =
      [''unit.CreateUnit'', ''budget.CreateBudget'', ''old'']"
    by (simp add: js_set_def)
  with permission_groups_partition [OF c, of "[''unit.CreateUnit'', ''budget.CreateBudget'']"
      "[''budget.CreateBudget'', ''old'']"] c
  show ?thesis by simp
qed

end
