(* ===== verification/Member_Directory.thy ===== *)
theory Member_Directory
  imports Api_Types Js_Text Sorting_Js
begin

text \<open>
  \<open>members/member-directory.ts\<close>: how the directory compares texts, matches a search and orders
  members. On the first 256 code points the compatibility decomposition is a table; the micro
  sign and the three fractions decompose outside of them and stand for their own decomposition.
  The locale-aware comparison of names is a parameter.
\<close>

subsection \<open>\<open>directoryText\<close>\<close>

text \<open>NFKD without the combining marks, by code point.\<close>

definition unaccented :: "nat \<Rightarrow> nat list" where
  "unaccented n =
     (if n = 160 \<or> n = 168 \<or> n = 175 \<or> n = 180 \<or> n = 184 then [32]
      else if n = 170 then [97] else if n = 178 then [50] else if n = 179 then [51]
      else if n = 185 then [49] else if n = 186 then [111]
      else if 192 \<le> n \<and> n \<le> 197 then [65] else if n = 199 then [67]
      else if 200 \<le> n \<and> n \<le> 203 then [69] else if 204 \<le> n \<and> n \<le> 207 then [73]
      else if n = 209 then [78] else if 210 \<le> n \<and> n \<le> 214 then [79]
      else if 217 \<le> n \<and> n \<le> 220 then [85] else if n = 221 then [89]
      else if 224 \<le> n \<and> n \<le> 229 then [97] else if n = 231 then [99]
      else if 232 \<le> n \<and> n \<le> 235 then [101] else if 236 \<le> n \<and> n \<le> 239 then [105]
      else if n = 241 then [110] else if 242 \<le> n \<and> n \<le> 246 then [111]
      else if 249 \<le> n \<and> n \<le> 252 then [117] else if n = 253 \<or> n = 255 then [121]
      else [n])"

definition lower_code :: "nat \<Rightarrow> nat" where
  "lower_code n = (if (65 \<le> n \<and> n \<le> 90) \<or> (192 \<le> n \<and> n \<le> 222 \<and> n \<noteq> 215) then n + 32 else n)"

text \<open>The ligature becomes two letters, the apostrophe and the hyphen a space.\<close>

definition plain_code :: "nat \<Rightarrow> nat list" where
  "plain_code n = (if n = 230 then [97, 101] else if n = 39 \<or> n = 45 then [32] else [n])"

definition space_code :: "nat \<Rightarrow> bool" where
  "space_code n = (n \<in> {9, 10, 11, 12, 13, 32, 160})"

fun collapse :: "nat list \<Rightarrow> nat list" where
  "collapse [] = []"
| "collapse (c # cs) =
     (if space_code c
      then 32 # (let r = collapse cs in if r \<noteq> [] \<and> hd r = 32 then tl r else r)
      else c # collapse cs)"

definition trim_code :: "nat list \<Rightarrow> nat list" where
  "trim_code s = rev (dropWhile space_code (rev (dropWhile space_code s)))"

definition folded :: "nat \<Rightarrow> nat list" where
  "folded n = concat (map (\<lambda>m. plain_code (lower_code m)) (unaccented n))"

definition codes :: "string \<Rightarrow> nat list" where
  "codes s = map of_char s"

definition directory_codes :: "nat list \<Rightarrow> nat list" where
  "directory_codes ns = trim_code (collapse (concat (map folded ns)))"

definition directoryText :: "string option \<Rightarrow> string" where
  "directoryText value = map char_of (directory_codes (codes (nullish value [])))"

subsection \<open>The directory's text is a normal form\<close>

text \<open>What stays of an accented letter.\<close>

definition plain_letters :: "nat list" where
  "plain_letters = [32, 97, 50, 51, 49, 111, 65, 67, 69, 73, 78, 79, 85, 89, 99, 101, 105, 110, 117, 121]"

lemma if_both: "P a \<Longrightarrow> P b \<Longrightarrow> P (if c then a else b)"
  by simp

lemma unaccented_cases: "unaccented n = [n] \<or> (\<exists>m \<in> set plain_letters. unaccented n = [m])"
  unfolding unaccented_def
  by (intro if_both [where P = "\<lambda>x. x = [n] \<or> (\<exists>m \<in> set plain_letters. x = [m])"])
    (simp_all add: plain_letters_def)

lemma plain_letters_fixed: "m \<in> set plain_letters \<Longrightarrow> unaccented m = [m] \<and> m < 256"
proof -
  have "list_all (\<lambda>m. unaccented m = [m] \<and> m < 256) plain_letters"
    by (simp add: plain_letters_def unaccented_def)
  then show "m \<in> set plain_letters \<Longrightarrow> unaccented m = [m] \<and> m < 256" by (simp add: list_all_iff)
qed

lemma unaccented_twice: "m \<in> set (unaccented n) \<Longrightarrow> unaccented m = [m]"
  using unaccented_cases [of n] plain_letters_fixed by auto

lemma lower_fixed:
  assumes "unaccented m = [m]"
  shows "unaccented (lower_code m) = [lower_code m] \<and> lower_code (lower_code m) = lower_code m"
proof -
  consider "65 \<le> m" "m \<le> 90" | "m \<in> {198, 208, 216, 222}"
    | "192 \<le> m" "m \<le> 222" "m \<noteq> 215" "m \<notin> {198, 208, 216, 222}" | "lower_code m = m"
  proof (cases "(65 \<le> m \<and> m \<le> 90) \<or> (192 \<le> m \<and> m \<le> 222 \<and> m \<noteq> 215)")
    case True
    with that(1-3) show thesis by blast
  next
    case False
    then have "lower_code m = m" unfolding lower_code_def by (rule if_not_P)
    then show thesis by (rule that(4))
  qed
  then show ?thesis
  proof cases
    case 1
    then show ?thesis by (simp add: lower_code_def unaccented_def)
  next
    case 2
    then have "m = 198 \<or> m = 208 \<or> m = 216 \<or> m = 222" by simp
    then show ?thesis by (elim disjE) (simp_all add: lower_code_def unaccented_def)
  next
    case 3
    have "list_all (\<lambda>k. k \<in> {198, 208, 215, 216, 222} \<or> unaccented k \<noteq> [k]) [192..<223]"
      by (simp add: unaccented_def)
    moreover have "m \<in> set [192..<223]" using 3(1,2) unfolding set_upt atLeastLessThan_iff by linarith
    ultimately have "m \<in> {198, 208, 215, 216, 222} \<or> unaccented m \<noteq> [m]" unfolding list_all_iff by blast
    with 3 assms show ?thesis by simp
  next
    case 4
    with assms show ?thesis by simp
  qed
qed

lemma plain_fixed:
  assumes "unaccented x = [x]" and "lower_code x = x" and "y \<in> set (plain_code x)"
  shows "unaccented y = [y] \<and> lower_code y = y \<and> plain_code y = [y]"
proof -
  consider "x = 230" | "x = 39 \<or> x = 45" | "x \<notin> {230, 39, 45}" by blast
  then show ?thesis
  proof cases
    case 1
    with assms(3) have "y = 97 \<or> y = 101" by (simp add: plain_code_def)
    then show ?thesis by (elim disjE) (simp_all add: plain_code_def unaccented_def lower_code_def)
  next
    case 2
    with assms(3) have "y = 32" by (auto simp: plain_code_def)
    then show ?thesis by (simp add: plain_code_def unaccented_def lower_code_def)
  next
    case 3
    then have "plain_code x = [x]" by (simp add: plain_code_def)
    with assms show ?thesis by simp
  qed
qed

lemma folded_stable:
  assumes "m \<in> set (folded n)"
  shows "folded m = [m]"
proof -
  from assms obtain u where u: "u \<in> set (unaccented n)" "m \<in> set (plain_code (lower_code u))"
    by (auto simp: folded_def)
  have l: "unaccented (lower_code u) = [lower_code u]" "lower_code (lower_code u) = lower_code u"
    using lower_fixed [OF unaccented_twice [OF u(1)]] by simp_all
  from plain_fixed [OF l u(2)]
  have "unaccented m = [m] \<and> lower_code m = m \<and> plain_code m = [m]" .
  then show ?thesis by (simp add: folded_def)
qed

lemma folded_bound:
  assumes "n < 256" and "m \<in> set (folded n)"
  shows "m < 256"
proof -
  from assms(2) obtain u where u: "u \<in> set (unaccented n)" "m \<in> set (plain_code (lower_code u))"
    by (auto simp: folded_def)
  from u(1) assms(1) unaccented_cases [of n] plain_letters_fixed have "u < 256" by auto
  then have "lower_code u < 256" by (auto simp: lower_code_def)
  with u(2) show ?thesis by (auto simp: plain_code_def split: if_splits)
qed

lemma folded_id: "\<forall>m \<in> set ns. folded m = [m] \<Longrightarrow> concat (map folded ns) = ns"
  by (induction ns) auto

lemma folded_space: "folded 32 = [32]"
  by (simp add: folded_def unaccented_def lower_code_def plain_code_def)

text \<open>No two spaces in a row, and every one of them is the plain space.\<close>

definition spaced :: "nat list \<Rightarrow> bool" where
  "spaced cs \<longleftrightarrow> successively (\<lambda>a b. \<not> (space_code a \<and> space_code b)) cs \<and>
     (\<forall>c \<in> set cs. space_code c \<longrightarrow> c = 32)"

lemma space_32 [simp]: "space_code 32"
  by (simp add: space_code_def)

lemma spaced_Cons:
  "spaced (c # cs) \<longleftrightarrow> spaced cs \<and> (space_code c \<longrightarrow> c = 32) \<and>
     (cs \<noteq> [] \<longrightarrow> \<not> (space_code c \<and> space_code (hd cs)))"
  by (cases cs) (auto simp: spaced_def)

lemma spaced_collapse: "spaced (collapse cs)"
proof (induction cs)
  case (Cons c cs)
  show ?case
  proof (cases "space_code c")
    case False
    with Cons show ?thesis by (simp add: spaced_Cons)
  next
    case True
    show ?thesis
    proof (cases "collapse cs")
      case Nil
      with True show ?thesis by (simp add: spaced_def)
    next
      case r: (Cons r rs)
      with Cons.IH have sp: "spaced (r # rs)" by simp
      show ?thesis
      proof (cases "r = 32")
        case r32: True
        have "collapse (c # cs) = 32 # rs" using True r r32 by (simp add: Let_def)
        with sp r32 show ?thesis by (simp only:)
      next
        case False
        with sp have "\<not> space_code r" by (simp only: spaced_Cons) blast
        have "collapse (c # cs) = 32 # r # rs" using True r False by (simp add: Let_def)
        with sp \<open>\<not> space_code r\<close> show ?thesis by (simp only: spaced_Cons [of 32] list.sel) simp
      qed
    qed
  qed
qed (simp add: spaced_def)

lemma collapse_spaced: "spaced cs \<Longrightarrow> collapse cs = cs"
proof (induction cs)
  case (Cons c cs)
  then have "collapse cs = cs" by (simp add: spaced_Cons)
  with Cons.prems show ?case by (cases cs) (auto simp: spaced_Cons Let_def)
qed simp

lemma spaced_dropWhile: "spaced cs \<Longrightarrow> spaced (dropWhile space_code cs)"
  by (induction cs) (auto simp: spaced_Cons)

lemma spaced_rev: "spaced (rev cs) = spaced cs"
  by (auto simp: spaced_def elim!: successively_mono)

lemma spaced_trim: "spaced cs \<Longrightarrow> spaced (trim_code cs)"
  by (simp add: trim_code_def spaced_rev spaced_dropWhile)

lemma set_collapse: "set (collapse cs) \<subseteq> insert 32 (set cs)"
proof (induction cs)
  case (Cons c cs)
  have "set (tl (collapse cs)) \<subseteq> set (collapse cs)" by (cases "collapse cs") auto
  with Cons show ?case by (auto simp: Let_def)
qed simp

lemma set_trim: "set (trim_code cs) \<subseteq> set cs"
  by (auto simp: trim_code_def dest!: set_dropWhileD)

lemma trim_ends:
  "trim_code cs \<noteq> [] \<Longrightarrow> \<not> space_code (hd (trim_code cs)) \<and> \<not> space_code (last (trim_code cs))"
proof -
  let ?u = "dropWhile space_code cs"
  assume ne: "trim_code cs \<noteq> []"
  have u: "?u = trim_code cs @ rev (takeWhile space_code (rev ?u))"
    by (metis rev_append rev_rev_ident takeWhile_dropWhile_id trim_code_def)
  from ne u have "hd (trim_code cs) = hd ?u" by (metis hd_append2)
  moreover from ne u have "?u \<noteq> []" by (metis append_is_Nil_conv)
  ultimately have "\<not> space_code (hd (trim_code cs))" by (metis hd_dropWhile)
  moreover have "\<not> space_code (last (trim_code cs))"
    using ne unfolding trim_code_def by (metis hd_dropWhile last_rev rev_is_Nil_conv)
  ultimately show ?thesis by simp
qed

lemma trim_id:
  assumes "cs \<noteq> [] \<Longrightarrow> \<not> space_code (hd cs) \<and> \<not> space_code (last cs)"
  shows "trim_code cs = cs"
proof (cases "cs = []")
  case False
  with assms have "dropWhile space_code cs = cs" by (cases cs) auto
  moreover have "dropWhile space_code (rev cs) = rev cs"
    using assms False by (cases cs rule: rev_cases) auto
  ultimately show ?thesis by (simp add: trim_code_def)
qed (simp add: trim_code_def)

lemma trim_trim: "trim_code (trim_code cs) = trim_code cs"
  by (rule trim_id) (rule trim_ends)

lemma directory_codes_stable: "m \<in> set (directory_codes ns) \<Longrightarrow> folded m = [m]"
  using set_trim set_collapse folded_stable folded_space
  by (fastforce simp: directory_codes_def)

lemma directory_codes_idem: "directory_codes (directory_codes ns) = directory_codes ns"
proof -
  let ?d = "directory_codes ns"
  have "concat (map folded ?d) = ?d" by (rule folded_id) (blast intro: directory_codes_stable)
  moreover have "spaced ?d" unfolding directory_codes_def by (intro spaced_trim spaced_collapse)
  ultimately have "directory_codes ?d = trim_code ?d" by (simp add: directory_codes_def collapse_spaced)
  then show ?thesis by (simp add: directory_codes_def trim_trim)
qed

lemma directory_codes_bound:
  assumes "\<forall>n \<in> set ns. n < 256" and "m \<in> set (directory_codes ns)"
  shows "m < 256"
proof -
  from assms(2) have "m = 32 \<or> m \<in> set (concat (map folded ns))"
    using set_trim set_collapse unfolding directory_codes_def by blast
  with assms(1) show ?thesis by (auto intro: folded_bound)
qed

lemma codes_char_of: "\<forall>n \<in> set ns. n < 256 \<Longrightarrow> codes (map char_of ns) = ns"
  by (induction ns) (simp_all add: codes_def)

lemma codes_bound: "n \<in> set (codes s) \<Longrightarrow> n < 256"
  using nat_of_char_less_256 by (auto simp: codes_def)

lemma codes_directoryText: "codes (directoryText v) = directory_codes (codes (nullish v []))"
  unfolding directoryText_def
  by (rule codes_char_of) (blast intro: directory_codes_bound codes_bound)

lemma directoryText_idem: "directoryText (Some (directoryText v)) = directoryText v"
  by (simp add: directoryText_def [of "Some _"] nullish_def codes_directoryText directory_codes_idem)
     (simp add: directoryText_def nullish_def)

subsection \<open>Members and lots\<close>

definition no_name :: string where
  "no_name = ''Membre sans nom''"

definition memberName :: "ModelsMember \<Rightarrow> string" where
  "memberName m =
     (let name = join_str '' '' (map the (filter truthy_str [mem_first_name m, mem_last_name m]))
      in if name = [] then no_name else name)"

definition sortedMemberUnits :: "ModelsMember \<Rightarrow> ModelsUnit list" where
  "sortedMemberUnits m =
     js_sort (cmp_key (\<lambda>u. nullish (unt_number u) 0)) (nullish (mem_units m) [])"

definition memberOwnsUnit :: "ModelsMember \<Rightarrow> ModelsUnit \<Rightarrow> bool" where
  "memberOwnsUnit m u =
     list_ex (\<lambda>owned.
       if truthy_str (unt_id owned) \<and> truthy_str (unt_id u) then unt_id owned = unt_id u
       else unt_number owned \<noteq> None \<and> unt_number owned = unt_number u)
     (nullish (mem_units m) [])"

definition termsMatch :: "string \<Rightarrow> string \<Rightarrow> bool" where
  "termsMatch text query =
     list_all (str_includes text)
       (filter (\<lambda>t. t \<noteq> []) (split_char CHR '' '' (directoryText (Some query))))"

text \<open>The expression \<open>^lot\s*(\d+)$\<close> and the number of its group.\<close>

fun digits_val :: "nat \<Rightarrow> string \<Rightarrow> nat" where
  "digits_val acc [] = acc"
| "digits_val acc (c # cs) = digits_val (10 * acc + (of_char c - 48)) cs"

definition exact_lot :: "string \<Rightarrow> nat option" where
  "exact_lot q =
     (if \<not> starts_with q ''lot'' then None
      else (let ds = dropWhile is_space (drop 3 q) in
        if ds \<noteq> [] \<and> list_all is_digit ds then Some (digits_val 0 ds) else None))"

definition member_text :: "ModelsMember \<Rightarrow> string" where
  "member_text m =
     directoryText (Some (join_str '' '' (List.map_filter id
       ([mem_first_name m, mem_last_name m, mem_email m, mem_phone_number m,
         map_option (filter is_digit) (mem_phone_number m), mem_address m] @
        concat (map (\<lambda>u. [map_option int_str (unt_number u), unt_address u])
          (nullish (mem_units m) []))))))"

definition memberMatches :: "ModelsMember \<Rightarrow> string \<Rightarrow> bool" where
  "memberMatches m query =
     (case exact_lot (directoryText (Some query)) of
        Some n \<Rightarrow> list_ex (\<lambda>u. unt_number u = Some (int n)) (nullish (mem_units m) [])
      | None \<Rightarrow> termsMatch (member_text m) query)"

definition unitMatches :: "ModelsUnit \<Rightarrow> string \<Rightarrow> bool" where
  "unitMatches u query =
     (case exact_lot (directoryText (Some query)) of
        Some n \<Rightarrow> unt_number u = Some (int n)
      | None \<Rightarrow> termsMatch (directoryText (Some
          ((case unt_number u of None \<Rightarrow> [] | Some n \<Rightarrow> int_str n) @ '' '' @ nullish (unt_address u) [])))
          query)"

text \<open>\<open>coll\<close> is the comparison of names in French, \<open>order\<close> the default one.\<close>

definition compareMembers ::
  "(string \<Rightarrow> string \<Rightarrow> int) \<Rightarrow> (string \<Rightarrow> string \<Rightarrow> int) \<Rightarrow> ModelsMember \<Rightarrow> ModelsMember \<Rightarrow> int" where
  "compareMembers coll order a b =
     (let l = coll (nullish (mem_last_name a) []) (nullish (mem_last_name b) []);
          f = coll (nullish (mem_first_name a) []) (nullish (mem_first_name b) []);
          i = order (nullish (mem_id a) []) (nullish (mem_id b) [])
      in if l \<noteq> 0 then l else if f \<noteq> 0 then f else i)"

subsection \<open>The order of members is a comparison\<close>

text \<open>
  What \<open>localeCompare\<close> promises: the sign of the answer is antisymmetric, and the order it gives
  is transitive.
\<close>

lemma collation_compareMembers:
  assumes "collation coll" and "collation order"
  shows "collation (compareMembers coll order)"
  unfolding compareMembers_def Let_def
  by (intro collation_chain [OF assms(1), where g = "\<lambda>a. a"]
      collation_chain [OF assms(1) assms(2)])

subsection \<open>Properties\<close>

text \<open>
  A search depends only on the normal form of what is typed: accents, case, repeated spaces,
  hyphens and apostrophes never change which members and lots match, because the directory's
  text of a directory's text is itself.
\<close>
lemma search_by_normal_form:
  "directoryText (Some (directoryText v)) = directoryText v \<and>
   memberMatches m (directoryText (Some q)) = memberMatches m q \<and>
   unitMatches u (directoryText (Some q)) = unitMatches u q"
proof -
  have t: "termsMatch x (directoryText (Some q)) = termsMatch x q" for x
    by (simp add: termsMatch_def directoryText_idem)
  show ?thesis by (simp only: memberMatches_def unitMatches_def directoryText_idem t)
qed

lemma digit_codes:
  assumes "is_digit c"
  shows "folded (of_char c) = [of_char c] \<and> \<not> space_code (of_char c) \<and> \<not> is_space c"
proof -
  from assms have "c = CHR ''0'' \<or> c = CHR ''1'' \<or> c = CHR ''2'' \<or> c = CHR ''3'' \<or> c = CHR ''4'' \<or>
      c = CHR ''5'' \<or> c = CHR ''6'' \<or> c = CHR ''7'' \<or> c = CHR ''8'' \<or> c = CHR ''9''"
    by (simp add: is_digit_def)
  then show ?thesis
    by (elim disjE) (simp_all add: folded_def unaccented_def lower_code_def plain_code_def
        space_code_def is_space_def)
qed

lemma folded_digits:
  "list_all is_digit s \<Longrightarrow> concat (map folded (codes s)) = codes s \<and> (\<forall>c \<in> set (codes s). \<not> space_code c)"
  by (induction s) (simp_all add: codes_def digit_codes)

lemma spaced_no_space: "\<forall>c \<in> set cs. \<not> space_code c \<Longrightarrow> spaced cs"
  by (induction cs) (auto simp: spaced_Cons, simp add: spaced_def)

lemma lot_text:
  assumes "list_all is_digit s" and "s \<noteq> []"
  shows "directoryText (Some (''Lot '' @ s)) = ''lot '' @ s"
proof -
  let ?l = "[108, 111, 116, 32] @ codes s"
  note fs = folded_digits [OF assms(1)]
  have f: "concat (map folded (codes (''Lot '' @ s))) = ?l"
    using fs by (simp add: codes_def folded_def unaccented_def lower_code_def plain_code_def)
  have ne: "codes s \<noteq> []" using assms(2) by (simp add: codes_def)
  have lets: "\<not> space_code 108" "\<not> space_code 111" "\<not> space_code 116"
    by (simp_all add: space_code_def)
  have "spaced (codes s)" using fs spaced_no_space by blast
  with fs ne have "spaced ?l" by (simp add: spaced_Cons lets)
  then have c: "collapse ?l = ?l" by (rule collapse_spaced)
  have "trim_code ?l = ?l" using fs ne lets by (intro trim_id) auto
  with c f have "directory_codes (codes (''Lot '' @ s)) = ?l" by (simp add: directory_codes_def)
  then have "directoryText (Some (''Lot '' @ s)) = map char_of ?l"
    by (simp only: directoryText_def nullish_def option.case)
  also have "?l = codes (''lot '' @ s)" by (simp add: codes_def)
  also have "map char_of (codes (''lot '' @ s)) = ''lot '' @ s"
    by (simp only: codes_def map_map comp_def char_of_char map_ident)
  finally show ?thesis .
qed

lemma digits_val_append: "digits_val a (s @ [c]) = 10 * digits_val a s + (of_char c - 48)"
  by (induction s arbitrary: a) simp_all

lemma digit_char_val: "of_char (digit_char d) = (48 + d mod 10 :: nat)"
proof -
  have "d mod 10 = 0 \<or> d mod 10 = 1 \<or> d mod 10 = 2 \<or> d mod 10 = 3 \<or> d mod 10 = 4 \<or> d mod 10 = 5 \<or>
      d mod 10 = 6 \<or> d mod 10 = 7 \<or> d mod 10 = 8 \<or> d mod 10 = 9"
    by presburger
  then show ?thesis by (elim disjE) simp_all
qed

lemma digits_val_nat_str: "digits_val 0 (nat_str n) = n"
proof (induction n rule: nat_str.induct)
  case (1 n)
  show ?case
  proof (cases "n < 10")
    case True
    then show ?thesis
      by (subst nat_str.simps) (simp add: digit_char_val del: digit_char.simps)
  next
    case False
    with 1 show ?thesis
      by (subst nat_str.simps)
        (simp add: digits_val_append digit_char_val del: digit_char.simps)
  qed
qed

text \<open>
  Typing a lot's name selects by number, not by text: the search \<open>Lot n\<close> matches exactly the
  members who own a lot with the number \<open>n\<close> and exactly the lots with that number, so that lot 1
  does not bring lots 10 or 21.
\<close>
lemma search_exact_lot:
  "(memberMatches m (''Lot '' @ nat_str n) \<longleftrightarrow>
     (\<exists>u \<in> set (nullish (mem_units m) []). unt_number u = Some (int n))) \<and>
   (unitMatches u (''Lot '' @ nat_str n) \<longleftrightarrow> unt_number u = Some (int n))"
proof -
  have d: "list_all is_digit (nat_str n)" "nat_str n \<noteq> []" by (simp_all add: nat_str_digits)
  then have "dropWhile is_space (nat_str n) = nat_str n"
    by (cases "nat_str n") (simp_all add: digit_codes)
  then have "exact_lot (''lot '' @ nat_str n) = Some n"
    using d by (simp add: exact_lot_def starts_with_def is_space_def digits_val_nat_str)
  with lot_text [OF d] have e: "exact_lot (directoryText (Some (''Lot '' @ nat_str n))) = Some n"
    by simp
  show ?thesis
    unfolding memberMatches_def unitMatches_def e by (simp add: list_ex_iff)
qed

end
