(* ===== verification/Members.thy ===== *)
theory Members
  imports Member_Directory Data_Sources Forms
begin

text \<open>
  \<open>members/\<close>: the source of the members and lots (\<open>datasources/member.datasource.ts\<close>), the
  directory with its selection (\<open>components/member-list\<close>) and the form of a member with the
  synchronisation of its lots (\<open>components/member-form\<close>).
\<close>

subsection \<open>The source\<close>

text \<open>
  Each load in flight has two requests; its entry holds its ticket, the members when they were
  answered, and whether the lots were. \<open>md_retry\<close> holds for the request of \<open>retryUnits\<close>.
\<close>

record fork =
  fk_ticket :: nat
  fk_members :: "ModelsMember list option"
  fk_units :: bool

record member_source = "ModelsMember data_source" +
  md_query :: string
  md_units :: "ModelsUnit list"
  md_unitsError :: "api_error option"
  md_unitsLoading :: bool
  md_forks :: "fork list"
  md_retry :: bool

definition new_member_source :: member_source where
  "new_member_source = data_source.extend new_source
     (member_source.fields [] [] None False [] False)"

definition md_results :: "member_source \<Rightarrow> ModelsMember list" where
  "md_results s = filter (\<lambda>m. memberMatches m (md_query s)) (ds_results s)"

definition setQuery :: "string \<Rightarrow> member_source \<Rightarrow> member_source" where
  "setQuery q s = (if ds_closed s then s else s\<lparr>md_query := q\<rparr>)"

definition units_loading :: "bool \<Rightarrow> member_source \<Rightarrow> member_source" where
  "units_loading b s = (if ds_closed s then s else s\<lparr>md_unitsLoading := b\<rparr>)"

definition units_next :: "api_error + ModelsUnit list \<Rightarrow> member_source \<Rightarrow> member_source" where
  "units_next r s =
     (if ds_closed s then s
      else (case r of
          Inr units \<Rightarrow> s\<lparr>md_units := units, md_unitsError := None, md_unitsLoading := False\<rparr>
        | Inl e \<Rightarrow> s\<lparr>md_unitsError := Some e, md_unitsLoading := False\<rparr>))"

definition md_load :: "member_source \<Rightarrow> member_source \<times> api_call list" where
  "md_load s =
     (let t = ds_next s; s = units_loading True (ds_load s) in
      (s\<lparr>md_forks := \<lparr>fk_ticket = t, fk_members = None, fk_units = False\<rparr> # md_forks s\<rparr>,
       [ListMembers, ListUnits]))"

definition retryUnits :: "member_source \<Rightarrow> member_source \<times> api_call list" where
  "retryUnits s =
     (if \<not> md_unitsLoading s then ((units_loading True s)\<lparr>md_retry := True\<rparr>, [ListUnits]) else (s, []))"

definition find_fork :: "nat \<Rightarrow> member_source \<Rightarrow> fork option" where
  "find_fork t s = List.find (\<lambda>f. fk_ticket f = t) (md_forks s)"

definition drop_fork :: "nat \<Rightarrow> member_source \<Rightarrow> member_source" where
  "drop_fork t s = s\<lparr>md_forks := filter (\<lambda>f. fk_ticket f \<noteq> t) (md_forks s)\<rparr>"

definition put_fork :: "fork \<Rightarrow> member_source \<Rightarrow> member_source" where
  "put_fork f s =
     s\<lparr>md_forks := map (\<lambda>g. if fk_ticket g = fk_ticket f then f else g) (md_forks s)\<rparr>"

text \<open>\<open>forkJoin\<close> emits when both requests have completed.\<close>

definition settle ::
  "(ModelsMember \<Rightarrow> ModelsMember \<Rightarrow> int) \<Rightarrow> nat \<Rightarrow> member_source \<Rightarrow> member_source" where
  "settle cmp t s =
     (case find_fork t s of
        Some f \<Rightarrow>
          (case fk_members f of
             Some members \<Rightarrow>
               if fk_units f then ds_deliver (drop_fork t s) t (Inr (js_sort cmp members)) else s
           | None \<Rightarrow> s)
      | None \<Rightarrow> s)"

definition md_units_answer ::
  "(ModelsMember \<Rightarrow> ModelsMember \<Rightarrow> int) \<Rightarrow> nat \<Rightarrow> api_error + ModelsUnit list \<Rightarrow>
   member_source \<Rightarrow> member_source" where
  "md_units_answer cmp t r s =
     (case find_fork t s of
        Some f \<Rightarrow>
          if fk_units f then s
          else settle cmp t (put_fork (f\<lparr>fk_units := True\<rparr>) (units_next r s))
      | None \<Rightarrow> s)"

definition md_members_answer ::
  "(ModelsMember \<Rightarrow> ModelsMember \<Rightarrow> int) \<Rightarrow> nat \<Rightarrow> api_error + ModelsMember list \<Rightarrow>
   member_source \<Rightarrow> member_source" where
  "md_members_answer cmp t r s =
     (case find_fork t s of
        Some f \<Rightarrow>
          if fk_members f \<noteq> None then s
          else (case r of
              Inr members \<Rightarrow> settle cmp t (put_fork (f\<lparr>fk_members := Some members\<rparr>) s)
            | Inl e \<Rightarrow>
                (let s = (if fk_units f then s else units_loading False s);
                     s = (if ds_closed s then s else s\<lparr>md_units := []\<rparr>)
                 in ds_deliver (drop_fork t s) t (Inl e)))
      | None \<Rightarrow> s)"

definition md_retry_answer :: "api_error + ModelsUnit list \<Rightarrow> member_source \<Rightarrow> member_source" where
  "md_retry_answer r s = (if md_retry s then units_next r (s\<lparr>md_retry := False\<rparr>) else s)"

definition md_disconnect :: "member_source \<Rightarrow> member_source" where
  "md_disconnect s =
     ds_disconnect ((if md_retry s then units_loading False s else s)\<lparr>md_retry := False, md_forks := []\<rparr>)"

subsection \<open>The directory and its selection\<close>

datatype view = ListView | MapView

record member_list =
  ml_view :: view
  ml_members :: "ModelsMember list"
  ml_filtered :: "ModelsMember list"
  ml_allUnits :: "ModelsUnit list"
  ml_loading :: bool
  ml_loaded :: bool
  ml_error :: bool
  ml_unitsError :: bool
  ml_unitsLoading :: bool
  ml_memberId :: "string option"
  ml_unitNumber :: "int option"
  ml_invalid :: bool
  ml_dialog :: bool

definition new_member_list :: member_list where
  "new_member_list = \<lparr>ml_view = ListView, ml_members = [], ml_filtered = [], ml_allUnits = [],
     ml_loading = True, ml_loaded = False, ml_error = False, ml_unitsError = False,
     ml_unitsLoading = False, ml_memberId = None, ml_unitNumber = None, ml_invalid = False,
     ml_dialog = False\<rparr>"

text \<open>What the subscriptions of \<open>ngOnInit\<close> copy from the source.\<close>

definition observe :: "member_source \<Rightarrow> member_list \<Rightarrow> member_list" where
  "observe d s = s\<lparr>ml_members := ds_results d, ml_filtered := md_results d,
     ml_allUnits := md_units d, ml_loading := ds_loading d, ml_loaded := ds_loaded d,
     ml_error := (ds_error d \<noteq> None), ml_unitsError := (md_unitsError d \<noteq> None),
     ml_unitsLoading := md_unitsLoading d\<rparr>"

definition closeDialog :: "member_list \<Rightarrow> member_list" where
  "closeDialog s = s\<lparr>ml_dialog := False\<rparr>"

definition hasSelection :: "member_list \<Rightarrow> bool" where
  "hasSelection s \<longleftrightarrow> ml_unitNumber s \<noteq> None \<or> truthy_str (ml_memberId s) \<or> ml_invalid s"

definition syncDialog :: "member_list \<Rightarrow> member_list" where
  "syncDialog s =
     (if ml_view s \<noteq> MapView \<or> \<not> hasSelection s then closeDialog s else s\<lparr>ml_dialog := True\<rparr>)"

type_synonym query_params = "(string \<times> string option) list"

definition syncRoute :: "member_list \<Rightarrow> query_params" where
  "syncRoute s =
     [(''view'', if ml_view s = MapView then Some ''map'' else None),
      (''member'', ml_memberId s),
      (''lot'', map_option int_str (ml_unitNumber s))]"

definition max_safe :: int where
  "max_safe = 2 ^ 53 - 1"

text \<open>\<open>^\d+$\<close>, and a value that is a safe integer.\<close>

definition parse_lot :: "string \<Rightarrow> int option" where
  "parse_lot lot =
     (if lot \<noteq> [] \<and> list_all is_digit lot \<and> int (digits_val 0 lot) \<le> max_safe
      then Some (int (digits_val 0 lot)) else None)"

definition route_next :: "(string \<Rightarrow> string option) \<Rightarrow> member_list \<Rightarrow> member_list" where
  "route_next params s =
     (let lot = params ''lot'';
          invalid = (case lot of None \<Rightarrow> False | Some l \<Rightarrow> parse_lot l = None)
      in syncDialog (s\<lparr>ml_view := (if params ''view'' = Some ''map'' then MapView else ListView),
           ml_invalid := invalid,
           ml_unitNumber := (if invalid then None else Option.bind lot parse_lot),
           ml_memberId := (if lot = None then params ''member'' else None)\<rparr>))"

definition query_next :: "member_list \<Rightarrow> member_list \<times> query_params" where
  "query_next s =
     (let s = syncDialog (s\<lparr>ml_memberId := None, ml_unitNumber := None, ml_invalid := False\<rparr>)
      in (s, syncRoute s))"

definition setView :: "string \<Rightarrow> member_list \<Rightarrow> member_list \<times> query_params" where
  "setView v s =
     (let s = syncDialog (s\<lparr>ml_view := (if v = ''map'' then MapView else ListView)\<rparr>)
      in (s, syncRoute s))"

definition selectMember :: "ModelsMember \<Rightarrow> member_list \<Rightarrow> member_list \<times> query_params option" where
  "selectMember m s =
     (if \<not> truthy_str (mem_id m) then (s, None)
      else (let s = s\<lparr>ml_view := MapView, ml_memberId := mem_id m, ml_unitNumber := None,
                      ml_invalid := False\<rparr>
            in (syncDialog s, Some (syncRoute s))))"

definition selectUnit :: "int option \<Rightarrow> member_list \<Rightarrow> member_list \<times> query_params option" where
  "selectUnit number s =
     (case number of
        None \<Rightarrow> (s, None)
      | Some n \<Rightarrow>
          if n > max_safe \<or> n < 0 then (s, None)
          else (let s = s\<lparr>ml_view := MapView, ml_unitNumber := Some n, ml_memberId := None,
                          ml_invalid := False\<rparr>
                in (syncDialog s, Some (syncRoute s))))"

definition clearSelection :: "member_list \<Rightarrow> member_list \<times> query_params" where
  "clearSelection s =
     (let s = s\<lparr>ml_memberId := None, ml_unitNumber := None, ml_invalid := False\<rparr>
      in (syncDialog s, syncRoute s))"

text \<open>The user closes the dialog of the selection.\<close>

definition dialog_closed :: "member_list \<Rightarrow> member_list \<times> query_params option" where
  "dialog_closed s =
     (if \<not> ml_dialog s then (s, None)
      else (let (s, q) = clearSelection (s\<lparr>ml_dialog := False\<rparr>) in (s, Some q)))"

definition unit_key :: "ModelsUnit \<Rightarrow> string + int" where
  "unit_key u = (case unt_id u of Some i \<Rightarrow> Inl i | None \<Rightarrow> Inr (nullish (unt_number u) 0))"

text \<open>The lots of the map; without the list of lots, those of the members, by identifier.\<close>

definition directoryUnits :: "member_list \<Rightarrow> ModelsUnit list" where
  "directoryUnits s =
     (if \<not> ml_unitsError s then ml_allUnits s
      else js_sort (cmp_key (\<lambda>u. nullish (unt_number u) 0))
        (map snd (foldl (\<lambda>m u.
            if truthy_str (unt_id u) \<or> unt_number u \<noteq> None then omap_set (unit_key u) u m else m) []
          (concat (map (\<lambda>m. nullish (mem_units m) []) (ml_members s))))))"

definition selectedMember :: "member_list \<Rightarrow> ModelsMember option" where
  "selectedMember s =
     List.find (\<lambda>m. case ml_memberId s of None \<Rightarrow> False | Some i \<Rightarrow> mem_id m = Some i) (ml_members s)"

definition selectedUnit :: "member_list \<Rightarrow> ModelsUnit option" where
  "selectedUnit s =
     List.find (\<lambda>u. case ml_unitNumber s of None \<Rightarrow> False | Some n \<Rightarrow> unt_number u = Some n)
       (directoryUnits s)"

definition selectionMembers :: "member_list \<Rightarrow> ModelsMember list" where
  "selectionMembers s =
     (case selectedUnit s of
        Some u \<Rightarrow> filter (\<lambda>m. memberOwnsUnit m u) (ml_members s)
      | None \<Rightarrow> (case selectedMember s of Some m \<Rightarrow> [m] | None \<Rightarrow> []))"

definition highlightedUnits :: "member_list \<Rightarrow> int list" where
  "highlightedUnits s =
     (let units = (case selectedMember s of
          Some m \<Rightarrow> nullish (mem_units m) []
        | None \<Rightarrow> (case selectedUnit s of Some u \<Rightarrow> [u] | None \<Rightarrow> []))
      in js_set (List.map_filter unt_number units))"

datatype selection_error = InvalidLink | MemberGone | UnitLoading | UnitNotLoaded | UnitGone

definition selectionError :: "member_list \<Rightarrow> selection_error option" where
  "selectionError s =
     (if \<not> ml_loaded s \<or> ml_loading s \<or> ml_error s then None
      else if ml_invalid s then Some InvalidLink
      else if truthy_str (ml_memberId s) \<and> selectedMember s = None then Some MemberGone
      else if ml_unitNumber s \<noteq> None \<and> selectedUnit s = None
      then Some (if ml_unitsLoading s then UnitLoading
                 else if ml_unitsError s then UnitNotLoaded else UnitGone)
      else None)"

lemmas selection_defs = closeDialog_def syncDialog_def route_next_def query_next_def setView_def
  selectMember_def selectUnit_def clearSelection_def dialog_closed_def observe_def Let_def

inductive selection_step :: "member_list \<Rightarrow> member_list \<Rightarrow> bool" where
  observe: "selection_step s (observe d s)"
| route: "selection_step s (route_next params s)"
| search: "selection_step s (fst (query_next s))"
| view: "selection_step s (fst (setView v s))"
| member: "selection_step s (fst (selectMember m s))"
| unit: "selection_step s (fst (selectUnit n s))"
| clear: "selection_step s (fst (clearSelection s))"
| closed: "selection_step s (fst (dialog_closed s))"

inductive selection_reachable :: "member_list \<Rightarrow> bool" where
  start: "selection_reachable new_member_list"
| step: "selection_reachable s \<Longrightarrow> selection_step s s' \<Longrightarrow> selection_reachable s'"

definition lot_inv :: "member_list \<Rightarrow> bool" where
  "lot_inv s \<longleftrightarrow>
     (\<forall>n. ml_unitNumber s = Some n \<longrightarrow> 0 \<le> n \<and> n \<le> max_safe \<and> ml_memberId s = None \<and> \<not> ml_invalid s) \<and>
     (ml_invalid s \<longrightarrow> ml_memberId s = None)"

definition dialog_inv :: "member_list \<Rightarrow> bool" where
  "dialog_inv s \<longleftrightarrow> (ml_dialog s \<longleftrightarrow> ml_view s = MapView \<and> hasSelection s)"

lemma dialog_inv_sync: "dialog_inv (syncDialog s)"
  by (auto simp: dialog_inv_def syncDialog_def closeDialog_def hasSelection_def)

lemma lot_inv_sync [simp]: "lot_inv (syncDialog s) = lot_inv s"
  by (simp add: lot_inv_def syncDialog_def closeDialog_def)

lemma parse_lot_bounds: "parse_lot l = Some n \<Longrightarrow> 0 \<le> n \<and> n \<le> max_safe"
  by (auto simp: parse_lot_def split: if_splits)

lemma lot_inv_step: "selection_step s s' \<Longrightarrow> lot_inv s \<Longrightarrow> lot_inv s'"
proof (induction rule: selection_step.induct)
  case (route s params)
  show ?case
  proof (cases "params ''lot''")
    case None
    then show ?thesis by (simp add: route_next_def Let_def) (simp add: lot_inv_def)
  next
    case (Some l)
    then show ?thesis
      by (simp add: route_next_def Let_def) (auto simp: lot_inv_def dest: parse_lot_bounds)
  qed
next
  case (closed s)
  then show ?case
    by (simp add: dialog_closed_def clearSelection_def Let_def) (simp add: lot_inv_def)
next
  case (unit s n)
  then show ?case
    by (cases n) (simp_all add: selectUnit_def Let_def, simp add: lot_inv_def)
next
  case (search s)
  then show ?case by (simp add: query_next_def Let_def) (simp add: lot_inv_def)
next
  case (view s v)
  then show ?case by (simp add: setView_def Let_def) (simp add: lot_inv_def)
next
  case (member s m)
  then show ?case by (simp add: selectMember_def Let_def) (simp add: lot_inv_def)
next
  case (clear s)
  then show ?case by (simp add: clearSelection_def Let_def) (simp add: lot_inv_def)
qed (simp add: observe_def lot_inv_def)

lemma dialog_inv_step: "selection_step s s' \<Longrightarrow> dialog_inv s \<Longrightarrow> dialog_inv s'"
proof (induction rule: selection_step.induct)
  case (observe s d)
  then show ?case by (simp add: dialog_inv_def observe_def hasSelection_def)
next
  case (unit s n)
  then show ?case by (cases n) (simp_all add: selectUnit_def Let_def dialog_inv_sync)
qed (simp_all add: route_next_def query_next_def setView_def selectMember_def clearSelection_def
    dialog_closed_def Let_def dialog_inv_sync)

lemma selection_reachable_inv: "selection_reachable s \<Longrightarrow> lot_inv s \<and> dialog_inv s"
proof (induction rule: selection_reachable.induct)
  case start
  show ?case by (simp add: lot_inv_def dialog_inv_def new_member_list_def)
qed (blast intro: lot_inv_step dialog_inv_step)

text \<open>\<open>queryParamsHandling: 'merge'\<close>: a null removes the parameter.\<close>

definition merge_params ::
  "query_params \<Rightarrow> (string \<Rightarrow> string option) \<Rightarrow> (string \<Rightarrow> string option)" where
  "merge_params q p k = (case map_of q k of Some v \<Rightarrow> v | None \<Rightarrow> p k)"

lemma parse_lot_int_str: "0 \<le> n \<Longrightarrow> n \<le> max_safe \<Longrightarrow> parse_lot (int_str n) = Some n"
  by (simp add: parse_lot_def int_str_def nat_str_digits digits_val_nat_str)

subsection \<open>The form of a member\<close>

text \<open>
  \<open>submit\<close> is a chain of requests: save, read back, link and unlink lots in parallel, read again.
  \<open>mf_phase\<close> is the request the chain waits for.
\<close>

datatype link_phase =
    Resting
  | Saving
  | Reading
  | Linking "string option" nat
  | Rereading

record member_form =
  mf_member :: "ModelsMember option"
  mf_savedId :: "string option"
  mf_persisted :: bool
  mf_saving :: bool
  mf_touched :: bool
  mf_first_name :: "string option"
  mf_last_name :: "string option"
  mf_email :: "string option"
  mf_phone_number :: "string option"
  mf_address :: "string option"
  mf_bureau :: "bool option"
  mf_selectedUnits :: "ModelsUnit list"
  mf_phase :: link_phase

datatype member_message =
    MemberUpdated "string option" "string option"
  | MemberCreated "string option" "string option"
  | MemberLinkFailed
  | MemberNotSaved
  | DeleteMemberQuestion "string option" "string option"
  | MemberDeleted "string option" "string option"
  | MemberNotDeleted
  | MemberForm "ModelsMember option"

definition new_member_form :: "ModelsMember option \<Rightarrow> member_form" where
  "new_member_form m = \<lparr>mf_member = m, mf_savedId = Option.bind m mem_id, mf_persisted = False,
     mf_saving = False, mf_touched = (m \<noteq> None),
     mf_first_name = Option.bind m mem_first_name, mf_last_name = Option.bind m mem_last_name,
     mf_email = Option.bind m mem_email, mf_phone_number = Option.bind m mem_phone_number,
     mf_address = Option.bind m mem_address,
     mf_bureau = Some (nullish (Option.bind m mem_bureau) False),
     mf_selectedUnits = nullish (Option.bind m mem_units) [], mf_phase = Resting\<rparr>"

definition displayUnit :: "ModelsUnit \<Rightarrow> string" where
  "displayUnit u = ''Lot '' @ (case unt_number u of Some n \<Rightarrow> int_str n | None \<Rightarrow> ''undefined'') @
     '' ('' @ nullish (unt_address u) ''undefined'' @ '')''"

definition displaySelectedUnit :: "ModelsUnit \<Rightarrow> string" where
  "displaySelectedUnit u =
     ''Lot '' @ (case unt_number u of Some n \<Rightarrow> int_str n | None \<Rightarrow> ''undefined'')"

definition filterUnit :: "string \<Rightarrow> ModelsUnit \<Rightarrow> bool" where
  "filterUnit q u =
     (if q = [] then True
      else if str_includes (int_str (nullish (unt_number u) 0)) q then True
      else if str_includes (nullish (unt_address u) []) q then True
      else False)"

definition member_form_invalid :: "member_form \<Rightarrow> bool" where
  "member_form_invalid s =
     (\<not> (required (mf_first_name s) \<and> required (mf_last_name s) \<and> required (mf_email s)))"

definition member_form_cancel :: "member_form \<Rightarrow> member_message ui_effect list" where
  "member_form_cancel s = (if mf_saving s then [] else [CloseDialog (mf_persisted s)])"

definition member_form_submit :: "member_form \<Rightarrow> member_form \<times> member_message ui_effect list" where
  "member_form_submit s =
     (if mf_saving s then (s, [])
      else if member_form_invalid s then (s\<lparr>mf_touched := True\<rparr>, [])
      else (s\<lparr>mf_saving := True, mf_phase := Saving\<rparr>,
        [Send (case mf_savedId s of
           Some (i # is) \<Rightarrow> UpdateMember (i # is)
             \<lparr>umi_address = mf_address s, umi_bureau = Some (mf_bureau s), umi_email = mf_email s,
              umi_first_name = mf_first_name s, umi_last_name = mf_last_name s,
              umi_phone_number = mf_phone_number s\<rparr>
         | _ \<Rightarrow> CreateMember
             \<lparr>cmi_address = mf_address s, cmi_bureau = Some (mf_bureau s), cmi_email = mf_email s,
              cmi_first_name = mf_first_name s, cmi_last_name = mf_last_name s,
              cmi_phone_number = mf_phone_number s\<rparr>)]))"

text \<open>A request for an undefined identifier throws in the client.\<close>

definition undefined_id :: api_error where
  "undefined_id = \<lparr>err_message = None, err_status = 0, err_statusText = ''undefined''\<rparr>"

definition member_fail :: "api_error \<Rightarrow> member_form \<Rightarrow> member_form \<times> member_message ui_effect list" where
  "member_fail e s =
     (s\<lparr>mf_saving := False, mf_phase := Resting\<rparr>,
      [Failure (if mf_persisted s then MemberLinkFailed else MemberNotSaved) e])"

definition member_done ::
  "ModelsMember option \<Rightarrow> member_form \<Rightarrow> member_form \<times> member_message ui_effect list" where
  "member_done m s =
     (s\<lparr>mf_saving := False, mf_phase := Resting\<rparr>,
      [Info (let f = Option.bind m mem_first_name; l = Option.bind m mem_last_name in
             if truthy_str (Option.bind (mf_member s) mem_id) then MemberUpdated f l
             else MemberCreated f l)])"

definition read_member ::
  "link_phase \<Rightarrow> string option \<Rightarrow> member_form \<Rightarrow> member_form \<times> member_message ui_effect list" where
  "read_member phase i s =
     (case i of
        None \<Rightarrow> member_fail undefined_id s
      | Some j \<Rightarrow> (s\<lparr>mf_phase := phase\<rparr>, [Send (GetMember j)]))"

definition member_saved ::
  "api_error + ModelsMember option \<Rightarrow> member_form \<Rightarrow> member_form \<times> member_message ui_effect list" where
  "member_saved r s =
     (case r of
        Inl e \<Rightarrow> member_fail e s
      | Inr m \<Rightarrow>
          (let i = Option.bind m mem_id;
               s = (if truthy_str i then s\<lparr>mf_savedId := i, mf_persisted := True\<rparr> else s)
           in read_member Reading i s))"

definition same_id :: "ModelsUnit \<Rightarrow> ModelsUnit \<Rightarrow> bool" where
  "same_id u v = (unt_id u = unt_id v)"

definition link_operations ::
  "string option \<Rightarrow> ModelsUnit list \<Rightarrow> ModelsUnit list \<Rightarrow> api_call list" where
  "link_operations i owned selected =
     (let m = nullish i ''undefined''; uid = (\<lambda>u. nullish (unt_id u) ''undefined'') in
      map (\<lambda>u. RemoveMemberUnit m (uid u)) (filter (\<lambda>u. \<not> list_ex (same_id u) selected) owned) @
      map (\<lambda>u. AddMemberUnit m (uid u)) (filter (\<lambda>u. \<not> list_ex (same_id u) owned) selected))"

definition member_read ::
  "api_error + ModelsMember option \<Rightarrow> member_form \<Rightarrow> member_form \<times> member_message ui_effect list" where
  "member_read r s =
     (case r of
        Inl e \<Rightarrow> member_fail e s
      | Inr m \<Rightarrow>
          (let i = Option.bind m mem_id;
               ops = link_operations i (nullish (Option.bind m mem_units) []) (mf_selectedUnits s)
           in if ops \<noteq> [] then (s\<lparr>mf_phase := Linking i (length ops)\<rparr>, map Send ops)
              else member_done m s))"

text \<open>One answer of the joined requests: the first error ends them, the last success reads again.\<close>

definition member_linked ::
  "api_error option \<Rightarrow> member_form \<Rightarrow> member_form \<times> member_message ui_effect list" where
  "member_linked r s =
     (case mf_phase s of
        Linking i n \<Rightarrow>
          (case r of
             Some e \<Rightarrow> member_fail e s
           | None \<Rightarrow>
               if n \<le> 1 then read_member Rereading i s
               else (s\<lparr>mf_phase := Linking i (n - 1)\<rparr>, []))
      | _ \<Rightarrow> (s, []))"

definition member_reread ::
  "api_error + ModelsMember option \<Rightarrow> member_form \<Rightarrow> member_form \<times> member_message ui_effect list" where
  "member_reread r s = (case r of Inl e \<Rightarrow> member_fail e s | Inr m \<Rightarrow> member_done m s)"

text \<open>The dialog of the result is closed.\<close>

definition member_info_closed :: "member_message ui_effect list" where
  "member_info_closed = [CloseDialog True]"

subsection \<open>Editing and deleting from the directory\<close>

definition ml_refresh :: "member_list \<Rightarrow> member_source \<Rightarrow> member_source \<times> api_call list" where
  "ml_refresh s d = (if \<not> ml_loading s \<and> \<not> ml_unitsLoading s then md_load d else (d, []))"

definition ml_edit :: "ModelsMember option \<Rightarrow> member_message ui_effect list" where
  "ml_edit m = [Form (MemberForm m)]"

definition ml_delete :: "ModelsMember \<Rightarrow> member_message ui_effect list" where
  "ml_delete m = [Ask (DeleteMemberQuestion (mem_first_name m) (mem_last_name m))]"

definition ml_delete_closed :: "ModelsMember \<Rightarrow> bool \<Rightarrow> member_message ui_effect list" where
  "ml_delete_closed m confirm =
     (if confirm then [Send (DeleteMember (nullish (mem_id m) ''undefined''))] else [])"

definition ml_delete_next :: "ModelsMember \<Rightarrow> member_message ui_effect list" where
  "ml_delete_next m = [Info (MemberDeleted (mem_first_name m) (mem_last_name m))]"

definition ml_delete_error :: "api_error \<Rightarrow> member_message ui_effect list" where
  "ml_delete_error e = [Failure MemberNotDeleted e]"

subsection \<open>Properties\<close>

text \<open>
  C25. The selection lives in the address: in every reachable state whose link was not invalid,
  reading back the parameters the component writes gives the same view, member and lot, whatever
  other parameters the address has and whatever the component showed before.
\<close>
theorem selection_url_roundtrip:
  assumes "selection_reachable s" and "\<not> ml_invalid s"
  shows "ml_view (route_next (merge_params (syncRoute s) p) s') = ml_view s \<and>
    ml_memberId (route_next (merge_params (syncRoute s) p) s') = ml_memberId s \<and>
    ml_unitNumber (route_next (merge_params (syncRoute s) p) s') = ml_unitNumber s \<and>
    \<not> ml_invalid (route_next (merge_params (syncRoute s) p) s')"
proof -
  let ?q = "merge_params (syncRoute s) p"
  have q: "?q ''view'' = (if ml_view s = MapView then Some ''map'' else None)"
    "?q ''member'' = ml_memberId s" "?q ''lot'' = map_option int_str (ml_unitNumber s)"
    by (simp_all add: merge_params_def syncRoute_def)
  have keep: "ml_view (syncDialog x) = ml_view x" "ml_memberId (syncDialog x) = ml_memberId x"
    "ml_unitNumber (syncDialog x) = ml_unitNumber x" "ml_invalid (syncDialog x) = ml_invalid x" for x
    by (simp_all add: syncDialog_def closeDialog_def)
  have v: "(if ?q ''view'' = Some ''map'' then MapView else ListView) = ml_view s"
    using q(1) by (cases "ml_view s") simp_all
  show ?thesis
  proof (cases "ml_unitNumber s")
    case None
    with v show ?thesis unfolding route_next_def Let_def keep by (simp add: q)
  next
    case (Some n)
    with selection_reachable_inv [OF assms(1)] have "0 \<le> n" "n \<le> max_safe" "ml_memberId s = None"
      by (simp_all add: lot_inv_def)
    with v Some show ?thesis unfolding route_next_def Let_def keep by (simp add: q parse_lot_int_str)
  qed
qed

theorem selection_url_roundtrip_witness:
  "ml_unitNumber (fst (selectUnit (Some 12) new_member_list)) = Some 12 \<and>
   ml_unitNumber (route_next (merge_params (syncRoute (fst (selectUnit (Some 12) new_member_list)))
     [''member'' \<mapsto> ''m1'']) new_member_list) = Some 12"
proof -
  have r: "selection_reachable (fst (selectUnit (Some 12) new_member_list))"
    by (rule selection_reachable.step [OF selection_reachable.start selection_step.unit])
  have n: "ml_unitNumber (fst (selectUnit (Some 12) new_member_list)) = Some 12"
    "\<not> ml_invalid (fst (selectUnit (Some 12) new_member_list))"
    by (simp_all add: selectUnit_def max_safe_def syncDialog_def closeDialog_def Let_def)
  from selection_url_roundtrip [OF r n(2)] n(1) show ?thesis by simp
qed

text \<open>
  C26. The dialog of the selection is open exactly when the map shows a selection: in every
  reachable state it is open if and only if the view is the map and a member, a lot or an invalid
  link is selected; a lot excludes a member and is a safe, non-negative integer.
\<close>
theorem dialog_follows_selection:
  assumes "selection_reachable s"
  shows "(ml_dialog s \<longleftrightarrow> ml_view s = MapView \<and> hasSelection s) \<and>
    (case ml_unitNumber s of None \<Rightarrow> True | Some n \<Rightarrow> 0 \<le> n \<and> n \<le> max_safe \<and> ml_memberId s = None)"
  using selection_reachable_inv [OF assms] by (auto simp: lot_inv_def dialog_inv_def split: option.split)

theorem dialog_follows_selection_witness:
  "ml_dialog (fst (selectUnit (Some 3) new_member_list)) \<and>
   (ml_dialog (fst (selectUnit (Some 3) new_member_list)) \<longleftrightarrow>
     ml_view (fst (selectUnit (Some 3) new_member_list)) = MapView \<and>
     hasSelection (fst (selectUnit (Some 3) new_member_list)))"
proof -
  have r: "selection_reachable (fst (selectUnit (Some 3) new_member_list))"
    by (rule selection_reachable.step [OF selection_reachable.start selection_step.unit])
  have d: "ml_dialog (fst (selectUnit (Some 3) new_member_list))"
    by (simp add: selectUnit_def max_safe_def syncDialog_def closeDialog_def hasSelection_def Let_def)
  from dialog_follows_selection [OF r] d show ?thesis by blast
qed

text \<open>What the server does with a link and an unlink, on the identifiers of the member's lots.\<close>

fun apply_link :: "api_call \<Rightarrow> string set \<Rightarrow> string set" where
  "apply_link (AddMemberUnit m u) s = insert u s"
| "apply_link (RemoveMemberUnit m u) s = s - {u}"
| "apply_link _ s = s"

definition added :: "api_call list \<Rightarrow> string set" where
  "added ops = {u. \<exists>m. AddMemberUnit m u \<in> set ops}"

definition removed :: "api_call list \<Rightarrow> string set" where
  "removed ops = {u. \<exists>m. RemoveMemberUnit m u \<in> set ops}"

lemma fold_links:
  assumes "\<forall>c \<in> set ops. (\<exists>m u. c = AddMemberUnit m u) \<or> (\<exists>m u. c = RemoveMemberUnit m u)"
    and "added ops \<inter> removed ops = {}"
  shows "fold apply_link ops s = (s - removed ops) \<union> added ops"
  using assms
proof (induction ops arbitrary: s)
  case (Cons c ops)
  have sub: "added ops \<subseteq> added (c # ops)" "removed ops \<subseteq> removed (c # ops)"
    by (auto simp: added_def removed_def)
  with Cons.prems have IH: "fold apply_link ops s' = (s' - removed ops) \<union> added ops" for s'
    by (intro Cons.IH) auto
  from Cons.prems(1) consider (add) m u where "c = AddMemberUnit m u"
    | (remove) m u where "c = RemoveMemberUnit m u" by fastforce
  then show ?case
  proof cases
    case add
    then have "added (c # ops) = insert u (added ops)" "removed (c # ops) = removed ops"
      by (auto simp: added_def removed_def)
    with add Cons.prems(2) IH show ?thesis by auto
  next
    case remove
    then have "added (c # ops) = added ops" "removed (c # ops) = insert u (removed ops)"
      by (auto simp: added_def removed_def)
    with remove Cons.prems(2) IH show ?thesis by auto
  qed
qed (simp add: added_def removed_def)

lemma link_operations_sets:
  assumes "\<forall>u \<in> set owned \<union> set selected. unt_id u \<noteq> None"
  shows "added (link_operations i owned selected) =
      (\<lambda>u. the (unt_id u)) ` set selected - (\<lambda>u. the (unt_id u)) ` set owned"
    and "removed (link_operations i owned selected) =
      (\<lambda>u. the (unt_id u)) ` set owned - (\<lambda>u. the (unt_id u)) ` set selected"
proof -
  have n: "nullish (unt_id u) ''undefined'' = the (unt_id u)" if "u \<in> set owned \<union> set selected" for u
  proof -
    from assms that have "unt_id u \<noteq> None" by blast
    then show ?thesis by (auto simp: nullish_def)
  qed
  let ?f = "\<lambda>u. the (unt_id u)" and ?g = "\<lambda>u. nullish (unt_id u) ''undefined''"
  have same: "list_ex (same_id u) vs \<longleftrightarrow> ?f u \<in> ?f ` set vs"
    if "u \<in> set owned \<union> set selected" "set vs \<subseteq> set owned \<union> set selected" for u vs
  proof -
    have "same_id u v \<longleftrightarrow> ?f u = ?f v" if "v \<in> set vs" for v
      using assms \<open>u \<in> _\<close> \<open>set vs \<subseteq> _\<close> that unfolding same_id_def by (metis option.expand subsetD)
    then show ?thesis by (auto simp: list_ex_iff)
  qed
  have "added (link_operations i owned selected) = ?g ` {u \<in> set selected. \<not> list_ex (same_id u) owned}"
    by (auto simp: added_def link_operations_def Let_def)
  also have "\<dots> = ?f ` {u \<in> set selected. \<not> list_ex (same_id u) owned}"
    by (rule image_cong) (simp_all add: n)
  also have "\<dots> = ?f ` set selected - ?f ` set owned"
    using same [of _ owned] by auto
  finally show "added (link_operations i owned selected) = ?f ` set selected - ?f ` set owned" .
  have "removed (link_operations i owned selected) =
      ?g ` {u \<in> set owned. \<not> list_ex (same_id u) selected}"
    by (auto simp: removed_def link_operations_def Let_def)
  also have "\<dots> = ?f ` {u \<in> set owned. \<not> list_ex (same_id u) selected}"
    by (rule image_cong) (simp_all add: n)
  also have "\<dots> = ?f ` set owned - ?f ` set selected"
    using same [of _ selected] by auto
  finally show "removed (link_operations i owned selected) = ?f ` set owned - ?f ` set selected" .
qed

text \<open>
  C27. The lots of a member after the form are the selected ones: whatever the order in which the
  parallel requests the form sends are carried out, linking and unlinking them takes the lots the
  member has to exactly the selected lots; and when these are the same lots already, nothing is
  sent.
\<close>
theorem units_synchronised:
  assumes "\<forall>u \<in> set owned \<union> set selected. unt_id u \<noteq> None"
    and "mset ops = mset (link_operations i owned selected)"
  shows "fold apply_link ops ((\<lambda>u. the (unt_id u)) ` set owned) = (\<lambda>u. the (unt_id u)) ` set selected \<and>
    (ops = [] \<longleftrightarrow> (\<lambda>u. the (unt_id u)) ` set owned = (\<lambda>u. the (unt_id u)) ` set selected)"
proof -
  let ?f = "\<lambda>u. the (unt_id u)"
  from assms(2) have set_ops: "set ops = set (link_operations i owned selected)"
    by (metis set_mset_mset)
  then have a: "added ops = ?f ` set selected - ?f ` set owned"
    and r: "removed ops = ?f ` set owned - ?f ` set selected"
    using link_operations_sets [OF assms(1), of i] by (simp_all add: added_def removed_def)
  have links: "\<forall>c \<in> set ops. (\<exists>m u. c = AddMemberUnit m u) \<or> (\<exists>m u. c = RemoveMemberUnit m u)"
    unfolding set_ops by (auto simp: link_operations_def Let_def)
  moreover have "added ops \<inter> removed ops = {}" using a r by blast
  ultimately have f: "fold apply_link ops (?f ` set owned) = ?f ` set selected"
    using fold_links [of ops "?f ` set owned"] a r by auto
  have "ops = [] \<longleftrightarrow> added ops = {} \<and> removed ops = {}"
  proof (cases ops)
    case (Cons c cs)
    with links show ?thesis by (auto simp: added_def removed_def)
  qed (simp add: added_def removed_def)
  moreover have "X - Y = {} \<and> Y - X = {} \<longleftrightarrow> Y = X" for X Y :: "string set" by blast
  ultimately have "ops = [] \<longleftrightarrow> ?f ` set owned = ?f ` set selected" unfolding a r by simp
  with f show ?thesis by (rule conjI)
qed

definition lot_a :: ModelsUnit where
  "lot_a = MkModelsUnit None None (Some ''a'') None (Some 1) None None"

definition lot_b :: ModelsUnit where
  "lot_b = MkModelsUnit None None (Some ''b'') None (Some 2) None None"

theorem units_synchronised_witness:
  "link_operations (Some ''m'') [lot_a] [lot_b] = [RemoveMemberUnit ''m'' ''a'', AddMemberUnit ''m'' ''b''] \<and>
   fold apply_link [AddMemberUnit ''m'' ''b'', RemoveMemberUnit ''m'' ''a''] {''a''} = {''b''}"
proof -
  have o: "link_operations (Some ''m'') [lot_a] [lot_b] =
      [RemoveMemberUnit ''m'' ''a'', AddMemberUnit ''m'' ''b'']"
    by (simp add: link_operations_def same_id_def lot_a_def lot_b_def nullish_def Let_def)
  have ids: "\<forall>u \<in> set [lot_a] \<union> set [lot_b]. unt_id u \<noteq> None" by (simp add: lot_a_def lot_b_def)
  have m: "mset [AddMemberUnit ''m'' ''b'', RemoveMemberUnit ''m'' ''a''] =
      mset (link_operations (Some ''m'') [lot_a] [lot_b])"
    unfolding o by simp
  from units_synchronised [OF ids m] o show ?thesis by (simp add: lot_a_def lot_b_def)
qed

end
