(* ===== verification/Emails.thy ===== *)
theory Emails
  imports Paged_Sources Ui
begin

text \<open>
  \<open>emails/\<close>: which states of an e-mail allow which action (\<open>email-state.ts\<close>), the window that
  sends a selection one e-mail after the other (\<open>components/email-sending-popup\<close>), and the list
  of a campaign's e-mails (\<open>components/email-list\<close>), whose destructive actions are confirmed on
  a frozen selection and refused when the list changed meanwhile.
\<close>

subsection \<open>States\<close>

definition canSendEmail :: "string option \<Rightarrow> bool" where
  "canSendEmail state = (state = Some ''WAITING'' \<or> state = Some ''ERROR'')"

definition canResetEmail :: "string option \<Rightarrow> bool" where
  "canResetEmail state = (state = Some ''SENT'' \<or> state = Some ''READ'' \<or> state = Some ''UNKNOWN'')"

datatype email_label = LWaiting | LSending | LUnknown | LSent | LError | LRead | LOpened | LOther

definition emailStateLabel :: "string option \<Rightarrow> email_label" where
  "emailStateLabel state =
     (let s = nullish state [] in
      if s = ''WAITING'' then LWaiting else if s = ''SENDING'' then LSending
      else if s = ''UNKNOWN'' then LUnknown else if s = ''SENT'' then LSent
      else if s = ''ERROR'' then LError else if s = ''READ'' then LRead else LOther)"

definition stateLabel :: "string option \<Rightarrow> email_label" where
  "stateLabel state = (if state = Some ''READ'' then LOpened else emailStateLabel state)"

definition email_states :: "string list" where
  "email_states = [''WAITING'', ''SENDING'', ''SENT'', ''READ'', ''ERROR'', ''UNKNOWN'']"

subsection \<open>Sending a selection\<close>

text \<open>
  \<open>concatMap\<close>: the next e-mail is sent when the previous request is over. \<open>sp_current\<close> counts
  the requests that are over, cancelled ones included.
\<close>

record sending_popup =
  sp_emails :: "ModelsEmailSummary list"
  sp_current :: nat
  sp_sent :: nat
  sp_errors :: nat
  sp_inflight :: bool
  sp_cancelled :: bool

definition sp_total :: "sending_popup \<Rightarrow> nat" where
  "sp_total s = length (sp_emails s)"

definition sp_remaining :: "sending_popup \<Rightarrow> int" where
  "sp_remaining s = int (sp_total s) - int (sp_current s)"

definition sp_sending :: "sending_popup \<Rightarrow> bool" where
  "sp_sending s = (sp_remaining s > 0)"

text \<open>\<open>Math.round\<close>; without any e-mail the quotient is not a number.\<close>

definition sp_progress :: "sending_popup \<Rightarrow> int option" where
  "sp_progress s =
     (if sp_total s = 0 then None
      else Some \<lfloor>(of_nat (sp_current s) / of_nat (sp_total s)) * 100 + (1 / 2 :: rat)\<rfloor>)"

definition send_call :: "ModelsEmailSummary \<Rightarrow> api_call" where
  "send_call e = SendEmail (nullish (esm_id e) ''undefined'') \<lparr>sei_wait = Some True\<rparr>"

definition sp_next :: "sending_popup \<Rightarrow> sending_popup \<times> api_call list" where
  "sp_next s =
     (if sp_cancelled s \<or> sp_current s \<ge> sp_total s then (s, [])
      else (s\<lparr>sp_inflight := True\<rparr>, [send_call (sp_emails s ! sp_current s)]))"

definition sp_start :: "ModelsEmailSummary list \<Rightarrow> sending_popup \<times> api_call list" where
  "sp_start emails =
     sp_next \<lparr>sp_emails = emails, sp_current = 0, sp_sent = 0, sp_errors = 0, sp_inflight = False,
       sp_cancelled = False\<rparr>"

definition sp_answer :: "bool \<Rightarrow> sending_popup \<Rightarrow> sending_popup \<times> api_call list" where
  "sp_answer ok s =
     (if \<not> sp_inflight s then (s, [])
      else sp_next ((if ok then s\<lparr>sp_sent := Suc (sp_sent s)\<rparr> else s\<lparr>sp_errors := Suc (sp_errors s)\<rparr>)
             \<lparr>sp_current := Suc (sp_current s), sp_inflight := False\<rparr>))"

text \<open>Aborting after its confirmation, or destroying the window.\<close>

definition sp_cancel :: "sending_popup \<Rightarrow> sending_popup" where
  "sp_cancel s =
     (if sp_inflight s
      then s\<lparr>sp_cancelled := True, sp_inflight := False, sp_current := Suc (sp_current s)\<rparr>
      else s\<lparr>sp_cancelled := True\<rparr>)"

definition sp_abort_closed :: "bool \<Rightarrow> sending_popup \<Rightarrow> sending_popup \<times> bool" where
  "sp_abort_closed result s = (if result then (sp_cancel s, True) else (s, False))"

datatype sp_event = SpAnswer bool | SpCancel

fun sp_apply :: "sp_event \<Rightarrow> sending_popup \<times> api_call list \<Rightarrow> sending_popup \<times> api_call list" where
  "sp_apply (SpAnswer ok) (s, cs) = (let (s', out) = sp_answer ok s in (s', cs @ out))"
| "sp_apply SpCancel (s, cs) = (sp_cancel s, cs)"

definition sp_inv :: "ModelsEmailSummary list \<Rightarrow> sending_popup \<times> api_call list \<Rightarrow> bool" where
  "sp_inv emails x \<longleftrightarrow>
     (case x of (s, cs) \<Rightarrow>
        sp_emails s = emails \<and> sp_current s \<le> length emails \<and>
        cs = map send_call (take (sp_current s + (if sp_inflight s then 1 else 0)) emails) \<and>
        (sp_inflight s \<longrightarrow> sp_current s < length emails \<and> \<not> sp_cancelled s) \<and>
        (\<not> sp_cancelled s \<longrightarrow> sp_current s = sp_sent s + sp_errors s \<and>
           (\<not> sp_inflight s \<longrightarrow> sp_current s = length emails)) \<and>
        sp_sent s + sp_errors s \<le> sp_current s \<and> sp_current s \<le> Suc (sp_sent s + sp_errors s))"

lemma sp_inv_start: "sp_inv emails (sp_start emails)"
  by (cases emails) (auto simp: sp_inv_def sp_start_def sp_next_def sp_total_def)

lemma sp_inv_answer:
  assumes "sp_inv emails (s, cs)"
  shows "sp_inv emails (sp_apply (SpAnswer ok) (s, cs))"
proof (cases "sp_inflight s")
  case True
  with assms have e: "sp_emails s = emails" "sp_current s < length emails" "\<not> sp_cancelled s"
    "cs = map send_call (take (Suc (sp_current s)) emails)" "sp_current s = sp_sent s + sp_errors s"
    by (simp_all add: sp_inv_def)
  show ?thesis
  proof (cases "Suc (sp_current s) < length emails")
    case True
    then have "map send_call (take (Suc (Suc (sp_current s))) emails) =
        cs @ [send_call (emails ! Suc (sp_current s))]"
      using e(4) by (simp add: take_Suc_conv_app_nth)
    with True e \<open>sp_inflight s\<close> show ?thesis
      by (simp add: sp_inv_def sp_answer_def sp_next_def sp_total_def)
  next
    case False
    with e \<open>sp_inflight s\<close> show ?thesis
      by (simp add: sp_inv_def sp_answer_def sp_next_def sp_total_def)
  qed
next
  case False
  with assms show ?thesis by (simp add: sp_answer_def)
qed

lemma sp_inv_cancel: "sp_inv emails (s, cs) \<Longrightarrow> sp_inv emails (sp_apply SpCancel (s, cs))"
  by (auto simp: sp_inv_def sp_cancel_def)

lemma sp_inv_run: "sp_inv emails x \<Longrightarrow> sp_inv emails (fold sp_apply evs x)"
proof (induction evs arbitrary: x)
  case (Cons ev evs)
  obtain s cs where x: "x = (s, cs)" by fastforce
  have "sp_inv emails (sp_apply ev x)"
    using Cons.prems unfolding x by (cases ev) (simp_all only: sp_inv_answer sp_inv_cancel)
  then show ?case by (simp add: Cons.IH)
qed simp

subsection \<open>The list of a campaign\<close>

datatype row_action = DeleteRows | SendRows | ResetRow

datatype list_message =
    ConfirmRows row_action
  | ListChanged
  | RowsDeleted
  | RowsNotDeleted
  | ResendAllowed
  | StateNotChanged
  | SendingPopup "ModelsEmailSummary list"
  | DetailsFailed
  | EmailShown
  | StatusShown "string option"

record email_list =
  el_source :: "email_source option"
  el_visible :: "ModelsEmailSummary list"
  el_revision :: nat
  el_alive :: bool
  el_loading :: bool
  el_campaignLoading :: bool
  el_campaignError :: bool
  el_busyAction :: bool
  el_previewingId :: "string option"
  el_state :: string
  el_routeState :: string
  el_selected :: "ModelsEmailSummary list"
  el_campaign :: "nat option"
  el_next :: nat

definition new_email_list :: email_list where
  "new_email_list = \<lparr>el_source = None, el_visible = [], el_revision = 0, el_alive = True,
     el_loading = False, el_campaignLoading = True, el_campaignError = False,
     el_busyAction = False, el_previewingId = None, el_state = [], el_routeState = [],
     el_selected = [], el_campaign = None, el_next = 0\<rparr>"

text \<open>\<open>scopeChanged\<close> ends the loading of a detail.\<close>

definition el_scopeChanged :: "email_list \<Rightarrow> email_list" where
  "el_scopeChanged s = s\<lparr>el_revision := Suc (el_revision s), el_previewingId := None\<rparr>"

text \<open>
  The subscriptions to the results and the loading flag of the source: a load it starts (it takes
  a new ticket) emits that it is loading.
\<close>

definition el_sync :: "email_source \<Rightarrow> email_list \<Rightarrow> email_list" where
  "el_sync src s =
     (let started = (case el_source s of None \<Rightarrow> False | Some old \<Rightarrow> ds_next old \<noteq> ds_next src);
          s = s\<lparr>el_source := Some src, el_visible := ds_results src, el_loading := ds_loading src\<rparr>
      in if started then el_scopeChanged s else s)"

definition on_source :: "(email_source \<Rightarrow> email_source) \<Rightarrow> email_list \<Rightarrow> email_list" where
  "on_source f s = (case el_source s of None \<Rightarrow> s | Some src \<Rightarrow> el_sync (f src) s)"

definition el_refresh :: "email_list \<Rightarrow> email_list" where
  "el_refresh s =
     (if \<not> el_alive s then s
      else (case el_source s of
          Some src \<Rightarrow> el_sync (pg_load emails_fetchPage 0 src) s
        | None \<Rightarrow> (el_scopeChanged s)\<lparr>el_visible := [], el_loading := False\<rparr>))"

definition el_campaign_params :: "string option \<Rightarrow> email_list \<Rightarrow> email_list \<times> api_call list" where
  "el_campaign_params i s =
     (let s = (el_scopeChanged s)\<lparr>el_campaignLoading := True, el_campaignError := False,
                el_selected := []\<rparr> in
      case i of
        Some (c # cs) \<Rightarrow>
          (s\<lparr>el_campaign := Some (el_next s), el_next := Suc (el_next s)\<rparr>, [GetEmailCampaign (c # cs)])
      | _ \<Rightarrow>
          (s\<lparr>el_campaign := None, el_campaignError := True, el_campaignLoading := False,
             el_state := el_routeState s, el_source := None, el_visible := [], el_loading := False\<rparr>, []))"

definition el_campaign_answer ::
  "nat \<Rightarrow> api_error + ModelsEmailCampaign option \<Rightarrow> email_list \<Rightarrow> email_list" where
  "el_campaign_answer t r s =
     (if el_campaign s \<noteq> Some t then s
      else (let s = s\<lparr>el_campaign := None, el_campaignLoading := False, el_state := el_routeState s,
              el_visible := [], el_loading := False,
              el_campaignError := (case r of Inl _ \<Rightarrow> True | Inr _ \<Rightarrow> el_campaignError s)\<rparr>
            in s\<lparr>el_source :=
                 (case (case r of Inl _ \<Rightarrow> None | Inr c \<Rightarrow> Option.bind c cmp_id) of
                    Some (i # is) \<Rightarrow> Some (new_email_source (i # is) (el_state s))
                  | _ \<Rightarrow> None)\<rparr>))"

definition el_route :: "(string \<Rightarrow> string option) \<Rightarrow> email_list \<Rightarrow> email_list" where
  "el_route p s =
     (let state = nullish (p ''state'') [];
          rs = (if state \<in> set email_states then state else [])
      in on_source (setState rs) (s\<lparr>el_routeState := rs, el_state := rs\<rparr>))"

definition el_setState :: "string \<Rightarrow> email_list \<Rightarrow> email_list \<times> list_message ui_effect list" where
  "el_setState state s =
     (on_source (setState state) (s\<lparr>el_routeState := state, el_state := state\<rparr>),
      [QueryParams [(''state'', if state = [] then None else Some state)]])"

subsection \<open>Actions on rows\<close>

definition canAct :: "email_list \<Rightarrow> bool" where
  "canAct s \<longleftrightarrow> \<not> el_loading s \<and> \<not> el_campaignLoading s \<and> \<not> el_campaignError s \<and> \<not> el_busyAction s"

definition isUsable :: "email_list \<Rightarrow> ModelsEmailSummary \<Rightarrow> bool" where
  "isUsable s row \<longleftrightarrow> canAct s \<and> truthy_str (esm_id row) \<and>
     list_ex (\<lambda>item. esm_id item = esm_id row \<and> esm_state item = esm_state row) (el_visible s)"

definition el_canDelete :: "bool \<Rightarrow> email_list \<Rightarrow> ModelsEmailSummary \<Rightarrow> bool" where
  "el_canDelete allow s row =
     (if \<not> isUsable s row \<or> esm_state row = Some ''SENDING'' then False else allow)"

text \<open>The closure of an open confirmation: the frozen rows, the revision and the action.\<close>

type_synonym confirmation = "ModelsEmailSummary list \<times> nat \<times> row_action"

definition confirmRows ::
  "ModelsEmailSummary list \<Rightarrow> row_action \<Rightarrow> email_list \<Rightarrow> confirmation option" where
  "confirmRows rows action s =
     (if rows = [] \<or> \<not> list_all (isUsable s) rows then None else Some (rows, el_revision s, action))"

definition el_delete :: "ModelsEmailSummary \<Rightarrow> email_list \<Rightarrow> confirmation option" where
  "el_delete row s =
     (if esm_state row = Some ''SENDING'' then None else confirmRows [row] DeleteRows s)"

definition bulkDelete :: "email_list \<Rightarrow> confirmation option" where
  "bulkDelete s =
     confirmRows (filter (\<lambda>row. esm_state row \<noteq> Some ''SENDING'') (el_selected s)) DeleteRows s"

definition sendOne :: "ModelsEmailSummary \<Rightarrow> email_list \<Rightarrow> confirmation option" where
  "sendOne row s = (if \<not> canSendEmail (esm_state row) then None else confirmRows [row] SendRows s)"

definition bulkSend :: "email_list \<Rightarrow> confirmation option" where
  "bulkSend s = confirmRows (filter (\<lambda>row. canSendEmail (esm_state row)) (el_selected s)) SendRows s"

definition resetOne :: "ModelsEmailSummary \<Rightarrow> email_list \<Rightarrow> confirmation option" where
  "resetOne row s = (if \<not> canResetEmail (esm_state row) then None else confirmRows [row] ResetRow s)"

definition row_id :: "ModelsEmailSummary \<Rightarrow> string" where
  "row_id row = nullish (esm_id row) ''undefined''"

definition run_action ::
  "row_action \<Rightarrow> ModelsEmailSummary list \<Rightarrow> email_list \<Rightarrow> email_list \<times> list_message ui_effect list" where
  "run_action action rows s =
     (s\<lparr>el_busyAction := True\<rparr>,
      case action of
        DeleteRows \<Rightarrow> map (\<lambda>row. Send (DeleteEmail (row_id row))) rows
      | SendRows \<Rightarrow> [Form (SendingPopup rows)]
      | ResetRow \<Rightarrow> [Send (EmailSetError (row_id (hd rows)))])"

text \<open>A page that was destroyed no longer listens to the dialog nor to the requests of an action.\<close>

definition confirm_closed ::
  "confirmation \<Rightarrow> bool \<Rightarrow> email_list \<Rightarrow> email_list \<times> list_message ui_effect list" where
  "confirm_closed c confirmed s =
     (case c of (frozen, revision, action) \<Rightarrow>
        if \<not> el_alive s \<or> \<not> confirmed then (s, [])
        else if revision \<noteq> el_revision s \<or> \<not> list_all (isUsable s) frozen
        then (s, [Info ListChanged])
        else run_action action frozen s)"

text \<open>The end of an action: its requests completed, failed, or the window was closed.\<close>

definition action_done ::
  "row_action \<Rightarrow> api_error option \<Rightarrow> email_list \<Rightarrow> email_list \<times> list_message ui_effect list" where
  "action_done action r s =
     (if \<not> el_alive s then (s, []) else case action of
        SendRows \<Rightarrow> ((el_refresh s)\<lparr>el_busyAction := False\<rparr>, [])
      | DeleteRows \<Rightarrow> (el_refresh (s\<lparr>el_busyAction := False\<rparr>),
          [case r of None \<Rightarrow> Info RowsDeleted | Some e \<Rightarrow> Failure RowsNotDeleted e])
      | ResetRow \<Rightarrow> (el_refresh (s\<lparr>el_busyAction := False\<rparr>),
          [case r of None \<Rightarrow> Info ResendAllowed | Some e \<Rightarrow> Failure StateNotChanged e]))"

definition loadDetails ::
  "ModelsEmailSummary \<Rightarrow> api_call \<Rightarrow> email_list \<Rightarrow> email_list \<times> list_message ui_effect list" where
  "loadDetails row request s =
     (if \<not> isUsable s row \<or> truthy_str (el_previewingId s) then (s, [])
      else (s\<lparr>el_previewingId := esm_id row\<rparr>, [Send request]))"

definition el_show :: "ModelsEmailSummary \<Rightarrow> email_list \<Rightarrow> email_list \<times> list_message ui_effect list" where
  "el_show row s = loadDetails row (GetEmail (row_id row)) s"

definition showError :: "ModelsEmailSummary \<Rightarrow> email_list \<Rightarrow> email_list \<times> list_message ui_effect list" where
  "showError row s = loadDetails row (GetEmailStatus (row_id row)) s"

definition details_done ::
  "list_message ui_effect list \<Rightarrow> email_list \<Rightarrow> email_list \<times> list_message ui_effect list" where
  "details_done out s =
     (if el_previewingId s = None then (s, []) else (s\<lparr>el_previewingId := None\<rparr>, out))"

definition status_shown :: "ModelsEmailStatus option \<Rightarrow> list_message ui_effect list" where
  "status_shown status =
     [Info (StatusShown (let e = Option.bind status est_error in if truthy_str e then e else None))]"

definition toolbar_actions :: "bool \<Rightarrow> bool \<Rightarrow> ModelsEmailSummary list \<Rightarrow> row_action list" where
  "toolbar_actions canDelete canSend selected =
     (if canDelete \<and> list_ex (\<lambda>row. esm_state row \<noteq> Some ''SENDING'') selected then [DeleteRows] else []) @
     (if canSend \<and> list_ex (\<lambda>row. canSendEmail (esm_state row)) selected then [SendRows] else [])"

text \<open>The requests in flight are given up, and their \<open>finalize\<close> runs.\<close>

definition el_destroy :: "email_list \<Rightarrow> email_list" where
  "el_destroy s = s\<lparr>el_alive := False, el_previewingId := None, el_campaign := None,
     el_busyAction := False\<rparr>"

subsection \<open>Runs of the list\<close>

datatype el_event =
    CampaignParams "string option"
  | CampaignAnswer nat "api_error + ModelsEmailCampaign option"
  | RouteParams "string \<Rightarrow> string option"
  | ChooseState string
  | SearchRows string
  | SortRows sort
  | PageRows int int
  | SourceTimer nat
  | SourceAnswer nat "api_error + ModelsEmailSummary page_result"
  | SelectRows "ModelsEmailSummary list"
  | Refresh
  | Confirmed confirmation bool
  | ActionDone row_action "api_error option"
  | ShowDetails "ModelsEmailSummary" api_call
  | DetailsDone
  | Destroy

fun el_apply :: "el_event \<Rightarrow> email_list \<Rightarrow> email_list" where
  "el_apply (CampaignParams i) s = fst (el_campaign_params i s)"
| "el_apply (CampaignAnswer t r) s = el_campaign_answer t r s"
| "el_apply (RouteParams p) s = el_route p s"
| "el_apply (ChooseState st) s = fst (el_setState st s)"
| "el_apply (SearchRows q) s = on_source (setFilter emails_fetchPage q) s"
| "el_apply (SortRows srt) s = on_source (setSort emails_fetchPage srt) s"
| "el_apply (PageRows i n) s = on_source (setPage emails_fetchPage i n) s"
| "el_apply (SourceTimer t) s = on_source (\<lambda>src. pg_timer emails_fetchPage src t) s"
| "el_apply (SourceAnswer t r) s = on_source (\<lambda>src. pg_respond src t r) s"
| "el_apply (SelectRows rows) s = s\<lparr>el_selected := rows\<rparr>"
| "el_apply Refresh s = el_refresh s"
| "el_apply (Confirmed c b) s = fst (confirm_closed c b s)"
| "el_apply (ActionDone a r) s = fst (action_done a r s)"
| "el_apply (ShowDetails row c) s = fst (loadDetails row c s)"
| "el_apply DetailsDone s = fst (details_done [] s)"
| "el_apply Destroy s = el_destroy s"

lemma sync_revision: "el_revision s \<le> el_revision (el_sync src s)"
  by (simp add: el_sync_def el_scopeChanged_def Let_def split: option.split)

lemma on_source_revision: "el_revision s \<le> el_revision (on_source f s)"
  by (simp add: on_source_def sync_revision split: option.split)

lemma refresh_revision: "el_revision s \<le> el_revision (el_refresh s)"
  by (simp add: el_refresh_def sync_revision el_scopeChanged_def split: option.split)

lemma el_revision_mono: "el_revision s \<le> el_revision (el_apply ev s)"
proof (cases ev)
  case (CampaignParams i)
  then show ?thesis
    by (auto simp: el_campaign_params_def el_scopeChanged_def Let_def split: option.split list.split)
next
  case (RouteParams p)
  then show ?thesis
    using on_source_revision [of "s\<lparr>el_routeState := x, el_state := x\<rparr>" "setState x" for x]
    by (simp add: el_route_def Let_def)
next
  case (ChooseState st)
  then show ?thesis
    using on_source_revision [of "s\<lparr>el_routeState := st, el_state := st\<rparr>" "setState st"]
    by (simp add: el_setState_def)
next
  case (Confirmed c b)
  then show ?thesis
    by (cases c) (simp add: confirm_closed_def run_action_def)
next
  case (ActionDone a r)
  then show ?thesis
    using refresh_revision [of s] refresh_revision [of "s\<lparr>el_busyAction := False\<rparr>"]
    by (cases a) (simp_all add: action_done_def)
qed (simp_all add: el_campaign_answer_def on_source_revision refresh_revision loadDetails_def
    details_done_def el_destroy_def Let_def)

lemma el_revision_run: "el_revision s \<le> el_revision (fold el_apply evs s)"
  by (induction evs arbitrary: s) (auto intro: order.trans [OF el_revision_mono])

lemma el_reload_revision:
  "el_alive s \<Longrightarrow> (case el_source s of None \<Rightarrow> True | Some src \<Rightarrow> \<not> ds_closed src) \<Longrightarrow>
   el_revision (el_refresh s) = Suc (el_revision s)"
  by (auto simp: el_refresh_def el_sync_def el_scopeChanged_def pg_load_def pg_finalize_def
      setError_def setLoading_def Let_def split: option.split)

lemma confirmRowsD:
  "confirmRows rows action s = Some c \<Longrightarrow>
   c = (rows, el_revision s, action) \<and> rows \<noteq> [] \<and> list_all (isUsable s) rows"
  by (auto simp: confirmRows_def split: if_splits)

text \<open>What the user asks for: an action on one row, or on the selected rows that admit it.\<close>

datatype row_request =
    AskDelete "ModelsEmailSummary"
  | AskSend "ModelsEmailSummary"
  | AskReset "ModelsEmailSummary"
  | AskDeleteSelected
  | AskSendSelected

fun ask_rows :: "row_request \<Rightarrow> email_list \<Rightarrow> confirmation option" where
  "ask_rows (AskDelete row) s = el_delete row s"
| "ask_rows (AskSend row) s = sendOne row s"
| "ask_rows (AskReset row) s = resetOne row s"
| "ask_rows AskDeleteSelected s = bulkDelete s"
| "ask_rows AskSendSelected s = bulkSend s"

fun requested_rows :: "row_request \<Rightarrow> email_list \<Rightarrow> ModelsEmailSummary list" where
  "requested_rows (AskDelete row) s = [row]"
| "requested_rows (AskSend row) s = [row]"
| "requested_rows (AskReset row) s = [row]"
| "requested_rows AskDeleteSelected s = filter (\<lambda>row. esm_state row \<noteq> Some ''SENDING'') (el_selected s)"
| "requested_rows AskSendSelected s = filter (\<lambda>row. canSendEmail (esm_state row)) (el_selected s)"

fun requested_action :: "row_request \<Rightarrow> row_action" where
  "requested_action (AskDelete row) = DeleteRows"
| "requested_action (AskSend row) = SendRows"
| "requested_action (AskReset row) = ResetRow"
| "requested_action AskDeleteSelected = DeleteRows"
| "requested_action AskSendSelected = SendRows"

text \<open>What the action does to rows: one request for each, or the window that sends them.\<close>

fun carried_out :: "row_action \<Rightarrow> ModelsEmailSummary list \<Rightarrow> list_message ui_effect list" where
  "carried_out DeleteRows rows = map (\<lambda>row. Send (DeleteEmail (row_id row))) rows"
| "carried_out SendRows rows = [Form (SendingPopup rows)]"
| "carried_out ResetRow rows = map (\<lambda>row. Send (EmailSetError (row_id row))) rows"

fun admits :: "row_action \<Rightarrow> string option \<Rightarrow> bool" where
  "admits DeleteRows st = (st \<noteq> Some ''SENDING'')"
| "admits SendRows st = canSendEmail st"
| "admits ResetRow st = canResetEmail st"

lemma ask_rowsD:
  assumes "ask_rows q s = Some c"
  shows "c = (requested_rows q s, el_revision s, requested_action q) \<and> requested_rows q s \<noteq> [] \<and>
    list_all (isUsable s) (requested_rows q s) \<and>
    (\<forall>row \<in> set (requested_rows q s). admits (requested_action q) (esm_state row))"
  using assms
  by (cases q) (auto simp: el_delete_def sendOne_def resetOne_def bulkDelete_def bulkSend_def
      dest!: confirmRowsD split: if_splits)

lemma run_action_out:
  "requested_action q = action \<Longrightarrow> snd (run_action action (requested_rows q s\<^sub>0) s) =
     carried_out action (requested_rows q s\<^sub>0)"
  by (cases q) (auto simp: run_action_def)

subsection \<open>Properties\<close>

text \<open>
  C28. The window sends each e-mail of the selection at most once, in the order of the selection,
  and the next only when the previous request is over: after any answers and cancellation, what
  was sent is a prefix of the selection with at most one request more than were over; and when
  nothing is in flight and it was not cancelled, every e-mail was sent and counted once, as sent
  or as an error.
\<close>
theorem selection_sent_once:
  assumes "fold sp_apply evs (sp_start emails) = (s, cs)"
  shows "cs = map send_call (take (sp_current s + (if sp_inflight s then 1 else 0)) emails) \<and>
    (\<not> sp_inflight s \<and> \<not> sp_cancelled s \<longrightarrow>
       cs = map send_call emails \<and> sp_sent s + sp_errors s = length emails \<and> \<not> sp_sending s) \<and>
    0 \<le> sp_remaining s"
proof -
  have "sp_inv emails (s, cs)"
    using sp_inv_run [OF sp_inv_start, of emails evs] assms by simp
  then show ?thesis
    by (auto simp: sp_inv_def sp_sending_def sp_remaining_def sp_total_def)
qed

definition mail_1 :: ModelsEmailSummary where
  "mail_1 = \<lparr>esm_created_at = None, esm_has_error = None, esm_id = Some ''e1'',
     esm_state = Some ''WAITING'', esm_subject = None, esm_to = Some ''a@b''\<rparr>"

definition mail_2 :: ModelsEmailSummary where
  "mail_2 = mail_1\<lparr>esm_id := Some ''e2''\<rparr>"

theorem selection_sent_once_witness:
  "fold sp_apply [SpAnswer True, SpAnswer False] (sp_start [mail_1, mail_2]) =
     (\<lparr>sp_emails = [mail_1, mail_2], sp_current = 2, sp_sent = 1, sp_errors = 1,
        sp_inflight = False, sp_cancelled = False\<rparr>,
      [send_call mail_1, send_call mail_2]) \<and>
   map send_call [mail_1, mail_2] = [send_call mail_1, send_call mail_2]"
proof -
  have r: "fold sp_apply [SpAnswer True, SpAnswer False] (sp_start [mail_1, mail_2]) =
     (\<lparr>sp_emails = [mail_1, mail_2], sp_current = 2, sp_sent = 1, sp_errors = 1,
        sp_inflight = False, sp_cancelled = False\<rparr>,
      [send_call mail_1, send_call mail_2])"
    by (simp add: sp_start_def sp_next_def sp_answer_def sp_total_def)
  from selection_sent_once [OF r] r show ?thesis by simp
qed

text \<open>With answers alone, the window advances by one e-mail per answer until none is left.\<close>

lemma sending_run:
  "fold sp_apply (map SpAnswer oks) (sp_start emails) =
    (let k = min (length oks) (length emails); more = length oks < length emails
     in (\<lparr>sp_emails = emails, sp_current = k, sp_sent = length (filter id (take k oks)),
          sp_errors = length (filter Not (take k oks)), sp_inflight = more, sp_cancelled = False\<rparr>,
        map send_call (take (Suc (length oks)) emails)))"
proof (induction oks rule: rev_induct)
  case Nil
  show ?case by (cases emails) (simp_all add: sp_start_def sp_next_def sp_total_def)
next
  case (snoc ok oks)
  consider "Suc (length oks) < length emails" | "Suc (length oks) = length emails" | "length emails \<le> length oks"
    by linarith
  then show ?case
  proof cases
    case 1
    then have "take (Suc (Suc (length oks))) emails = take (Suc (length oks)) emails @ [emails ! Suc (length oks)]"
      by (simp add: take_Suc_conv_app_nth)
    with 1 snoc show ?thesis by (simp add: sp_answer_def sp_next_def sp_total_def Let_def)
  next
    case 2
    with snoc show ?thesis by (simp add: sp_answer_def sp_next_def sp_total_def Let_def)
  next
    case 3
    with snoc show ?thesis by (simp add: sp_answer_def Let_def)
  qed
qed

lemma sending_stopped:
  "sp_cancelled s \<and> \<not> sp_inflight s \<Longrightarrow>
   snd (fold sp_apply evs (s, cs)) = cs \<and> \<not> sp_inflight (fst (fold sp_apply evs (s, cs)))"
proof (induction evs arbitrary: s)
  case (Cons ev evs)
  obtain s' where "sp_apply ev (s, cs) = (s', cs)" "sp_cancelled s' \<and> \<not> sp_inflight s'"
    using Cons.prems by (cases ev) (simp_all add: sp_answer_def sp_cancel_def)
  with Cons.IH show ?case by simp
qed simp

text \<open>
  C31. Sending comes to an end. As long as the server answers and nobody cancels, the window is still
  sending after n answers exactly when the selection has more than n e-mails: it is over after as
  many answers as there are e-mails, whatever the answers say, with each one counted as sent or as an
  error and nothing in flight; and once the user has cancelled, at any moment, nothing is in flight
  and no event makes it send again.
\<close>
theorem sending_terminates:
  "(let (s, cs) = fold sp_apply (map SpAnswer oks) (sp_start emails)
    in (sp_sending s \<longleftrightarrow> length oks < length emails) \<and>
       (sp_inflight s \<longleftrightarrow> length oks < length emails) \<and>
       length cs = min (Suc (length oks)) (length emails) \<and>
       sp_sent s = length (filter id (take (length emails) oks)) \<and>
       sp_sent s + sp_errors s = min (length oks) (length emails)) \<and>
   (let stopped = sp_apply SpCancel (fold sp_apply before (sp_start emails))
    in snd (fold sp_apply after stopped) = snd (fold sp_apply before (sp_start emails)) \<and>
       \<not> sp_inflight (fst (fold sp_apply after stopped)))"
proof -
  have count: "length (filter id xs) + length (filter Not xs) = length xs" for xs
    by (induction xs) auto
  have take: "take (min (length oks) (length emails)) oks = take (length emails) oks"
    by (cases "length oks \<le> length emails") (simp_all add: min_def)
  obtain s cs where x: "fold sp_apply before (sp_start emails) = (s, cs)" by fastforce
  have "sp_cancelled (sp_cancel s) \<and> \<not> sp_inflight (sp_cancel s)" by (simp add: sp_cancel_def)
  from sending_stopped [OF this, of after cs] x
  show ?thesis
    by (simp add: sending_run Let_def sp_sending_def sp_remaining_def sp_total_def take count min.commute
      min_less_iff_disj)
qed

text \<open>
  C29. An action on e-mails is only carried out on what the user saw and confirmed: when a
  confirmation that the user asked for in a state \<open>s\<^sub>0\<close>, on a row or on the selection, leads to
  effects after any events, then they are that action on exactly those rows, one request for each (or
  the window that sends them), in their order; it was confirmed on a page that is still there, no event
  in between started a load, a change of campaign or any other renewal of the list, every row has an
  identifier and is on display again with its state unchanged, nothing else is being done, and the
  state of each row admits the action (no e-mail being sent is deleted, only waiting or failed ones
  are sent, only sent or uncertain ones are reset).
\<close>
theorem action_on_confirmed_rows:
  assumes "ask_rows q s\<^sub>0 = Some c" and "s = fold el_apply evs s\<^sub>0"
    and "snd (confirm_closed c confirmed s) \<noteq> []"
    and "snd (confirm_closed c confirmed s) \<noteq> [Info ListChanged]"
  shows "snd (confirm_closed c confirmed s) = carried_out (requested_action q) (requested_rows q s\<^sub>0) \<and>
    confirmed \<and> el_alive s \<and>
    (\<forall>evs\<^sub>1 ev evs\<^sub>2. evs = evs\<^sub>1 @ ev # evs\<^sub>2 \<longrightarrow>
       el_revision (el_apply ev (fold el_apply evs\<^sub>1 s\<^sub>0)) = el_revision (fold el_apply evs\<^sub>1 s\<^sub>0)) \<and>
    (\<forall>row \<in> set (requested_rows q s\<^sub>0). truthy_str (esm_id row) \<and>
       (\<exists>item \<in> set (el_visible s). esm_id item = esm_id row \<and> esm_state item = esm_state row) \<and>
       (case requested_action q of
          DeleteRows \<Rightarrow> esm_state row \<noteq> Some ''SENDING''
        | SendRows \<Rightarrow> canSendEmail (esm_state row)
        | ResetRow \<Rightarrow> canResetEmail (esm_state row))) \<and>
    canAct s \<and> el_busyAction (fst (confirm_closed c confirmed s))"
proof -
  note o = ask_rowsD [OF assms(1)]
  let ?rows = "requested_rows q s\<^sub>0"
  from assms(3,4) o have c: confirmed "el_alive s" "el_revision s\<^sub>0 = el_revision s"
    "list_all (isUsable s) ?rows"
    "confirm_closed c confirmed s = run_action (requested_action q) ?rows s"
    by (auto simp: confirm_closed_def split: if_splits)
  have r: "el_revision (el_apply ev (fold el_apply evs\<^sub>1 s\<^sub>0)) = el_revision (fold el_apply evs\<^sub>1 s\<^sub>0)"
    if "evs = evs\<^sub>1 @ ev # evs\<^sub>2" for evs\<^sub>1 ev evs\<^sub>2
  proof -
    let ?m = "fold el_apply evs\<^sub>1 s\<^sub>0"
    have "el_revision s\<^sub>0 \<le> el_revision ?m" by (rule el_revision_run)
    moreover have "el_revision ?m \<le> el_revision (el_apply ev ?m)" by (rule el_revision_mono)
    moreover have "el_revision (el_apply ev ?m) \<le> el_revision s"
      using el_revision_run [of "el_apply ev ?m" evs\<^sub>2] assms(2) that by simp
    ultimately show ?thesis using c(3) by simp
  qed
  have rows: "truthy_str (esm_id row) \<and>
       (\<exists>item \<in> set (el_visible s). esm_id item = esm_id row \<and> esm_state item = esm_state row) \<and>
       canAct s" if "row \<in> set ?rows" for row
    using c(4) that by (auto simp: list_all_iff isUsable_def list_ex_iff)
  moreover have "canAct s" using rows o by (cases ?rows) auto
  moreover have "\<forall>row \<in> set ?rows. case requested_action q of
          DeleteRows \<Rightarrow> esm_state row \<noteq> Some ''SENDING''
        | SendRows \<Rightarrow> canSendEmail (esm_state row)
        | ResetRow \<Rightarrow> canResetEmail (esm_state row)"
    using o by (cases "requested_action q") simp_all
  moreover have "el_busyAction (fst (confirm_closed c confirmed s))" by (simp add: c(5) run_action_def)
  ultimately show ?thesis
    using c(1,2) r run_action_out [OF refl] unfolding c(5) by blast
qed

definition loaded_list :: email_list where
  "loaded_list = new_email_list\<lparr>el_visible := [mail_1, mail_2], el_campaignLoading := False,
     el_selected := [mail_2]\<rparr>"

theorem action_on_confirmed_rows_witness:
  "ask_rows AskDeleteSelected loaded_list = Some ([mail_2], 0, DeleteRows) \<and>
   snd (confirm_closed ([mail_2], 0, DeleteRows) True (fold el_apply [SelectRows []] loaded_list)) =
     [Send (DeleteEmail ''e2'')] \<and> canAct (fold el_apply [SelectRows []] loaded_list)"
proof -
  let ?s = "fold el_apply [SelectRows []] loaded_list"
  have o: "ask_rows AskDeleteSelected loaded_list = Some ([mail_2], 0, DeleteRows)"
    by (simp add: bulkDelete_def confirmRows_def isUsable_def canAct_def loaded_list_def
        new_email_list_def mail_1_def mail_2_def)
  have e: "snd (confirm_closed ([mail_2], 0, DeleteRows) True ?s) \<noteq> []"
    "snd (confirm_closed ([mail_2], 0, DeleteRows) True ?s) \<noteq> [Info ListChanged]"
    by (simp_all add: confirm_closed_def run_action_def isUsable_def canAct_def loaded_list_def
        new_email_list_def mail_1_def mail_2_def)
  have "requested_rows AskDeleteSelected loaded_list = [mail_2]" "row_id mail_2 = ''e2''"
    by (simp_all add: loaded_list_def new_email_list_def mail_1_def mail_2_def row_id_def nullish_def)
  with action_on_confirmed_rows [OF o refl e] o show ?thesis by simp
qed

end
