(* ===== verification/Mailings.thy ===== *)
theory Mailings
  imports Ui Data_Sources
begin

text \<open>
  \<open>mailings/mailings.component.ts\<close>: the comparison of the mailing lists with the directory and
  their synchronisation. The preview is loaded by one subscription at a time (the locale
  \<open>latest_source\<close>); the synchronisation is confirmed, and sent with the token of the plan the
  user confirmed.
\<close>

datatype mailings_error = ListsUnreadable | ResultUnknown

text \<open>The question holds the counts and the lists it announces to be emptied.\<close>

datatype mailings_message = SyncQuestion nat nat "string option"

record mailings =
  mg_plan :: "MailingsPlan option"
  mg_loading :: bool
  mg_busy :: bool
  mg_confirming :: bool
  mg_error :: "mailings_error option"
  mg_message :: string
  mg_verified :: bool
  mg_allowed :: bool
  mg_load :: "nat option"
  mg_next :: nat
  mg_sync :: bool

definition new_mailings :: mailings where
  "new_mailings = \<lparr>mg_plan = None, mg_loading = False, mg_busy = False, mg_confirming = False,
     mg_error = None, mg_message = [], mg_verified = False, mg_allowed = False, mg_load = None,
     mg_next = 0, mg_sync = False\<rparr>"

text \<open>\<open>cancelLoad\<close> ends the load and the synchronisation in flight; their \<open>finalize\<close> runs.\<close>

definition cancelLoad :: "mailings \<Rightarrow> mailings" where
  "cancelLoad s =
     (let s = (if mg_load s \<noteq> None then s\<lparr>mg_load := None, mg_loading := False\<rparr> else s)
      in if mg_sync s then s\<lparr>mg_sync := False, mg_busy := False\<rparr> else s)"

definition mg_reset :: "mailings \<Rightarrow> mailings" where
  "mg_reset s = s\<lparr>mg_plan := None, mg_error := None, mg_message := [], mg_verified := False\<rparr>"

definition mg_refresh :: "mailings \<Rightarrow> mailings" where
  "mg_refresh s =
     (if \<not> mg_allowed s \<or> mg_busy s then s
      else (mg_reset ((cancelLoad s)\<lparr>mg_loading := True\<rparr>))
             \<lparr>mg_load := Some (mg_next s), mg_next := Suc (mg_next s)\<rparr>)"

definition mg_refresh_calls :: "mailings \<Rightarrow> mailings_message ui_effect list" where
  "mg_refresh_calls s = (if \<not> mg_allowed s \<or> mg_busy s then [] else [Send PreviewMailingLists])"

definition administrator_next ::
  "bool \<Rightarrow> mailings \<Rightarrow> mailings \<times> mailings_message ui_effect list" where
  "administrator_next allow s =
     (let s = mg_reset (cancelLoad (s\<lparr>mg_allowed := allow\<rparr>)) in
      if allow then (mg_refresh s, mg_refresh_calls s) else (s, []))"

definition mg_answer :: "api_error + MailingsPlan option \<Rightarrow> mailings \<Rightarrow> mailings" where
  "mg_answer r s =
     (case r of
        Inr p \<Rightarrow> s\<lparr>mg_plan := p, mg_loading := False\<rparr>
      | Inl _ \<Rightarrow> s\<lparr>mg_error := Some ListsUnreadable, mg_loading := False\<rparr>)"

definition mg_deliver :: "mailings \<Rightarrow> nat \<Rightarrow> api_error + MailingsPlan option \<Rightarrow> mailings" where
  "mg_deliver s t r = (if mg_load s = Some t then mg_answer r (s\<lparr>mg_load := None\<rparr>) else s)"

definition plan_lists :: "mailings \<Rightarrow> MailingsListPlan list" where
  "plan_lists s = nullish (Option.bind (mg_plan s) mpl_lists) []"

definition addCount :: "mailings \<Rightarrow> nat" where
  "addCount s = foldl (\<lambda>n l. n + length (nullish (mlp_add l) [])) 0 (plan_lists s)"

definition removeCount :: "mailings \<Rightarrow> nat" where
  "removeCount s = foldl (\<lambda>n l. n + length (nullish (mlp_remove l) [])) 0 (plan_lists s)"

definition mg_pending :: "mailings \<Rightarrow> bool" where
  "mg_pending s = list_ex (\<lambda>l. length (nullish (mlp_pending_tasks l) []) > 0) (plan_lists s)"

definition synchronized :: "mailings \<Rightarrow> bool" where
  "synchronized s \<longleftrightarrow>
     (case mg_plan s of
        None \<Rightarrow> False
      | Some p \<Rightarrow> truthy_bool (mpl_configured p) \<and> \<not> mg_loading s \<and> \<not> mg_pending s \<and>
          nullish (mpl_invalid p) [] = [] \<and> addCount s + removeCount s = 0)"

text \<open>\<open>''\<close> and a plan without lists announce nothing.\<close>

definition emptied :: "mailings \<Rightarrow> string option" where
  "emptied s =
     (let names = join_str '', '' (map (\<lambda>l. nullish (mlp_group l) [])
            (filter (\<lambda>l. mlp_expected l = Some [] \<and> length (nullish (mlp_remove l) []) > 0) (plan_lists s)))
      in if names = [] then None else Some names)"

text \<open>\<open>Some token\<close>: the dialog opened, and its closure holds the token of the plan.\<close>

definition mg_synchronise ::
  "mailings \<Rightarrow> mailings \<times> string option option \<times> mailings_message ui_effect list" where
  "mg_synchronise s =
     (case mg_plan s of
        Some p \<Rightarrow>
          if \<not> mg_allowed s \<or> \<not> truthy_bool (mpl_can_apply p) \<or> mg_loading s \<or> mg_busy s \<or>
             mg_confirming s
          then (s, None, [])
          else (s\<lparr>mg_confirming := True\<rparr>, Some (mpl_token p),
                [Ask (SyncQuestion (addCount s) (removeCount s) (emptied s))])
      | None \<Rightarrow> (s, None, []))"

definition sync_closed ::
  "string option \<Rightarrow> bool \<Rightarrow> mailings \<Rightarrow> mailings \<times> mailings_message ui_effect list" where
  "sync_closed token ok s =
     (let s = s\<lparr>mg_confirming := False\<rparr> in
      if \<not> ok \<or> \<not> mg_allowed s \<or> mg_loading s \<or> Option.bind (mg_plan s) mpl_token \<noteq> token
      then (s, [])
      else (s\<lparr>mg_busy := True, mg_error := None, mg_message := [], mg_sync := True\<rparr>,
            [Send (SyncMailingLists (nullish token ''undefined''))]))"

definition sync_answer :: "api_error + MailingsResult option \<Rightarrow> mailings \<Rightarrow> mailings" where
  "sync_answer r s =
     (if \<not> mg_sync s then s
      else (let s = s\<lparr>mg_sync := False, mg_busy := False\<rparr> in
        case r of
          Inr v \<Rightarrow> s\<lparr>mg_plan := Option.bind v mrs_plan,
            mg_verified := nullish (Option.bind v mrs_verified) False,
            mg_message := nullish (Option.bind v mrs_message) []\<rparr>
        | Inl _ \<Rightarrow> s\<lparr>mg_plan := None, mg_error := Some ResultUnknown\<rparr>))"

definition mg_destroy :: "mailings \<Rightarrow> mailings" where
  "mg_destroy s = cancelLoad s"

lemmas mailings_defs = cancelLoad_def mg_reset_def mg_refresh_def mg_refresh_calls_def
  administrator_next_def mg_answer_def mg_deliver_def mg_synchronise_def sync_closed_def
  sync_answer_def Let_def

subsection \<open>The latest preview wins\<close>

definition mg_inv :: "mailings \<Rightarrow> bool" where
  "mg_inv s \<longleftrightarrow> (mg_loading s \<longleftrightarrow> mg_load s \<noteq> None) \<and> (mg_busy s \<longleftrightarrow> mg_sync s) \<and>
     (mg_loading s \<longrightarrow> mg_plan s = None \<and> mg_error s = None \<and> \<not> mg_busy s \<and> mg_allowed s)"

definition mg_ready :: "mailings \<Rightarrow> bool" where
  "mg_ready s \<longleftrightarrow> mg_inv s \<and> mg_allowed s \<and> \<not> mg_busy s"

definition mg_view :: "mailings \<Rightarrow> MailingsPlan option \<times> mailings_error option \<times> bool" where
  "mg_view s = (mg_plan s, mg_error s, mg_loading s)"

definition mg_rendered ::
  "api_error + MailingsPlan option \<Rightarrow> MailingsPlan option \<times> mailings_error option \<times> bool" where
  "mg_rendered r = (case r of Inr p \<Rightarrow> (p, None, False) | Inl _ \<Rightarrow> (None, Some ListsUnreadable, False))"

interpretation preview:
  latest_source mg_refresh mg_deliver mg_load mg_next mg_view mg_rendered mg_ready
proof unfold_locales
  fix s :: mailings and t and r :: "api_error + MailingsPlan option"
  assume inv: "mg_ready s"
  then show "mg_ready (mg_refresh s)" "mg_load (mg_refresh s) = Some (mg_next s)"
    "mg_next (mg_refresh s) = Suc (mg_next s)"
    by (auto simp: mg_ready_def mg_inv_def mailings_defs)
  from inv show "mg_ready (mg_deliver s t r)"
    by (cases r) (auto simp: mg_ready_def mg_inv_def mailings_defs)
  show "mg_load s \<noteq> Some t \<Longrightarrow> mg_deliver s t r = s" by (simp add: mg_deliver_def)
  assume "mg_load s = Some t"
  with inv show "mg_load (mg_deliver s t r) = None" "mg_view (mg_deliver s t r) = mg_rendered r"
    by (cases r; simp add: mg_ready_def mg_inv_def mailings_defs mg_view_def mg_rendered_def)+
qed

subsection \<open>Runs\<close>

inductive mailings_step :: "mailings \<Rightarrow> mailings \<Rightarrow> bool" where
  administrator: "mailings_step s (fst (administrator_next b s))"
| refresh: "mailings_step s (mg_refresh s)"
| deliver: "mailings_step s (mg_deliver s t r)"
| ask: "mailings_step s (fst (mg_synchronise s))"
| closed: "mg_confirming s \<Longrightarrow> mailings_step s (fst (sync_closed token ok s))"
| answer: "mailings_step s (sync_answer sr s)"

inductive mailings_reachable :: "mailings \<Rightarrow> bool" where
  start: "mailings_reachable new_mailings"
| step: "mailings_reachable s \<Longrightarrow> mailings_step s s' \<Longrightarrow> mailings_reachable s'"

lemma mg_inv_refresh: "mg_inv s \<Longrightarrow> mg_inv (mg_refresh s)"
  by (auto simp: mg_inv_def mailings_defs)

lemma mg_inv_reset: "mg_inv s \<Longrightarrow> mg_inv (mg_reset (cancelLoad (s\<lparr>mg_allowed := b\<rparr>)))"
  by (auto simp: mg_inv_def mailings_defs)

lemma mg_inv_step: "mailings_step s s' \<Longrightarrow> mg_inv s \<Longrightarrow> mg_inv s'"
proof (induction rule: mailings_step.induct)
  case (administrator s b)
  then show ?case
    using mg_inv_reset [of s b] mg_inv_refresh [of "mg_reset (cancelLoad (s\<lparr>mg_allowed := b\<rparr>))"]
    by (cases b) (simp_all add: administrator_next_def Let_def)
next
  case (refresh s)
  then show ?case by (rule mg_inv_refresh)
next
  case (deliver s t r)
  then show ?case by (cases r) (auto simp: mg_inv_def mg_deliver_def mg_answer_def)
next
  case (ask s)
  then show ?case by (auto simp: mg_inv_def mg_synchronise_def split: option.splits)
next
  case (closed s token ok)
  then show ?case by (auto simp: mg_inv_def sync_closed_def Let_def)
next
  case (answer s sr)
  then show ?case by (cases sr) (auto simp: mg_inv_def sync_answer_def Let_def)
qed

lemma mailings_reachable_inv: "mailings_reachable s \<Longrightarrow> mg_inv s"
proof (induction rule: mailings_reachable.induct)
  case start
  show ?case by (simp add: mg_inv_def new_mailings_def)
qed (blast intro: mg_inv_step)

subsection \<open>Properties\<close>

text \<open>
  C30. The lists are only changed as they were shown: when the dialog of a synchronisation, opened
  in a state \<open>s\<^sub>0\<close>, makes the component send anything from a reachable state, it was confirmed, the
  user is still allowed to, no preview is loading, and the plan on display has the token of the
  plan that was on display when the question was asked, which the server declared applicable;
  that token is what is sent, and while its request is in flight neither a refresh nor another
  synchronisation starts.
\<close>
theorem synchronises_confirmed_plan:
  assumes "mailings_reachable s" and "mg_synchronise s\<^sub>0 = (s\<^sub>1, Some token, out)"
    and "Send call \<in> set (snd (sync_closed token ok s))"
  shows "ok \<and> mg_allowed s \<and> mg_load s = None \<and> call = SyncMailingLists (nullish token ''undefined'') \<and>
    (\<exists>p. mg_plan s\<^sub>0 = Some p \<and> mpl_token p = token \<and> truthy_bool (mpl_can_apply p) \<and> mg_allowed s\<^sub>0) \<and>
    Option.bind (mg_plan s) mpl_token = token \<and>
    (let s' = fst (sync_closed token ok s) in
       mg_busy s' \<and> mg_refresh s' = s' \<and> mg_refresh_calls s' = [] \<and> snd (snd (mg_synchronise s')) = [])"
proof -
  from assms(2) obtain p where p: "mg_plan s\<^sub>0 = Some p" "mpl_token p = token"
    "truthy_bool (mpl_can_apply p)" "mg_allowed s\<^sub>0"
    by (auto simp: mg_synchronise_def split: option.splits if_splits)
  from assms(3) have c: "ok" "mg_allowed s" "\<not> mg_loading s"
    "Option.bind (mg_plan s) mpl_token = token" "call = SyncMailingLists (nullish token ''undefined'')"
    by (auto simp: sync_closed_def Let_def split: if_splits)
  from mailings_reachable_inv [OF assms(1)] c(3) have "mg_load s = None" by (simp add: mg_inv_def)
  with p c show ?thesis
    by (simp add: sync_closed_def mg_refresh_def mg_refresh_calls_def mg_synchronise_def Let_def
        split: option.split)
qed

definition sample_plan :: MailingsPlan where
  "sample_plan = \<lparr>mpl_can_apply = Some True, mpl_configured = Some True, mpl_domain = None,
     mpl_invalid = None, mpl_lists = None, mpl_token = Some ''t1''\<rparr>"

definition planned_mailings :: mailings where
  "planned_mailings = mg_deliver (fst (administrator_next True new_mailings)) 0 (Inr (Some sample_plan))"

theorem synchronises_confirmed_plan_witness:
  "Send (SyncMailingLists ''t1'') \<in> set (snd (sync_closed (Some ''t1'') True
     (fst (mg_synchronise planned_mailings)))) \<and>
   Option.bind (mg_plan (fst (mg_synchronise planned_mailings))) mpl_token = Some ''t1''"
proof -
  have r: "mailings_reachable (fst (mg_synchronise planned_mailings))"
    unfolding planned_mailings_def
    by (rule mailings_reachable.step [OF mailings_reachable.step [OF mailings_reachable.step
        [OF mailings_reachable.start mailings_step.administrator] mailings_step.deliver]
        mailings_step.ask])
  have pm: "mg_plan planned_mailings = Some sample_plan" "mg_allowed planned_mailings"
    "\<not> mg_loading planned_mailings" "\<not> mg_busy planned_mailings" "\<not> mg_confirming planned_mailings"
    by (simp_all add: planned_mailings_def mailings_defs new_mailings_def)
  then have m: "mg_synchronise planned_mailings = (fst (mg_synchronise planned_mailings), Some (Some ''t1''),
      snd (snd (mg_synchronise planned_mailings)))"
    by (simp add: mg_synchronise_def sample_plan_def)
  from pm have c: "Send (SyncMailingLists ''t1'') \<in> set (snd (sync_closed (Some ''t1'') True
     (fst (mg_synchronise planned_mailings))))"
    by (simp add: mg_synchronise_def sync_closed_def sample_plan_def nullish_def)
  from synchronises_confirmed_plan [OF r m c] c show ?thesis by blast
qed

text \<open>
  The preview on display is the one asked for last: with the right to see it and no
  synchronisation in flight, whatever answers to earlier previews arrive late, the answer to the
  last one decides the plan, the error and the end of the loading.
\<close>
lemma preview_latest_wins:
  assumes "mailings_reachable s" and "mg_allowed s" and "\<not> mg_busy s"
    and "\<forall>(t, r) \<in> set late. t \<noteq> mg_next s"
  shows "mg_view (mg_deliver (fold (\<lambda>(t, r) s. mg_deliver s t r) late (mg_refresh s)) (mg_next s) r) =
    mg_rendered r"
proof -
  have "mg_ready s" using mailings_reachable_inv [OF assms(1)] assms(2,3) by (simp add: mg_ready_def)
  from preview.latest_wins [OF this assms(4)] show ?thesis .
qed

lemma sample_preview_latest_wins:
  "mg_view (mg_deliver (fold (\<lambda>(t, r) s. mg_deliver s t r) [(0, Inr None)]
     (mg_refresh (fst (administrator_next True new_mailings)))) 1 (Inr (Some sample_plan))) =
   (Some sample_plan, None, False)"
proof -
  let ?s = "fst (administrator_next True new_mailings)"
  have r: "mailings_reachable ?s"
    by (rule mailings_reachable.step [OF mailings_reachable.start mailings_step.administrator])
  have a: "mg_allowed ?s" "\<not> mg_busy ?s" and n: "mg_next ?s = 1"
    by (simp_all add: mailings_defs new_mailings_def)
  have l: "\<forall>(t, r) \<in> set [(0, Inr None :: api_error + MailingsPlan option)]. t \<noteq> mg_next ?s"
    using n by simp
  from preview_latest_wins [OF r a l, where r = "Inr (Some sample_plan)"] n show ?thesis
    by (simp add: mg_rendered_def)
qed

end
