(* ===== verification/Dashboard.thy ===== *)
theory Dashboard
  imports Payments Member_Directory Ui Auth Data_Sources
begin

text \<open>
  \<open>dashboard/dashboard.component.ts\<close>: the page of key figures. Each figure is a cell loaded
  through \<open>switchMap\<close> (the locale \<open>latest_source\<close>); the selection is read from the address, and
  the finance, reference and payment cells follow it. The parsing of dates, the order of
  identifiers and the current year are parameters.
\<close>

subsection \<open>Remote values\<close>

record 'a remote =
  rm_loading :: bool
  rm_error :: bool
  rm_value :: "'a option"

definition rm_empty :: "'a remote" where
  "rm_empty = \<lparr>rm_loading = False, rm_error = False, rm_value = None\<rparr>"

definition rm_load :: "'a remote" where
  "rm_load = \<lparr>rm_loading = True, rm_error = False, rm_value = None\<rparr>"

definition rm_success :: "'a option \<Rightarrow> 'a remote" where
  "rm_success v = \<lparr>rm_loading = False, rm_error = False, rm_value = v\<rparr>"

definition rm_failure :: "'a remote" where
  "rm_failure = \<lparr>rm_loading = False, rm_error = True, rm_value = None\<rparr>"

text \<open>
  A cell: the remote value on display and the ticket of the request its \<open>switchMap\<close> waits for. The
  requests of a cell are numbered in the order they are made.
\<close>

record 'a cell =
  cl_remote :: "'a remote"
  cl_active :: "nat option"
  cl_next :: nat

definition new_cell :: "'a remote \<Rightarrow> 'a cell" where
  "new_cell r = \<lparr>cl_remote = r, cl_active = None, cl_next = 0\<rparr>"

definition cell_load :: "'a cell \<Rightarrow> 'a cell" where
  "cell_load s = s\<lparr>cl_remote := rm_load, cl_active := Some (cl_next s), cl_next := Suc (cl_next s)\<rparr>"

definition cell_clear :: "'a cell \<Rightarrow> 'a cell" where
  "cell_clear s = s\<lparr>cl_remote := rm_empty, cl_active := None\<rparr>"

definition rm_of :: "api_error + 'a option \<Rightarrow> 'a remote" where
  "rm_of r = (case r of Inr v \<Rightarrow> rm_success v | Inl _ \<Rightarrow> rm_failure)"

definition cell_deliver :: "'a cell \<Rightarrow> nat \<Rightarrow> api_error + 'a option \<Rightarrow> 'a cell" where
  "cell_deliver s t r =
     (if cl_active s = Some t then s\<lparr>cl_remote := rm_of r, cl_active := None\<rparr> else s)"

interpretation cell:
  latest_source cell_load cell_deliver cl_active cl_next cl_remote rm_of "\<lambda>s. True"
  by unfold_locales (simp_all add: cell_load_def cell_deliver_def)

subsection \<open>The selection\<close>

record selection =
  se_budget :: string
  se_reference :: string
  se_year :: int
  se_search :: string
  se_lot :: "int option"

text \<open>
  \<open>date\<close> is \<open>Date.parse\<close>, \<open>None\<close> for what is not a number; \<open>order\<close> is \<open>localeCompare\<close>. The comparison
  function is a difference of dates, then the order of identifiers.
\<close>

definition budget_date :: "(string \<Rightarrow> int option) \<Rightarrow> ModelsBudgetResult \<Rightarrow> int" where
  "budget_date date b = nullish (date (nullish (bur_created_at b) [])) 0"

definition dated :: "(string \<Rightarrow> int option) \<Rightarrow> ModelsBudgetResult \<Rightarrow> bool" where
  "dated date b \<longleftrightarrow> truthy_str (bur_id b) \<and> date (nullish (bur_created_at b) []) \<noteq> None"

definition budget_cmp ::
  "(string \<Rightarrow> int option) \<Rightarrow> (string \<Rightarrow> string \<Rightarrow> int) \<Rightarrow> ModelsBudgetResult \<Rightarrow> ModelsBudgetResult \<Rightarrow> int" where
  "budget_cmp date order a b =
     (if budget_date date b - budget_date date a \<noteq> 0 then budget_date date b - budget_date date a
      else order (nullish (bur_id a) []) (nullish (bur_id b) []))"

definition latestBudgetId ::
  "(string \<Rightarrow> int option) \<Rightarrow> (string \<Rightarrow> string \<Rightarrow> int) \<Rightarrow> ModelsBudgetResult list \<Rightarrow> string" where
  "latestBudgetId date order budgets =
     (case js_sort (budget_cmp date order) (filter (dated date) budgets) of
        [] \<Rightarrow> [] | b # _ \<Rightarrow> nullish (bur_id b) [])"

definition parse_year :: "int \<Rightarrow> string option \<Rightarrow> int" where
  "parse_year now raw =
     (case raw of
        None \<Rightarrow> now
      | Some y \<Rightarrow>
          if y \<noteq> [] \<and> length y \<le> 4 \<and> list_all is_digit y \<and> digits_val 0 y > 0
          then int (digits_val 0 y) else now)"

definition safe_integer :: nat where
  "safe_integer = 2 ^ 53 - 1"

definition parse_selected_lot :: "string option \<Rightarrow> int option" where
  "parse_selected_lot raw =
     (case raw of
        None \<Rightarrow> None
      | Some l \<Rightarrow>
          if l \<noteq> [] \<and> list_all is_digit l \<and> digits_val 0 l \<le> safe_integer
          then Some (int (digits_val 0 l)) else None)"

definition read_selection ::
  "int \<Rightarrow> string \<Rightarrow> (string \<Rightarrow> string option) \<Rightarrow> selection" where
  "read_selection now latest p =
     \<lparr>se_budget = (case p ''budget'' of Some b \<Rightarrow> b | None \<Rightarrow> latest),
      se_reference = nullish (p ''reference'') [],
      se_year = parse_year now (p ''year''), se_search = nullish (p ''search'') [],
      se_lot = parse_selected_lot (p ''lot'')\<rparr>"

subsection \<open>The page\<close>

record environment =
  ev_date :: "string \<Rightarrow> int option"
  ev_order :: "string \<Rightarrow> string \<Rightarrow> int"
  ev_year :: int

record dashboard =
  db_budgets :: "ModelsBudgetResult list cell"
  db_units :: "ModelsUnit list cell"
  db_directory :: "ModelsDirectoryQuality cell"
  db_emails :: "ModelsEmailDashboard cell"
  db_finance :: "ModelsBudgetDashboard cell"
  db_reference :: "ModelsBudgetResult cell"
  db_access :: "AuthAccessRequestSummary cell"
  db_payments :: "ModelsPayment list cell"
  db_params :: "string \<Rightarrow> string option"
  db_choices :: "ModelsBudgetResult list"
  db_selection :: selection
  db_mapSearch :: string
  db_administrator :: bool
  db_payment_key :: "nat \<times> string \<times> string"
  db_revision :: nat

definition no_selection :: "int \<Rightarrow> selection" where
  "no_selection now =
     \<lparr>se_budget = [], se_reference = [], se_year = now, se_search = [], se_lot = None\<rparr>"

text \<open>The cotisation of the selected lot in the finance on display: \<open>undefined === null\<close> is false.\<close>

definition find_cotisation :: "int option \<Rightarrow> ModelsBudgetDashboard option \<Rightarrow> ModelsCotisationResult option" where
  "find_cotisation lot f =
     (case lot of
        None \<Rightarrow> None
      | Some n \<Rightarrow> List.find (\<lambda>c. Option.bind (ctr_unit c) unt_number = Some n)
          (nullish (Option.bind f bdb_cotisations) []))"

definition payment_id :: "dashboard \<Rightarrow> string" where
  "payment_id s =
     nullish (Option.bind (find_cotisation (se_lot (db_selection s)) (rm_value (cl_remote (db_finance s)))) ctr_id) []"

text \<open>The payment cell, after a change of the selection, of the finance or of its own reload.\<close>

definition payments_sync :: "dashboard \<Rightarrow> dashboard \<times> api_call list" where
  "payments_sync s =
     (let i = payment_id s; b = se_budget (db_selection s); key = (db_revision s, b, i) in
      if key = db_payment_key s then (s, [])
      else (let s = s\<lparr>db_payment_key := key\<rparr> in
        if i \<noteq> [] then (s\<lparr>db_payments := cell_load (db_payments s)\<rparr>, [ListPayments b i])
        else (s\<lparr>db_payments := cell_clear (db_payments s)\<rparr>, [])))"

definition finance_call :: "selection \<Rightarrow> api_call option" where
  "finance_call se =
     (if se_budget se = [] then None else Some (GetBudgetDashboard (se_budget se) (se_year se)))"

definition reference_call :: "selection \<Rightarrow> api_call option" where
  "reference_call se =
     (if se_reference se \<noteq> [] \<and> se_reference se \<noteq> se_budget se
      then Some (GetBudget (se_reference se)) else None)"

definition cell_switch :: "api_call option \<Rightarrow> 'a cell \<Rightarrow> 'a cell" where
  "cell_switch c s = (case c of Some d \<Rightarrow> cell_load s | None \<Rightarrow> cell_clear s)"

definition calls_of :: "api_call option \<Rightarrow> api_call list" where
  "calls_of c = (case c of Some d \<Rightarrow> [d] | None \<Rightarrow> [])"

definition reload_finance :: "dashboard \<Rightarrow> dashboard \<times> api_call list" where
  "reload_finance s =
     (let c = finance_call (db_selection s);
          (s, out) = payments_sync (s\<lparr>db_finance := cell_switch c (db_finance s)\<rparr>)
      in (s, calls_of c @ out))"

definition reload_reference :: "dashboard \<Rightarrow> dashboard \<times> api_call list" where
  "reload_reference s =
     (let c = reference_call (db_selection s)
      in (s\<lparr>db_reference := cell_switch c (db_reference s)\<rparr>, calls_of c))"

text \<open>A value of \<open>selection$\<close>: the finance and the reference are loaded when their part changed.\<close>

definition selection_next :: "selection \<Rightarrow> dashboard \<Rightarrow> dashboard \<times> api_call list" where
  "selection_next se s =
     (let old = db_selection s; s = s\<lparr>db_selection := se, db_mapSearch := se_search se\<rparr>;
          (s, f) = (if se_budget se \<noteq> se_budget old \<or> se_year se \<noteq> se_year old
                    then reload_finance s else (s, []));
          (s, r) = (if se_budget se \<noteq> se_budget old \<or> se_reference se \<noteq> se_reference old
                    then reload_reference s else (s, []));
          (s, p) = payments_sync s
      in (s, f @ r @ p))"

definition select_again :: "environment \<Rightarrow> dashboard \<Rightarrow> dashboard \<times> api_call list" where
  "select_again ev s =
     selection_next (read_selection (ev_year ev)
       (latestBudgetId (ev_date ev) (ev_order ev) (db_choices s)) (db_params s)) s"

definition params_changed ::
  "environment \<Rightarrow> (string \<Rightarrow> string option) \<Rightarrow> dashboard \<Rightarrow> dashboard \<times> api_call list" where
  "params_changed ev p s = select_again ev (s\<lparr>db_params := p\<rparr>)"

definition budgets_answer ::
  "environment \<Rightarrow> nat \<Rightarrow> api_error + ModelsBudgetResult list option \<Rightarrow> dashboard \<Rightarrow>
   dashboard \<times> api_call list" where
  "budgets_answer ev t r s =
     (if cl_active (db_budgets s) \<noteq> Some t then (s, [])
      else (let s = s\<lparr>db_budgets := cell_deliver (db_budgets s) t r\<rparr> in
        case rm_value (cl_remote (db_budgets s)) of
          Some v \<Rightarrow> select_again ev (s\<lparr>db_choices := v\<rparr>)
        | None \<Rightarrow> (s, [])))"

definition finance_answer ::
  "nat \<Rightarrow> api_error + ModelsBudgetDashboard option \<Rightarrow> dashboard \<Rightarrow> dashboard \<times> api_call list" where
  "finance_answer t r s = payments_sync (s\<lparr>db_finance := cell_deliver (db_finance s) t r\<rparr>)"

definition reload_access :: "dashboard \<Rightarrow> dashboard \<times> api_call list" where
  "reload_access s =
     (if db_administrator s
      then (s\<lparr>db_access := cell_load (db_access s)\<rparr>, [GetPendingAccessRequests])
      else (s, []))"

definition administrator_changed :: "bool \<Rightarrow> dashboard \<Rightarrow> dashboard \<times> api_call list" where
  "administrator_changed admin s =
     (if admin = db_administrator s then (s, [])
      else reload_access (s\<lparr>db_administrator := admin, db_access := cell_clear (db_access s)\<rparr>))"

datatype retry_scope =
    RBudgets | RFinance | RReference | RUnits | RDirectory | REmails | RAccess | RPayments

fun retry :: "retry_scope \<Rightarrow> dashboard \<Rightarrow> dashboard \<times> api_call list" where
  "retry RBudgets s = (s\<lparr>db_budgets := cell_load (db_budgets s)\<rparr>, [ListBudgets])"
| "retry RFinance s = reload_finance s"
| "retry RReference s = reload_reference s"
| "retry RUnits s = (s\<lparr>db_units := cell_load (db_units s)\<rparr>, [ListUnits])"
| "retry RDirectory s =
     (s\<lparr>db_directory := cell_load (db_directory s)\<rparr>, [GetDirectoryQuality])"
| "retry REmails s = (s\<lparr>db_emails := cell_load (db_emails s)\<rparr>, [GetEmailDashboard])"
| "retry RAccess s = reload_access s"
| "retry RPayments s = payments_sync (s\<lparr>db_revision := Suc (db_revision s)\<rparr>)"

fun retry_all :: "retry_scope list \<Rightarrow> dashboard \<Rightarrow> dashboard \<times> api_call list" where
  "retry_all [] s = (s, [])"
| "retry_all (x # xs) s = (let (s, a) = retry x s; (s, b) = retry_all xs s in (s, a @ b))"

definition dashboard_refresh :: "dashboard \<Rightarrow> dashboard \<times> api_call list" where
  "dashboard_refresh s =
     retry_all [RBudgets, RFinance, RReference, RUnits, RDirectory, REmails, RAccess] s"

text \<open>
  The page before its first selection; \<open>ngOnInit\<close> loads the four independent cells and reads the
  address. The keys of the first selection differ from none, so its cells are loaded or cleared.
\<close>

definition new_dashboard :: "environment \<Rightarrow> dashboard" where
  "new_dashboard ev =
     \<lparr>db_budgets = new_cell rm_load, db_units = new_cell rm_load, db_directory = new_cell rm_load,
      db_emails = new_cell rm_load, db_finance = new_cell rm_empty, db_reference = new_cell rm_empty,
      db_access = new_cell rm_empty, db_payments = new_cell rm_empty, db_params = Map.empty,
      db_choices = [], db_selection = no_selection (ev_year ev), db_mapSearch = [],
      db_administrator = False, db_payment_key = (0, [], []), db_revision = 0\<rparr>"

definition dashboard_init ::
  "environment \<Rightarrow> (string \<Rightarrow> string option) \<Rightarrow> dashboard \<times> api_call list" where
  "dashboard_init ev p =
     (let (s, a) = retry_all [RBudgets, RUnits, RDirectory, REmails] (new_dashboard ev);
          (s, b) = params_changed ev p s
      in (s, a @ b))"

subsection \<open>What the page shows\<close>

definition selectBudget :: "string \<Rightarrow> (string \<times> string option) list" where
  "selectBudget i = [(''budget'', Some i), (''reference'', None), (''lot'', None)]"

definition selectReference :: "string \<Rightarrow> (string \<times> string option) list" where
  "selectReference i = [(''reference'', if i = [] then None else Some i)]"

definition selectLot :: "int option \<Rightarrow> (string \<times> string option) list" where
  "selectLot lot = [(''lot'', map_option int_str lot)]"

definition searchMap :: "string \<Rightarrow> dashboard \<Rightarrow> dashboard \<times> (string \<times> string option) list" where
  "searchMap q s = (s\<lparr>db_mapSearch := q\<rparr>,
     [(''search'', if js_trim q \<noteq> [] then Some q else None), (''lot'', None)])"

definition matchingMapUnits :: "dashboard \<Rightarrow> ModelsUnit list" where
  "matchingMapUnits s =
     (if js_trim (db_mapSearch s) = [] then []
      else filter (\<lambda>u. unitMatches u (db_mapSearch s) \<or>
             list_ex (\<lambda>m. memberMatches m (db_mapSearch s)) (nullish (unt_members u) []))
        (nullish (rm_value (cl_remote (db_units s))) []))"

definition highlightedMapUnits :: "dashboard \<Rightarrow> int list" where
  "highlightedMapUnits s = List.map_filter unt_number (matchingMapUnits s)"

definition selectedCotisation :: "dashboard \<Rightarrow> ModelsCotisationResult option" where
  "selectedCotisation s =
     find_cotisation (se_lot (db_selection s)) (rm_value (cl_remote (db_finance s)))"

definition dashboard_unit :: "dashboard \<Rightarrow> ModelsUnit option" where
  "dashboard_unit s =
     (case (case se_lot (db_selection s) of None \<Rightarrow> None
            | Some n \<Rightarrow> List.find (\<lambda>u. unt_number u = Some n)
                (nullish (rm_value (cl_remote (db_units s))) [])) of
        Some u \<Rightarrow> Some u
      | None \<Rightarrow> Option.bind (selectedCotisation s) ctr_unit)"

datatype state_label = ToRefund | Settled | PartlyPaid | NotPaid

definition dashboard_state :: "ModelsCotisationResult \<Rightarrow> state_label" where
  "dashboard_state c =
     (if paymentState c = Overpaid then ToRefund
      else if paymentState c = Done then Settled
      else if nullish (ctr_paid c) 0 > 0 then PartlyPaid else NotPaid)"

definition dashboard_class :: "ModelsCotisationResult \<Rightarrow> string" where
  "dashboard_class c =
     (if paymentState c = Overpaid then ''dashboard-overpaid''
      else if paymentState c = Done then ''dashboard-settled''
      else if nullish (ctr_paid c) 0 > 0 then ''dashboard-partial'' else ''dashboard-unpaid'')"

definition mapClasses :: "dashboard \<Rightarrow> int \<Rightarrow> string option" where
  "mapClasses s =
     foldl (\<lambda>m c. case Option.bind (ctr_unit c) unt_number of
          None \<Rightarrow> m | Some n \<Rightarrow> m(n \<mapsto> dashboard_class c))
       (foldl (\<lambda>m u. case unt_number u of None \<Rightarrow> m | Some n \<Rightarrow> m(n \<mapsto> ''dashboard-no-call''))
         Map.empty (nullish (rm_value (cl_remote (db_units s))) []))
       (nullish (Option.bind (rm_value (cl_remote (db_finance s))) bdb_cotisations) [])"

definition comparisonDifference :: "dashboard \<Rightarrow> number option" where
  "comparisonDifference s =
     (case (Option.bind (Option.bind (rm_value (cl_remote (db_finance s))) bdb_budget) bur_amount,
            Option.bind (rm_value (cl_remote (db_reference s))) bur_amount) of
        (Some a, Some b) \<Rightarrow> Some (a - b)
      | _ \<Rightarrow> None)"

definition comparisonPercent :: "dashboard \<Rightarrow> number option" where
  "comparisonPercent s =
     (case (Option.bind (rm_value (cl_remote (db_reference s))) bur_amount, comparisonDifference s) of
        (Some r, Some d) \<Rightarrow> if r \<le> 0 then None else Some (d / r * 100)
      | _ \<Rightarrow> None)"

definition positive_count :: "int option \<Rightarrow> bool" where
  "positive_count n \<longleftrightarrow> nullish n 0 > 0"

definition hasActions :: "dashboard \<Rightarrow> bool" where
  "hasActions s \<longleftrightarrow>
     (let rcv = Option.bind (rm_value (cl_remote (db_finance s))) bdb_recovery;
          counts = Option.bind (rm_value (cl_remote (db_emails s))) edb_counts
      in nullish (Option.bind rcv rec_remaining) 0 > 0 \<or>
         positive_count (Option.bind rcv rec_overpaid) \<or>
         positive_count (Option.bind counts cnt_error) \<or>
         positive_count (Option.bind counts cnt_unknown) \<or>
         positive_count (Option.bind (rm_value (cl_remote (db_directory s))) dqy_invalid_shares) \<or>
         (db_administrator s \<and>
          positive_count (Option.bind (rm_value (cl_remote (db_access s))) ars_pending)))"

definition actionsComplete :: "dashboard \<Rightarrow> bool" where
  "actionsComplete s \<longleftrightarrow>
     (se_budget (db_selection s) = [] \<or> rm_value (cl_remote (db_finance s)) \<noteq> None) \<and>
     rm_value (cl_remote (db_directory s)) \<noteq> None \<and> rm_value (cl_remote (db_emails s)) \<noteq> None \<and>
     (\<not> db_administrator s \<or> rm_value (cl_remote (db_access s)) \<noteq> None)"
subsection \<open>The newest budget and the colours of the map\<close>

lemma budget_cmp_collation:
  assumes "collation order"
  shows "collation (budget_cmp date order)"
proof -
  have "collation (\<lambda>a b :: int. b - a)" by (auto simp: collation_def)
  from collation_chain [OF this assms, of "budget_date date" "\<lambda>b. nullish (bur_id b) []"]
  show ?thesis unfolding budget_cmp_def .
qed

text \<open>
  The budget the page opens on is the newest: among the budgets with an identifier and a date
  it is one whose date no other exceeds, and it is empty exactly when no budget has both.
\<close>
lemma latest_budget_newest:
  assumes "collation order"
  shows "(latestBudgetId date order bs = [] \<longleftrightarrow> \<not> list_ex (dated date) bs) \<and>
    (\<forall>b \<in> set bs. dated date b \<longrightarrow>
       (\<exists>b' \<in> set bs. dated date b' \<and> bur_id b' = Some (latestBudgetId date order bs) \<and>
          budget_date date b \<le> budget_date date b'))"
proof (cases "js_sort (budget_cmp date order) (filter (dated date) bs)")
  case Nil
  then have "filter (dated date) bs = []" by simp
  then show ?thesis
    using Nil by (auto simp: latestBudgetId_def list_ex_iff filter_empty_conv)
next
  case (Cons b ys)
  have c: "comparator (budget_cmp date order)"
    by (rule collation_comparator [OF budget_cmp_collation [OF assms]])
  have b: "b \<in> set bs" "dated date b"
    using Cons set_js_sort [of "budget_cmp date order" "filter (dated date) bs"] by auto
  then have l: "bur_id b = Some (latestBudgetId date order bs)" "latestBudgetId date order bs \<noteq> []"
    using Cons by (auto simp: latestBudgetId_def dated_def elim!: truthy_strE)
  have "budget_date date x \<le> budget_date date b" if "x \<in> set bs" "dated date x" for x
    using comparator.head_least [OF c, of x "filter (dated date) bs"] that Cons
    by (auto simp: budget_cmp_def split: if_splits)
  with b l show ?thesis by (auto simp: list_ex_iff)
qed


lemma latest_budget_newest_witness:
  "latestBudgetId (\<lambda>d. if d = ''2025'' then Some 2025 else if d = ''2024'' then Some 2024 else None)
     (\<lambda>a b. int (length a) - int (length b)) [] = []"
proof -
  have "collation (\<lambda>a b :: string. int (length a) - int (length b))" by (auto simp: collation_def)
  from latest_budget_newest [OF this, of _ "[]"] show ?thesis by simp
qed

lemma foldl_last_update:
  "foldl (\<lambda>m x. case k x of None \<Rightarrow> m | Some n \<Rightarrow> m(n \<mapsto> v x)) m xs n =
     (case List.find (\<lambda>x. k x = Some n) (List.rev xs) of None \<Rightarrow> m n | Some x \<Rightarrow> Some (v x))"
proof (induction xs arbitrary: m rule: rev_induct)
  case (snoc x xs)
  then show ?case by (auto split: option.split)
qed simp

lemma case_find_rev:
  "(case List.find P (List.rev xs) of None \<Rightarrow> a | Some x \<Rightarrow> b) = (if list_ex P xs then b else a)"
proof (cases "List.find P (List.rev xs)")
  case None
  then have "\<not> list_ex P xs" by (auto simp: find_None_iff list_ex_iff)
  with None show ?thesis by simp
next
  case (Some x)
  then have "x \<in> set xs \<and> P x" using find_SomeD [OF Some] by simp
  with Some show ?thesis by (auto simp: list_ex_iff)
qed

text \<open>
  The colour of a lot on the map: the last call for funds of the lot in the finance on display
  decides, by its payment state; a lot of the directory without a call has the class of no call,
  and every other number has no class.
\<close>
lemma map_class_of_lot:
  "mapClasses s n =
     (case List.find (\<lambda>c. Option.bind (ctr_unit c) unt_number = Some n)
             (List.rev (nullish (Option.bind (rm_value (cl_remote (db_finance s))) bdb_cotisations) [])) of
        Some c \<Rightarrow> Some (dashboard_class c)
      | None \<Rightarrow>
          if list_ex (\<lambda>u. unt_number u = Some n) (nullish (rm_value (cl_remote (db_units s))) [])
          then Some ''dashboard-no-call'' else None)"
  unfolding mapClasses_def foldl_last_update case_find_rev
  by (simp split: option.split)

end
