(* ===== verification/Dashboard_Runs.thy ===== *)
theory Dashboard_Runs
  imports Dashboard
begin

text \<open>
  The runs of the dashboard: its events as one handler, the calls made for each figure and the
  answers they were given, and the invariant that ties what a figure shows to them.
\<close>

subsection \<open>Runs\<close>

datatype dashboard_event =
    ParamsChanged "string \<Rightarrow> string option"
  | BudgetsAnswer nat "api_error + ModelsBudgetResult list option"
  | FinanceAnswer nat "api_error + ModelsBudgetDashboard option"
  | ReferenceAnswer nat "api_error + ModelsBudgetResult option"
  | UnitsAnswer nat "api_error + ModelsUnit list option"
  | DirectoryAnswer nat "api_error + ModelsDirectoryQuality option"
  | EmailsAnswer nat "api_error + ModelsEmailDashboard option"
  | AccessAnswer nat "api_error + AuthAccessRequestSummary option"
  | PaymentsAnswer nat "api_error + ModelsPayment list option"
  | AdministratorChanged bool
  | RetryOne retry_scope
  | RefreshAll
  | SearchMap string

fun dashboard_handle ::
  "environment \<Rightarrow> dashboard_event \<Rightarrow> dashboard \<Rightarrow> dashboard \<times> api_call list" where
  "dashboard_handle ev (ParamsChanged p) s = params_changed ev p s"
| "dashboard_handle ev (BudgetsAnswer t r) s = budgets_answer ev t r s"
| "dashboard_handle ev (FinanceAnswer t r) s = finance_answer t r s"
| "dashboard_handle ev (ReferenceAnswer t r) s =
     (s\<lparr>db_reference := cell_deliver (db_reference s) t r\<rparr>, [])"
| "dashboard_handle ev (UnitsAnswer t r) s = (s\<lparr>db_units := cell_deliver (db_units s) t r\<rparr>, [])"
| "dashboard_handle ev (DirectoryAnswer t r) s =
     (s\<lparr>db_directory := cell_deliver (db_directory s) t r\<rparr>, [])"
| "dashboard_handle ev (EmailsAnswer t r) s = (s\<lparr>db_emails := cell_deliver (db_emails s) t r\<rparr>, [])"
| "dashboard_handle ev (AccessAnswer t r) s = (s\<lparr>db_access := cell_deliver (db_access s) t r\<rparr>, [])"
| "dashboard_handle ev (PaymentsAnswer t r) s =
     (s\<lparr>db_payments := cell_deliver (db_payments s) t r\<rparr>, [])"
| "dashboard_handle ev (AdministratorChanged b) s = administrator_changed b s"
| "dashboard_handle ev (RetryOne x) s = retry x s"
| "dashboard_handle ev RefreshAll s = dashboard_refresh s"
| "dashboard_handle ev (SearchMap q) s = (fst (searchMap q s), [])"

text \<open>The figure a call of the page is made for, and the requests of a figure among all calls.\<close>

definition figure_of :: "api_call \<Rightarrow> retry_scope option" where
  "figure_of c =
     (case c of
        ListBudgets \<Rightarrow> Some RBudgets
      | GetBudgetDashboard b y \<Rightarrow> Some RFinance
      | GetBudget b \<Rightarrow> Some RReference
      | ListUnits \<Rightarrow> Some RUnits
      | GetDirectoryQuality \<Rightarrow> Some RDirectory
      | GetEmailDashboard \<Rightarrow> Some REmails
      | GetPendingAccessRequests \<Rightarrow> Some RAccess
      | ListPayments b i \<Rightarrow> Some RPayments
      | _ \<Rightarrow> None)"

definition sent_for :: "retry_scope \<Rightarrow> api_call list \<Rightarrow> api_call list" where
  "sent_for k calls = filter (\<lambda>c. figure_of c = Some k) calls"

text \<open>The answers a figure was given, each with the number of the request it answers.\<close>

definition budgets_answers where
  "budgets_answers = List.map_filter (\<lambda>e. case e of BudgetsAnswer t r \<Rightarrow> Some (t, r) | _ \<Rightarrow> None)"

definition finance_answers where
  "finance_answers = List.map_filter (\<lambda>e. case e of FinanceAnswer t r \<Rightarrow> Some (t, r) | _ \<Rightarrow> None)"

definition reference_answers where
  "reference_answers = List.map_filter (\<lambda>e. case e of ReferenceAnswer t r \<Rightarrow> Some (t, r) | _ \<Rightarrow> None)"

definition units_answers where
  "units_answers = List.map_filter (\<lambda>e. case e of UnitsAnswer t r \<Rightarrow> Some (t, r) | _ \<Rightarrow> None)"

definition directory_answers where
  "directory_answers = List.map_filter (\<lambda>e. case e of DirectoryAnswer t r \<Rightarrow> Some (t, r) | _ \<Rightarrow> None)"

definition emails_answers where
  "emails_answers = List.map_filter (\<lambda>e. case e of EmailsAnswer t r \<Rightarrow> Some (t, r) | _ \<Rightarrow> None)"

definition access_answers where
  "access_answers = List.map_filter (\<lambda>e. case e of AccessAnswer t r \<Rightarrow> Some (t, r) | _ \<Rightarrow> None)"

definition payments_answers where
  "payments_answers = List.map_filter (\<lambda>e. case e of PaymentsAnswer t r \<Rightarrow> Some (t, r) | _ \<Rightarrow> None)"

text \<open>An answer answers a request that was made.\<close>

fun answer_sent :: "dashboard_event \<Rightarrow> api_call list \<Rightarrow> bool" where
  "answer_sent (BudgetsAnswer t r) calls = (t < length (sent_for RBudgets calls))"
| "answer_sent (FinanceAnswer t r) calls = (t < length (sent_for RFinance calls))"
| "answer_sent (ReferenceAnswer t r) calls = (t < length (sent_for RReference calls))"
| "answer_sent (UnitsAnswer t r) calls = (t < length (sent_for RUnits calls))"
| "answer_sent (DirectoryAnswer t r) calls = (t < length (sent_for RDirectory calls))"
| "answer_sent (EmailsAnswer t r) calls = (t < length (sent_for REmails calls))"
| "answer_sent (AccessAnswer t r) calls = (t < length (sent_for RAccess calls))"
| "answer_sent (PaymentsAnswer t r) calls = (t < length (sent_for RPayments calls))"
| "answer_sent _ calls = True"

fun url_after :: "dashboard_event \<Rightarrow> (string \<Rightarrow> string option) \<Rightarrow> string \<Rightarrow> string option" where
  "url_after (ParamsChanged q) p = q"
| "url_after _ p = p"

text \<open>
  A run of the page: the query parameters of its URL, the events so far, the calls it made so far and
  its state.
\<close>

inductive dashboard_run ::
  "environment \<Rightarrow> (string \<Rightarrow> string option) \<Rightarrow> dashboard_event list \<Rightarrow> api_call list \<Rightarrow> dashboard \<Rightarrow> bool"
  for ev where
  start: "dashboard_run ev p [] (snd (dashboard_init ev p)) (fst (dashboard_init ev p))"
| event: "dashboard_run ev p evs calls s \<Longrightarrow> answer_sent e calls \<Longrightarrow>
    dashboard_run ev (url_after e p) (evs @ [e]) (calls @ snd (dashboard_handle ev e s))
      (fst (dashboard_handle ev e s))"

subsection \<open>A cell and its requests\<close>

text \<open>
  What a figure shows when it is made by the call \<open>c\<close>, after the given requests and answers: nothing
  without a call; otherwise its last request is that call, it loads until that request is answered,
  and from then on it shows that answer.
\<close>

definition figure_shown ::
  "api_call option \<Rightarrow> api_call list \<Rightarrow> (nat \<times> (api_error + 'a option)) list \<Rightarrow> 'a remote \<Rightarrow> bool" where
  "figure_shown c sent answers r \<longleftrightarrow>
     (case c of
        None \<Rightarrow> r = rm_empty
      | Some d \<Rightarrow> sent \<noteq> [] \<and> last sent = d \<and>
          r = (case map_of answers (length sent - 1) of None \<Rightarrow> rm_load | Some a \<Rightarrow> rm_of a))"

definition cell_counts ::
  "api_call list \<Rightarrow> (nat \<times> (api_error + 'a option)) list \<Rightarrow> 'a cell \<Rightarrow> bool" where
  "cell_counts sent answers s \<longleftrightarrow> cl_next s = length sent \<and> (\<forall>a \<in> set answers. fst a < length sent)"

definition cell_ok ::
  "api_call option \<Rightarrow> api_call list \<Rightarrow> (nat \<times> (api_error + 'a option)) list \<Rightarrow> 'a cell \<Rightarrow> bool" where
  "cell_ok c sent answers s \<longleftrightarrow> cell_counts sent answers s \<and> figure_shown c sent answers (cl_remote s) \<and>
     cl_active s = (if c = None \<or> map_of answers (length sent - 1) \<noteq> None then None
       else Some (length sent - 1))"

lemma cell_ok_counts: "cell_ok c sent answers s \<Longrightarrow> cell_counts sent answers s"
  by (simp add: cell_ok_def)

lemma cell_ok_load:
  assumes "cell_counts sent answers s"
  shows "cell_ok (Some d) (sent @ [d]) answers (cell_load s)"
proof -
  have "map_of answers (length sent) = None"
    using assms by (force simp: cell_counts_def map_of_eq_None_iff)
  with assms show ?thesis by (auto simp: cell_ok_def cell_counts_def figure_shown_def cell_load_def)
qed

lemma cell_ok_clear: "cell_counts sent answers s \<Longrightarrow> cell_ok None sent answers (cell_clear s)"
  by (simp add: cell_ok_def cell_counts_def figure_shown_def cell_clear_def)

lemma cell_ok_switch:
  "cell_counts sent answers s \<Longrightarrow> cell_ok c (sent @ calls_of c) answers (cell_switch c s)"
  by (simp add: cell_switch_def calls_of_def cell_ok_load cell_ok_clear split: option.split)

lemma cell_ok_deliver:
  assumes "cell_ok c sent answers s" and "t < length sent"
  shows "cell_ok c sent (answers @ [(t, r)]) (cell_deliver s t r)"
  using assms
  by (auto simp: cell_ok_def cell_counts_def figure_shown_def cell_deliver_def map_add_def
      split: option.splits if_splits)

lemma sent_for_simps [simp]:
  "sent_for k [] = []"
  "sent_for k (c # cs) = (if figure_of c = Some k then c # sent_for k cs else sent_for k cs)"
  "sent_for k (cs @ ds) = sent_for k cs @ sent_for k ds"
  by (simp_all add: sent_for_def)

lemma figure_of_simps [simp]:
  "figure_of ListBudgets = Some RBudgets" "figure_of (GetBudgetDashboard b y) = Some RFinance"
  "figure_of (GetBudget b) = Some RReference" "figure_of ListUnits = Some RUnits"
  "figure_of GetDirectoryQuality = Some RDirectory" "figure_of GetEmailDashboard = Some REmails"
  "figure_of GetPendingAccessRequests = Some RAccess" "figure_of (ListPayments b i) = Some RPayments"
  by (simp_all add: figure_of_def)

lemma answers_empty [simp]:
  "budgets_answers [] = []" "finance_answers [] = []" "reference_answers [] = []" "units_answers [] = []"
  "directory_answers [] = []" "emails_answers [] = []" "access_answers [] = []" "payments_answers [] = []"
  by (simp_all add: budgets_answers_def finance_answers_def reference_answers_def units_answers_def
      directory_answers_def emails_answers_def access_answers_def payments_answers_def map_filter_simps)

lemma map_filter_snoc:
  "List.map_filter f (xs @ [x]) = List.map_filter f xs @ (case f x of None \<Rightarrow> [] | Some y \<Rightarrow> [y])"
  by (simp add: List.map_filter_def split: option.split)

lemma answers_snoc [simp]:
  "budgets_answers (evs @ [e]) = budgets_answers evs @ (case e of BudgetsAnswer t r \<Rightarrow> [(t, r)] | _ \<Rightarrow> [])"
  "finance_answers (evs @ [e]) = finance_answers evs @ (case e of FinanceAnswer t r \<Rightarrow> [(t, r)] | _ \<Rightarrow> [])"
  "reference_answers (evs @ [e]) =
     reference_answers evs @ (case e of ReferenceAnswer t r \<Rightarrow> [(t, r)] | _ \<Rightarrow> [])"
  "units_answers (evs @ [e]) = units_answers evs @ (case e of UnitsAnswer t r \<Rightarrow> [(t, r)] | _ \<Rightarrow> [])"
  "directory_answers (evs @ [e]) =
     directory_answers evs @ (case e of DirectoryAnswer t r \<Rightarrow> [(t, r)] | _ \<Rightarrow> [])"
  "emails_answers (evs @ [e]) = emails_answers evs @ (case e of EmailsAnswer t r \<Rightarrow> [(t, r)] | _ \<Rightarrow> [])"
  "access_answers (evs @ [e]) = access_answers evs @ (case e of AccessAnswer t r \<Rightarrow> [(t, r)] | _ \<Rightarrow> [])"
  "payments_answers (evs @ [e]) =
     payments_answers evs @ (case e of PaymentsAnswer t r \<Rightarrow> [(t, r)] | _ \<Rightarrow> [])"
  by (simp_all add: budgets_answers_def finance_answers_def reference_answers_def units_answers_def
      directory_answers_def emails_answers_def access_answers_def payments_answers_def map_filter_snoc
      split: dashboard_event.split)

subsection \<open>Every cell answers the selection\<close>

definition payments_call :: "dashboard \<Rightarrow> api_call option" where
  "payments_call s =
     (if payment_id s = [] then None else Some (ListPayments (se_budget (db_selection s)) (payment_id s)))"

definition access_call :: "dashboard \<Rightarrow> api_call option" where
  "access_call s = (if db_administrator s then Some GetPendingAccessRequests else None)"

definition plain_inv :: "dashboard_event list \<Rightarrow> api_call list \<Rightarrow> dashboard \<Rightarrow> bool" where
  "plain_inv evs calls s \<longleftrightarrow>
     cell_ok (Some ListBudgets) (sent_for RBudgets calls) (budgets_answers evs) (db_budgets s) \<and>
     cell_ok (Some ListUnits) (sent_for RUnits calls) (units_answers evs) (db_units s) \<and>
     cell_ok (Some GetDirectoryQuality) (sent_for RDirectory calls) (directory_answers evs) (db_directory s) \<and>
     cell_ok (Some GetEmailDashboard) (sent_for REmails calls) (emails_answers evs) (db_emails s) \<and>
     cell_ok (access_call s) (sent_for RAccess calls) (access_answers evs) (db_access s)"

definition finance_inv :: "dashboard_event list \<Rightarrow> api_call list \<Rightarrow> dashboard \<Rightarrow> bool" where
  "finance_inv evs calls s \<longleftrightarrow>
     cell_ok (finance_call (db_selection s)) (sent_for RFinance calls) (finance_answers evs) (db_finance s)"

definition reference_inv :: "dashboard_event list \<Rightarrow> api_call list \<Rightarrow> dashboard \<Rightarrow> bool" where
  "reference_inv evs calls s \<longleftrightarrow>
     cell_ok (reference_call (db_selection s)) (sent_for RReference calls) (reference_answers evs)
       (db_reference s)"

definition payments_inv :: "dashboard_event list \<Rightarrow> api_call list \<Rightarrow> dashboard \<Rightarrow> bool" where
  "payments_inv evs calls s \<longleftrightarrow>
     db_payment_key s = (db_revision s, se_budget (db_selection s), payment_id s) \<and>
     cell_ok (payments_call s) (sent_for RPayments calls) (payments_answers evs) (db_payments s)"

text \<open>The payment cell belongs to its key, also while the key is out of date.\<close>

definition key_inv :: "dashboard_event list \<Rightarrow> api_call list \<Rightarrow> dashboard \<Rightarrow> bool" where
  "key_inv evs calls s \<longleftrightarrow>
     (case db_payment_key s of (n, b, i) \<Rightarrow>
        cell_ok (if i = [] then None else Some (ListPayments b i)) (sent_for RPayments calls)
          (payments_answers evs) (db_payments s))"

definition dashboard_inv :: "dashboard_event list \<Rightarrow> api_call list \<Rightarrow> dashboard \<Rightarrow> bool" where
  "dashboard_inv evs calls s \<longleftrightarrow>
     plain_inv evs calls s \<and> finance_inv evs calls s \<and> reference_inv evs calls s \<and> payments_inv evs calls s"

lemma payments_inv_key: "payments_inv evs calls s \<Longrightarrow> key_inv evs calls s"
  by (simp add: payments_inv_def key_inv_def payments_call_def split: if_splits)

lemma payments_sync_inv:
  assumes "key_inv evs calls s"
  shows "payments_inv evs (calls @ snd (payments_sync s)) (fst (payments_sync s))"
proof -
  have p: "payment_id (s\<lparr>db_payment_key := k, db_payments := c\<rparr>) = payment_id s" for k c
    by (simp add: payment_id_def)
  show ?thesis
  proof (cases "(db_revision s, se_budget (db_selection s), payment_id s) = db_payment_key s")
    case True
    then have k: "db_payment_key s = (db_revision s, se_budget (db_selection s), payment_id s)" by simp
    have "payments_sync s = (s, [])" using True by (simp add: payments_sync_def Let_def)
    moreover have "cell_ok (payments_call s) (sent_for RPayments calls) (payments_answers evs) (db_payments s)"
      using assms unfolding key_inv_def k payments_call_def by simp
    ultimately show ?thesis by (simp add: payments_inv_def k)
  next
    case False
    have "cell_counts (sent_for RPayments calls) (payments_answers evs) (db_payments s)"
      using assms by (auto simp: key_inv_def split: prod.splits dest: cell_ok_counts)
    with False show ?thesis
      by (simp add: payments_sync_def Let_def payments_inv_def payments_call_def p cell_ok_load cell_ok_clear)
  qed
qed

lemma payments_sync_keeps [simp]:
  "db_selection (fst (payments_sync s)) = db_selection s" "db_finance (fst (payments_sync s)) = db_finance s"
  "db_reference (fst (payments_sync s)) = db_reference s" "db_choices (fst (payments_sync s)) = db_choices s"
  "db_params (fst (payments_sync s)) = db_params s"
  by (simp_all add: payments_sync_def Let_def)

lemma payments_sync_plain [simp]:
  "plain_inv evs (calls @ snd (payments_sync s)) (fst (payments_sync s)) = plain_inv evs calls s"
  by (simp add: payments_sync_def Let_def plain_inv_def access_call_def)

lemma payments_sync_sent [simp]: "k \<noteq> RPayments \<Longrightarrow> sent_for k (snd (payments_sync s)) = []"
  by (simp add: payments_sync_def Let_def)

lemma call_sent [simp]:
  "sent_for k (calls_of (finance_call se)) = (if k = RFinance then calls_of (finance_call se) else [])"
  "sent_for k (calls_of (reference_call se)) = (if k = RReference then calls_of (reference_call se) else [])"
  by (simp_all add: calls_of_def finance_call_def reference_call_def)

text \<open>The parts of the invariant look at their own cell and at the requests for it.\<close>

lemma inv_cong:
  "db_selection s' = db_selection s \<Longrightarrow> db_finance s' = db_finance s \<Longrightarrow> sent_for RFinance calls' = sent_for RFinance calls \<Longrightarrow>
     finance_inv evs calls' s' = finance_inv evs calls s"
  "db_selection s' = db_selection s \<Longrightarrow> db_reference s' = db_reference s \<Longrightarrow>
     sent_for RReference calls' = sent_for RReference calls \<Longrightarrow>
     reference_inv evs calls' s' = reference_inv evs calls s"
  "db_payment_key s' = db_payment_key s \<Longrightarrow> db_payments s' = db_payments s \<Longrightarrow>
     sent_for RPayments calls' = sent_for RPayments calls \<Longrightarrow> key_inv evs calls' s' = key_inv evs calls s"
  by (simp_all add: finance_inv_def reference_inv_def key_inv_def)

lemma payments_inv_cong:
  assumes "db_selection s' = db_selection s" "db_finance s' = db_finance s" "db_payments s' = db_payments s"
    "db_payment_key s' = db_payment_key s" "db_revision s' = db_revision s"
    "sent_for RPayments calls' = sent_for RPayments calls"
  shows "payments_inv evs calls' s' = payments_inv evs calls s"
  using assms by (simp add: payments_inv_def payments_call_def payment_id_def)

lemma reload_finance_inv:
  assumes "cell_counts (sent_for RFinance calls) (finance_answers evs) (db_finance s)"
    and "plain_inv evs calls s" and "key_inv evs calls s"
  shows "plain_inv evs (calls @ snd (reload_finance s)) (fst (reload_finance s))"
    and "finance_inv evs (calls @ snd (reload_finance s)) (fst (reload_finance s))"
    and "payments_inv evs (calls @ snd (reload_finance s)) (fst (reload_finance s))"
proof -
  let ?c = "finance_call (db_selection s)"
  let ?s = "s\<lparr>db_finance := cell_switch ?c (db_finance s)\<rparr>"
  have e: "fst (reload_finance s) = fst (payments_sync ?s)"
    "calls @ snd (reload_finance s) = (calls @ calls_of ?c) @ snd (payments_sync ?s)"
    by (simp_all add: reload_finance_def Let_def case_prod_beta)
  have "key_inv evs (calls @ calls_of ?c) ?s" using assms(3) by (simp add: inv_cong(3) [of ?s s _ calls])
  from payments_sync_inv [OF this]
  show "payments_inv evs (calls @ snd (reload_finance s)) (fst (reload_finance s))" by (simp only: e)
  have "plain_inv evs (calls @ calls_of ?c) ?s"
    using assms(2) by (simp add: plain_inv_def access_call_def)
  then show "plain_inv evs (calls @ snd (reload_finance s)) (fst (reload_finance s))"
    unfolding e by (simp only: payments_sync_plain)
  have "finance_inv evs (calls @ calls_of ?c) ?s"
    using cell_ok_switch [OF assms(1), of ?c] by (simp add: finance_inv_def)
  then show "finance_inv evs (calls @ snd (reload_finance s)) (fst (reload_finance s))"
    unfolding e by (simp add: finance_inv_def)
qed

lemma reload_finance_keeps [simp]:
  "db_selection (fst (reload_finance s)) = db_selection s" "db_reference (fst (reload_finance s)) = db_reference s"
  "sent_for RReference (snd (reload_finance s)) = []"
  "db_choices (fst (reload_finance s)) = db_choices s" "db_params (fst (reload_finance s)) = db_params s"
  by (simp_all add: reload_finance_def Let_def case_prod_beta)

lemma reload_reference_keeps [simp]:
  "db_selection (fst (reload_reference s)) = db_selection s" "db_finance (fst (reload_reference s)) = db_finance s"
  "db_payments (fst (reload_reference s)) = db_payments s"
  "db_payment_key (fst (reload_reference s)) = db_payment_key s"
  "db_revision (fst (reload_reference s)) = db_revision s"
  "k \<noteq> RReference \<Longrightarrow> sent_for k (snd (reload_reference s)) = []"
  "db_choices (fst (reload_reference s)) = db_choices s" "db_params (fst (reload_reference s)) = db_params s"
  by (simp_all add: reload_reference_def Let_def)

lemma reload_reference_inv:
  assumes "cell_counts (sent_for RReference calls) (reference_answers evs) (db_reference s)"
  shows "reference_inv evs (calls @ snd (reload_reference s)) (fst (reload_reference s))"
    and "plain_inv evs (calls @ snd (reload_reference s)) (fst (reload_reference s)) = plain_inv evs calls s"
    and "finance_inv evs (calls @ snd (reload_reference s)) (fst (reload_reference s)) = finance_inv evs calls s"
    and "key_inv evs (calls @ snd (reload_reference s)) (fst (reload_reference s)) = key_inv evs calls s"
    and "payments_inv evs (calls @ snd (reload_reference s)) (fst (reload_reference s)) = payments_inv evs calls s"
proof -
  show "reference_inv evs (calls @ snd (reload_reference s)) (fst (reload_reference s))"
    using cell_ok_switch [OF assms] by (simp add: reference_inv_def reload_reference_def Let_def)
  show "plain_inv evs (calls @ snd (reload_reference s)) (fst (reload_reference s)) = plain_inv evs calls s"
    by (simp add: plain_inv_def reload_reference_def Let_def access_call_def)
qed (simp_all add: inv_cong [of "fst (reload_reference s)" s] payments_inv_cong [of "fst (reload_reference s)" s])
lemma invD:
  assumes "dashboard_inv evs calls s"
  shows "plain_inv evs calls s" "finance_inv evs calls s" "reference_inv evs calls s"
    "payments_inv evs calls s" "key_inv evs calls s"
    "cell_counts (sent_for RFinance calls) (finance_answers evs) (db_finance s)"
    "cell_counts (sent_for RReference calls) (reference_answers evs) (db_reference s)"
  using assms
  by (auto simp: dashboard_inv_def finance_inv_def reference_inv_def dest: payments_inv_key cell_ok_counts)

lemma selection_next_inv:
  assumes "dashboard_inv evs calls s"
  shows "dashboard_inv evs (calls @ snd (selection_next se s)) (fst (selection_next se s))"
proof -
  note inv = invD [OF assms]
  let ?old = "db_selection s"
  let ?s0 = "s\<lparr>db_selection := se, db_mapSearch := se_search se\<rparr>"
  define x1 where "x1 = (if se_budget se \<noteq> se_budget ?old \<or> se_year se \<noteq> se_year ?old
     then reload_finance ?s0 else (?s0, []))"
  define x2 where "x2 = (if se_budget se \<noteq> se_budget ?old \<or> se_reference se \<noteq> se_reference ?old
     then reload_reference (fst x1) else (fst x1, []))"
  have out: "fst (selection_next se s) = fst (payments_sync (fst x2))"
    "calls @ snd (selection_next se s) = ((calls @ snd x1) @ snd x2) @ snd (payments_sync (fst x2))"
    by (simp_all add: selection_next_def Let_def case_prod_beta x1_def x2_def)
  have s0: "plain_inv evs calls ?s0" "key_inv evs calls ?s0"
    "cell_counts (sent_for RFinance calls) (finance_answers evs) (db_finance ?s0)"
    using inv by (simp_all add: plain_inv_def access_call_def key_inv_def)
  have k1: "db_selection (fst x1) = se" "db_reference (fst x1) = db_reference s"
    "sent_for RReference (snd x1) = []"
    by (simp_all add: x1_def)
  have i1: "plain_inv evs (calls @ snd x1) (fst x1) \<and> finance_inv evs (calls @ snd x1) (fst x1) \<and>
      key_inv evs (calls @ snd x1) (fst x1)"
  proof (cases "se_budget se \<noteq> se_budget ?old \<or> se_year se \<noteq> se_year ?old")
    case True
    then show ?thesis
      using reload_finance_inv [OF s0(3,1,2)] by (auto simp: x1_def dest: payments_inv_key)
  next
    case False
    then have "finance_call se = finance_call ?old" by (simp add: finance_call_def)
    with False s0 inv(2) show ?thesis by (simp add: x1_def finance_inv_def)
  qed
  have i2: "plain_inv evs ((calls @ snd x1) @ snd x2) (fst x2) \<and>
      finance_inv evs ((calls @ snd x1) @ snd x2) (fst x2) \<and>
      reference_inv evs ((calls @ snd x1) @ snd x2) (fst x2) \<and>
      key_inv evs ((calls @ snd x1) @ snd x2) (fst x2)"
  proof (cases "se_budget se \<noteq> se_budget ?old \<or> se_reference se \<noteq> se_reference ?old")
    case True
    have "cell_counts (sent_for RReference (calls @ snd x1)) (reference_answers evs) (db_reference (fst x1))"
      using inv(7) by (simp add: k1)
    from reload_reference_inv [OF this] i1 True show ?thesis unfolding x2_def by simp
  next
    case False
    then have "reference_call se = reference_call ?old" by (simp add: reference_call_def)
    with inv(3) have "reference_inv evs (calls @ snd x1) (fst x1)" by (simp add: reference_inv_def k1)
    with False i1 show ?thesis by (simp add: x2_def)
  qed
  then show ?thesis
    unfolding dashboard_inv_def out
    using payments_sync_inv [of evs "(calls @ snd x1) @ snd x2" "fst x2"]
      payments_sync_plain [of evs "(calls @ snd x1) @ snd x2" "fst x2"]
    by (simp add: finance_inv_def reference_inv_def)
qed

text \<open>A state with the same cells but the plain ones.\<close>

lemma dashboard_inv_plain:
  assumes "dashboard_inv evs calls s" and "plain_inv evs' calls' s'"
    and "db_selection s' = db_selection s" "db_finance s' = db_finance s" "db_reference s' = db_reference s"
    and "db_payments s' = db_payments s" "db_payment_key s' = db_payment_key s" "db_revision s' = db_revision s"
    and "sent_for RFinance calls' = sent_for RFinance calls" "finance_answers evs' = finance_answers evs"
    and "sent_for RReference calls' = sent_for RReference calls" "reference_answers evs' = reference_answers evs"
    and "sent_for RPayments calls' = sent_for RPayments calls" "payments_answers evs' = payments_answers evs"
  shows "dashboard_inv evs' calls' s'"
proof -
  have "payment_id s' = payment_id s" using assms by (simp add: payment_id_def)
  with assms show ?thesis
    by (simp add: dashboard_inv_def finance_inv_def reference_inv_def payments_inv_def payments_call_def
        split: if_splits)
qed

lemma plain_inv_parts:
  assumes "plain_inv evs calls s"
  shows "cell_counts (sent_for RBudgets calls) (budgets_answers evs) (db_budgets s)"
    "cell_counts (sent_for RUnits calls) (units_answers evs) (db_units s)"
    "cell_counts (sent_for RDirectory calls) (directory_answers evs) (db_directory s)"
    "cell_counts (sent_for REmails calls) (emails_answers evs) (db_emails s)"
    "cell_counts (sent_for RAccess calls) (access_answers evs) (db_access s)"
  using assms by (auto simp: plain_inv_def dest: cell_ok_counts)

lemma plain_inv_cells:
  assumes "plain_inv evs calls s"
  shows "cell_ok (Some ListBudgets) (sent_for RBudgets calls) (budgets_answers evs) (db_budgets s)"
    "cell_ok (Some ListUnits) (sent_for RUnits calls) (units_answers evs) (db_units s)"
    "cell_ok (Some GetDirectoryQuality) (sent_for RDirectory calls) (directory_answers evs) (db_directory s)"
    "cell_ok (Some GetEmailDashboard) (sent_for REmails calls) (emails_answers evs) (db_emails s)"
    "cell_ok (access_call s) (sent_for RAccess calls) (access_answers evs) (db_access s)"
  using assms by (simp_all add: plain_inv_def)

lemma retry_inv:
  assumes "dashboard_inv evs calls s"
  shows "dashboard_inv evs (calls @ snd (retry x s)) (fst (retry x s))"
proof (cases x)
  case RFinance
  note i = invD [OF assms]
  from reload_finance_inv [OF i(6,1,5)] i(3) RFinance show ?thesis
    by (simp add: dashboard_inv_def reference_inv_def)
next
  case RReference
  note i = invD [OF assms]
  from reload_reference_inv [OF i(7)] i(1,2,4) RReference show ?thesis by (simp add: dashboard_inv_def)
next
  case RPayments
  let ?s = "s\<lparr>db_revision := Suc (db_revision s)\<rparr>"
  note i = invD [OF assms]
  have "key_inv evs calls ?s" "plain_inv evs calls ?s" "finance_inv evs calls ?s" "reference_inv evs calls ?s"
    using i by (simp_all add: key_inv_def plain_inv_def access_call_def finance_inv_def reference_inv_def)
  with payments_sync_inv [of evs calls ?s] payments_sync_plain [of evs calls ?s] RPayments show ?thesis
    by (simp add: dashboard_inv_def finance_inv_def reference_inv_def)
qed (use assms invD(1) [OF assms] plain_inv_parts [OF invD(1) [OF assms]]
      plain_inv_cells [OF invD(1) [OF assms]] in
    \<open>auto simp: reload_access_def plain_inv_def access_call_def cell_ok_load intro!: dashboard_inv_plain [OF assms]\<close>)

lemma retry_all_inv:
  "dashboard_inv evs calls s \<Longrightarrow> dashboard_inv evs (calls @ snd (retry_all xs s)) (fst (retry_all xs s))"
proof (induction xs arbitrary: s calls)
  case (Cons x xs)
  then show ?case
    using Cons.IH [OF retry_inv [OF Cons.prems, of x]] by (simp add: Let_def case_prod_beta)
qed simp
lemma init_loads:
  "retry_all [RBudgets, RUnits, RDirectory, REmails] (new_dashboard ev) =
     ((new_dashboard ev)\<lparr>db_budgets := cell_load (new_cell rm_load), db_units := cell_load (new_cell rm_load),
        db_directory := cell_load (new_cell rm_load), db_emails := cell_load (new_cell rm_load)\<rparr>,
      [ListBudgets, ListUnits, GetDirectoryQuality, GetEmailDashboard])"
  by (simp add: Let_def new_dashboard_def)

lemma cell_ok_first:
  "cell_ok (Some d) [d] [] (cell_load (new_cell r))" "cell_ok None [] [] (new_cell rm_empty)"
  by (simp_all add: cell_ok_def cell_counts_def figure_shown_def cell_load_def new_cell_def)

lemma init_inv: "dashboard_inv [] (snd (dashboard_init ev p)) (fst (dashboard_init ev p))"
proof -
  let ?x = "retry_all [RBudgets, RUnits, RDirectory, REmails] (new_dashboard ev)"
  have "dashboard_inv [] (snd ?x) ((fst ?x)\<lparr>db_params := p\<rparr>)"
    unfolding init_loads
    by (simp add: dashboard_inv_def plain_inv_def access_call_def finance_inv_def reference_inv_def
        payments_inv_def payments_call_def payment_id_def find_cotisation_def new_dashboard_def
        finance_call_def reference_call_def no_selection_def nullish_def cell_ok_first)
  from selection_next_inv [OF this] show ?thesis
    unfolding dashboard_init_def params_changed_def select_again_def Let_def case_prod_beta fst_conv snd_conv
    by simp
qed

lemma silent_event:
  "(case e of ParamsChanged q \<Rightarrow> True | AdministratorChanged b \<Rightarrow> True | RetryOne x \<Rightarrow> True
      | RefreshAll \<Rightarrow> True | SearchMap q \<Rightarrow> True | _ \<Rightarrow> False) \<Longrightarrow>
   dashboard_inv evs calls s \<Longrightarrow> dashboard_inv (evs @ [e]) calls s"
  by (cases e)
    (simp_all add: dashboard_inv_def plain_inv_def finance_inv_def reference_inv_def payments_inv_def)

lemma params_changed_inv:
  "dashboard_inv evs calls s \<Longrightarrow>
   dashboard_inv evs (calls @ snd (params_changed ev p s)) (fst (params_changed ev p s))"
  unfolding params_changed_def select_again_def
  by (rule selection_next_inv, rule dashboard_inv_plain [of evs calls s])
    (simp_all add: dashboard_inv_def plain_inv_def access_call_def)

lemma administrator_inv:
  assumes "dashboard_inv evs calls s"
  shows "dashboard_inv evs (calls @ snd (administrator_changed b s)) (fst (administrator_changed b s))"
proof (cases "b = db_administrator s")
  case False
  note i = invD(1) [OF assms]
  have c: "cell_ok None (sent_for RAccess calls) (access_answers evs) (cell_clear (db_access s))"
    by (rule cell_ok_clear [OF plain_inv_parts(5) [OF i]])
  from False i c cell_ok_load [OF cell_ok_counts [OF c], of GetPendingAccessRequests] show ?thesis
    by (intro dashboard_inv_plain [OF assms])
      (auto simp: administrator_changed_def reload_access_def plain_inv_def access_call_def)
qed (simp add: administrator_changed_def assms)

lemma plain_answer_inv:
  assumes "dashboard_inv evs calls s"
  shows "t < length (sent_for RBudgets calls) \<Longrightarrow>
      dashboard_inv (evs @ [BudgetsAnswer t br]) calls (s\<lparr>db_budgets := cell_deliver (db_budgets s) t br\<rparr>)"
    and "t < length (sent_for RUnits calls) \<Longrightarrow>
      dashboard_inv (evs @ [UnitsAnswer t ur]) calls (s\<lparr>db_units := cell_deliver (db_units s) t ur\<rparr>)"
    and "t < length (sent_for RDirectory calls) \<Longrightarrow>
      dashboard_inv (evs @ [DirectoryAnswer t dr]) calls (s\<lparr>db_directory := cell_deliver (db_directory s) t dr\<rparr>)"
    and "t < length (sent_for REmails calls) \<Longrightarrow>
      dashboard_inv (evs @ [EmailsAnswer t er]) calls (s\<lparr>db_emails := cell_deliver (db_emails s) t er\<rparr>)"
    and "t < length (sent_for RAccess calls) \<Longrightarrow>
      dashboard_inv (evs @ [AccessAnswer t ar]) calls (s\<lparr>db_access := cell_deliver (db_access s) t ar\<rparr>)"
  using plain_inv_cells [OF invD(1) [OF assms]]
  by (auto simp: plain_inv_def access_call_def intro!: dashboard_inv_plain [OF assms] cell_ok_deliver)

lemma cell_answer_inv:
  assumes "dashboard_inv evs calls s"
  shows "t < length (sent_for RReference calls) \<Longrightarrow>
      dashboard_inv (evs @ [ReferenceAnswer t rr]) calls (s\<lparr>db_reference := cell_deliver (db_reference s) t rr\<rparr>)"
    and "t < length (sent_for RPayments calls) \<Longrightarrow>
      dashboard_inv (evs @ [PaymentsAnswer t pr]) calls (s\<lparr>db_payments := cell_deliver (db_payments s) t pr\<rparr>)"
proof -
  have p: "payment_id (s\<lparr>db_reference := c\<rparr>) = payment_id s" "payment_id (s\<lparr>db_payments := d\<rparr>) = payment_id s"
    for c d by (simp_all add: payment_id_def)
  have q: "payments_call (s\<lparr>db_reference := c\<rparr>) = payments_call s"
    "payments_call (s\<lparr>db_payments := d\<rparr>) = payments_call s" for c d
    by (simp_all add: payments_call_def p)
  show "t < length (sent_for RReference calls) \<Longrightarrow>
      dashboard_inv (evs @ [ReferenceAnswer t rr]) calls (s\<lparr>db_reference := cell_deliver (db_reference s) t rr\<rparr>)"
    "t < length (sent_for RPayments calls) \<Longrightarrow>
      dashboard_inv (evs @ [PaymentsAnswer t pr]) calls (s\<lparr>db_payments := cell_deliver (db_payments s) t pr\<rparr>)"
    using assms
    by (simp_all add: dashboard_inv_def plain_inv_def access_call_def finance_inv_def reference_inv_def
        payments_inv_def p q cell_ok_deliver)
qed

lemma finance_answer_inv:
  assumes "dashboard_inv evs calls s" and "t < length (sent_for RFinance calls)"
  shows "dashboard_inv (evs @ [FinanceAnswer t r]) (calls @ snd (finance_answer t r s)) (fst (finance_answer t r s))"
proof -
  let ?s = "s\<lparr>db_finance := cell_deliver (db_finance s) t r\<rparr>" and ?evs = "evs @ [FinanceAnswer t r]"
  note i = invD [OF assms(1)]
  have "key_inv ?evs calls ?s" "plain_inv ?evs calls ?s" "reference_inv ?evs calls ?s" "finance_inv ?evs calls ?s"
    using i assms(2)
    by (simp_all add: key_inv_def plain_inv_def access_call_def reference_inv_def finance_inv_def cell_ok_deliver)
  with payments_sync_inv [of ?evs calls ?s] payments_sync_plain [of ?evs calls ?s] show ?thesis
    by (simp add: finance_answer_def dashboard_inv_def finance_inv_def reference_inv_def)
qed

lemma budgets_answer_inv:
  assumes "dashboard_inv evs calls s" and "t < length (sent_for RBudgets calls)"
  shows "dashboard_inv (evs @ [BudgetsAnswer t r]) (calls @ snd (budgets_answer ev t r s)) (fst (budgets_answer ev t r s))"
proof -
  let ?s = "s\<lparr>db_budgets := cell_deliver (db_budgets s) t r\<rparr>" and ?evs = "evs @ [BudgetsAnswer t r]"
  have i: "dashboard_inv ?evs calls ?s" by (rule plain_answer_inv(1) [OF assms])
  show ?thesis
  proof (cases "cl_active (db_budgets s) = Some t")
    case False
    then have "?s = s" by (simp add: cell_deliver_def)
    with i False show ?thesis by (simp add: budgets_answer_def)
  next
    case True
    have "dashboard_inv ?evs calls (?s\<lparr>db_choices := v\<rparr>)" for v
      using i by (rule dashboard_inv_plain) (use invD(1) [OF i] in \<open>simp_all add: plain_inv_def access_call_def\<close>)
    from selection_next_inv [OF this] i True show ?thesis
      by (simp add: budgets_answer_def Let_def select_again_def split: option.split)
  qed
qed

lemma dashboard_handle_inv:
  assumes "dashboard_inv evs calls s" and "answer_sent e calls"
  shows "dashboard_inv (evs @ [e]) (calls @ snd (dashboard_handle ev e s)) (fst (dashboard_handle ev e s))"
proof (cases e)
  case (ParamsChanged p)
  with silent_event [of e, OF _ params_changed_inv [OF assms(1)]] show ?thesis by simp
next
  case (AdministratorChanged b)
  with silent_event [of e, OF _ administrator_inv [OF assms(1)]] show ?thesis by simp
next
  case (RetryOne x)
  with silent_event [of e, OF _ retry_inv [OF assms(1)]] show ?thesis by simp
next
  case RefreshAll
  with silent_event [of e, OF _ retry_all_inv [OF assms(1)]] show ?thesis
    unfolding RefreshAll dashboard_handle.simps dashboard_refresh_def by (simp del: retry_all.simps)
next
  case (SearchMap q)
  have "dashboard_inv evs calls (s\<lparr>db_mapSearch := q\<rparr>)"
    using assms(1) by (rule dashboard_inv_plain)
      (use invD(1) [OF assms(1)] in \<open>simp_all add: plain_inv_def access_call_def\<close>)
  with silent_event [of e] SearchMap show ?thesis by (simp add: searchMap_def)
qed (use assms(2) in \<open>simp_all add: budgets_answer_inv [OF assms(1)] finance_answer_inv [OF assms(1)]
    plain_answer_inv [OF assms(1)] cell_answer_inv [OF assms(1)]\<close>)

text \<open>The selection is the one of the URL.\<close>

definition url_selection :: "environment \<Rightarrow> (string \<Rightarrow> string option) \<Rightarrow> dashboard \<Rightarrow> selection" where
  "url_selection ev p s =
     read_selection (ev_year ev) (latestBudgetId (ev_date ev) (ev_order ev) (db_choices s)) p"

definition reads_url :: "environment \<Rightarrow> (string \<Rightarrow> string option) \<Rightarrow> dashboard \<Rightarrow> bool" where
  "reads_url ev p s \<longleftrightarrow> db_params s = p \<and> db_selection s = url_selection ev p s"

lemma selection_next_keeps [simp]:
  "db_selection (fst (selection_next se s)) = se" "db_choices (fst (selection_next se s)) = db_choices s"
  "db_params (fst (selection_next se s)) = db_params s"
  by (simp_all add: selection_next_def Let_def case_prod_beta)

lemma select_again_reads: "db_params s = p \<Longrightarrow> reads_url ev p (fst (select_again ev s))"
  by (simp add: reads_url_def url_selection_def select_again_def)

lemma reads_url_cong:
  "db_params s' = db_params s \<Longrightarrow> db_selection s' = db_selection s \<Longrightarrow> db_choices s' = db_choices s \<Longrightarrow>
   reads_url ev p s' = reads_url ev p s"
  by (simp add: reads_url_def url_selection_def)

lemma retry_reads: "reads_url ev p (fst (retry x s)) = reads_url ev p s"
  by (rule reads_url_cong) (cases x; simp add: reload_access_def)+

lemma retry_all_reads: "reads_url ev p (fst (retry_all xs s)) = reads_url ev p s"
  by (induction xs arbitrary: s) (simp_all add: Let_def case_prod_beta retry_reads)

lemma handle_reads:
  assumes "reads_url ev p s"
  shows "reads_url ev (url_after e p) (fst (dashboard_handle ev e s))"
proof (cases e)
  case (ParamsChanged q)
  then show ?thesis by (simp add: params_changed_def select_again_reads)
next
  case (BudgetsAnswer t r)
  have "db_params s = p" using assms by (simp add: reads_url_def)
  then have "reads_url ev p (fst (select_again ev (s\<lparr>db_budgets := c, db_choices := v\<rparr>)))" for c v
    by (simp add: select_again_reads)
  moreover have "reads_url ev p (s\<lparr>db_budgets := c\<rparr>)" for c
    using assms by (simp add: reads_url_def url_selection_def)
  ultimately show ?thesis
    using BudgetsAnswer assms by (simp add: budgets_answer_def Let_def split: option.split)
next
  case (AdministratorChanged b)
  with assms show ?thesis
    by (simp add: administrator_changed_def reload_access_def reads_url_def url_selection_def)
next
  case RefreshAll
  with assms show ?thesis by (simp add: dashboard_refresh_def retry_all_reads del: retry_all.simps)
qed (use assms in \<open>simp_all add: finance_answer_def searchMap_def retry_reads,
    simp_all add: reads_url_def url_selection_def finance_answer_def\<close>)

text \<open>The budgets on offer are those on display.\<close>

definition offers_budgets :: "dashboard \<Rightarrow> bool" where
  "offers_budgets s \<longleftrightarrow> (\<forall>v. rm_value (cl_remote (db_budgets s)) = Some v \<longrightarrow> db_choices s = v)"

lemma budgets_sync [simp]: "db_budgets (fst (payments_sync s)) = db_budgets s"
  by (simp add: payments_sync_def Let_def)

lemma budgets_reloads [simp]:
  "db_budgets (fst (reload_finance s)) = db_budgets s" "db_budgets (fst (reload_reference s)) = db_budgets s"
  by (simp_all add: reload_finance_def reload_reference_def Let_def case_prod_beta)

lemma budgets_kept [simp]: "db_budgets (fst (selection_next se s)) = db_budgets s"
  by (simp add: selection_next_def Let_def case_prod_beta)

lemma retry_offers: "offers_budgets s \<Longrightarrow> offers_budgets (fst (retry x s))"
  by (cases x) (simp_all add: offers_budgets_def reload_access_def cell_load_def rm_load_def)

lemma retry_all_offers: "offers_budgets s \<Longrightarrow> offers_budgets (fst (retry_all xs s))"
  by (induction xs arbitrary: s) (simp_all add: Let_def case_prod_beta retry_offers)

lemma handle_offers:
  assumes "offers_budgets s"
  shows "offers_budgets (fst (dashboard_handle ev e s))"
proof (cases e)
  case (BudgetsAnswer t r)
  then show ?thesis
    using assms by (auto simp: budgets_answer_def Let_def offers_budgets_def select_again_def split: option.split)
next
  case RefreshAll
  with assms show ?thesis by (simp add: dashboard_refresh_def retry_all_offers del: retry_all.simps)
qed (use assms in \<open>simp_all add: retry_offers,
    simp_all add: offers_budgets_def params_changed_def select_again_def finance_answer_def searchMap_def
      administrator_changed_def reload_access_def\<close>)

lemma dashboard_run_inv:
  "dashboard_run ev p evs calls s \<Longrightarrow> dashboard_inv evs calls s \<and> reads_url ev p s \<and> offers_budgets s"
proof (induction rule: dashboard_run.induct)
  case (start p)
  have "reads_url ev p (fst (dashboard_init ev p))"
    by (simp add: dashboard_init_def Let_def case_prod_beta params_changed_def select_again_reads)
  moreover have "offers_budgets (fst (dashboard_init ev p))"
    unfolding dashboard_init_def init_loads Let_def case_prod_beta fst_conv params_changed_def select_again_def
    by (simp add: offers_budgets_def cell_load_def rm_load_def)
  ultimately show ?case using init_inv by blast
next
  case (event p evs calls s e)
  then show ?case by (simp add: dashboard_handle_inv handle_reads handle_offers)
qed

text \<open>
  C32. Every figure of the page answers the current selection. In every run of the page, whatever the
  order of its URLs, retries, refreshes, sessions and answers, the selection is the one its current
  URL asks for, with the newest of the budgets on display where the URL names none; and each of the
  eight figures shows exactly what its own requests were answered: where the selection (or the rights
  of the account) asks for nothing it is empty; otherwise the last request made for it is the one the
  selection asks for (the finances of the budget and the year, the reference budget unless it is the
  budget itself, the payments of the call for funds of the selected lot in the finances on display),
  it loads until that request is answered and shows that answer from then on, whatever answers to
  earlier requests arrive.
\<close>
theorem dashboard_cells_current:
  assumes "dashboard_run ev p evs calls s"
  shows "db_selection s =
      read_selection (ev_year ev) (latestBudgetId (ev_date ev) (ev_order ev) (db_choices s)) p \<and>
    (\<forall>v. rm_value (cl_remote (db_budgets s)) = Some v \<longrightarrow> db_choices s = v) \<and>
    figure_shown (finance_call (db_selection s)) (sent_for RFinance calls) (finance_answers evs)
      (cl_remote (db_finance s)) \<and>
    figure_shown (reference_call (db_selection s)) (sent_for RReference calls) (reference_answers evs)
      (cl_remote (db_reference s)) \<and>
    figure_shown (payments_call s) (sent_for RPayments calls) (payments_answers evs)
      (cl_remote (db_payments s)) \<and>
    figure_shown (Some ListBudgets) (sent_for RBudgets calls) (budgets_answers evs) (cl_remote (db_budgets s)) \<and>
    figure_shown (Some ListUnits) (sent_for RUnits calls) (units_answers evs) (cl_remote (db_units s)) \<and>
    figure_shown (Some GetDirectoryQuality) (sent_for RDirectory calls) (directory_answers evs)
      (cl_remote (db_directory s)) \<and>
    figure_shown (Some GetEmailDashboard) (sent_for REmails calls) (emails_answers evs)
      (cl_remote (db_emails s)) \<and>
    figure_shown (access_call s) (sent_for RAccess calls) (access_answers evs) (cl_remote (db_access s))"
  using dashboard_run_inv [OF assms]
  unfolding dashboard_inv_def plain_inv_def finance_inv_def reference_inv_def payments_inv_def
    cell_ok_def reads_url_def url_selection_def offers_budgets_def
  by (elim conjE) (intro conjI; assumption)

definition example_environment :: environment where
  "example_environment = \<lparr>ev_date = (\<lambda>d. Some (int (length d))), ev_order = (\<lambda>a b. int (length a) - int (length b)),
     ev_year = 2025\<rparr>"

definition late_events :: "dashboard_event list" where
  "late_events = [ParamsChanged [''budget'' \<mapsto> ''b1'', ''year'' \<mapsto> ''2024''], FinanceAnswer 0 (Inr None)]"

text \<open>The year was changed, and the answer for the former year came late: the finances still load.\<close>

theorem dashboard_cells_current_witness:
  "\<exists>calls s. dashboard_run example_environment [''budget'' \<mapsto> ''b1'', ''year'' \<mapsto> ''2024''] late_events calls s \<and>
     sent_for RFinance calls = [GetBudgetDashboard ''b1'' 2025, GetBudgetDashboard ''b1'' 2024] \<and>
     finance_answers late_events = [(0, Inr None)] \<and> cl_remote (db_finance s) = rm_load"
proof -
  let ?ev = example_environment
  let ?p = "[''budget'' \<mapsto> ''b1'']" and ?q = "[''budget'' \<mapsto> ''b1'', ''year'' \<mapsto> ''2024'']"
  let ?c0 = "snd (dashboard_init ?ev ?p)" and ?s0 = "fst (dashboard_init ?ev ?p)"
  let ?c1 = "?c0 @ snd (params_changed ?ev ?q ?s0)" and ?s1 = "fst (params_changed ?ev ?q ?s0)"
  let ?c2 = "?c1 @ snd (finance_answer 0 (Inr None) ?s1)" and ?s2 = "fst (finance_answer 0 (Inr None) ?s1)"
  have years: "parse_year 2025 None = 2025" "parse_year 2025 (Some ''2024'') = 2024"
    by (simp_all add: parse_year_def is_digit_def)
  have now: "ev_year ?ev = 2025" by (simp add: example_environment_def)
  have sel: "db_selection ?s0 = \<lparr>se_budget = ''b1'', se_reference = [], se_year = 2025, se_search = [], se_lot = None\<rparr>"
    by (simp add: dashboard_init_def Let_def case_prod_beta params_changed_def select_again_def read_selection_def
        years example_environment_def parse_selected_lot_def nullish_def)
  have f: "sent_for RFinance (snd (selection_next se s)) =
      (if se_budget se \<noteq> se_budget (db_selection s) \<or> se_year se \<noteq> se_year (db_selection s)
       then calls_of (finance_call se) else [])" for se s
    by (simp add: selection_next_def Let_def case_prod_beta) (simp add: reload_finance_def Let_def case_prod_beta)
  have x0: "sent_for RFinance ?c0 = [GetBudgetDashboard ''b1'' 2025]"
    unfolding dashboard_init_def init_loads Let_def case_prod_beta fst_conv snd_conv params_changed_def
      select_again_def
    by (simp add: f new_dashboard_def no_selection_def read_selection_def years example_environment_def
        finance_call_def calls_of_def)
  have x1: "sent_for RFinance (snd (params_changed ?ev ?q ?s0)) = [GetBudgetDashboard ''b1'' 2024]"
    by (simp add: params_changed_def select_again_def f sel read_selection_def years now
        finance_call_def calls_of_def)
  have c1: "sent_for RFinance ?c1 = [GetBudgetDashboard ''b1'' 2025, GetBudgetDashboard ''b1'' 2024]"
    by (simp add: x0 x1)
  have r1: "dashboard_run ?ev ?q [ParamsChanged ?q] ?c1 ?s1"
    using dashboard_run.event [OF dashboard_run.start, of "ParamsChanged ?q" ?ev ?p] by simp
  have "answer_sent (FinanceAnswer 0 (Inr None)) ?c1" by (simp only: answer_sent.simps c1) simp
  from dashboard_run.event [OF r1 this] have r2: "dashboard_run ?ev ?q late_events ?c2 ?s2"
    by (simp add: late_events_def)
  have c2: "sent_for RFinance ?c2 = [GetBudgetDashboard ''b1'' 2025, GetBudgetDashboard ''b1'' 2024]"
    by (simp add: finance_answer_def x0 x1)
  have a: "finance_answers late_events = [(0, Inr None)]"
    using answers_snoc(2) [of "[ParamsChanged ?q]" "FinanceAnswer 0 (Inr None)"]
      answers_snoc(2) [of "[]" "ParamsChanged ?q"] by (simp add: late_events_def)
  have "db_selection ?s2 = db_selection ?s1" by (simp add: finance_answer_def)
  then have call: "finance_call (db_selection ?s2) = Some (GetBudgetDashboard ''b1'' 2024)"
    by (simp add: params_changed_def select_again_def read_selection_def years example_environment_def
        finance_call_def)
  from dashboard_cells_current [OF r2]
  have "figure_shown (finance_call (db_selection ?s2)) (sent_for RFinance ?c2) (finance_answers late_events)
      (cl_remote (db_finance ?s2))" by (elim conjE)
  then have "cl_remote (db_finance ?s2) = rm_load" unfolding call c2 a by (simp add: figure_shown_def)
  with r2 c2 a show ?thesis by blast
qed

end
