(* ===== verification/Json_Parse.thy ===== *)
theory Json_Parse
  imports Json Js_Text
begin

text \<open>
  \<open>JSON.parse\<close>, and \<open>JSON.stringify\<close> with an indentation, as the editor of template values and
  the forms of e-mails use them. The reading of a number's text is a parameter (\<open>Number\<close> rounds
  to the nearest double). The recursion of the parser is bounded by a fuel of twice the length of
  the text, which the lemma \<open>parse_fuel\<close> shows to be enough for every text. An escape beyond the
  256 code points of the model's strings is read as no text.
\<close>

subsection \<open>Own keys\<close>

text \<open>
  \<open>Object.entries\<close> lists the array indices first, in ascending order, then the other keys in the
  order of their creation.
\<close>

fun digits_value :: "nat \<Rightarrow> string \<Rightarrow> nat" where
  "digits_value n [] = n"
| "digits_value n (c # cs) = digits_value (10 * n + (of_char c - 48)) cs"

definition is_index :: "string \<Rightarrow> bool" where
  "is_index k \<longleftrightarrow> k \<noteq> [] \<and> list_all is_digit k \<and> (k = ''0'' \<or> hd k \<noteq> CHR ''0'') \<and>
     digits_value 0 k < 2 ^ 32 - 1"

definition own_order :: "(string \<times> 'a) list \<Rightarrow> (string \<times> 'a) list" where
  "own_order m =
     sort_key (\<lambda>(k, v). digits_value 0 k) (filter (\<lambda>x. is_index (fst x)) m) @
     filter (\<lambda>x. \<not> is_index (fst x)) m"

definition obj_set :: "string \<Rightarrow> 'a \<Rightarrow> (string \<times> 'a) list \<Rightarrow> (string \<times> 'a) list" where
  "obj_set k v m = own_order (omap_set k v m)"

definition obj_of :: "(string \<times> 'a) list \<Rightarrow> (string \<times> 'a) list" where
  "obj_of ms = own_order (fold (\<lambda>(k, v). omap_set k v) ms [])"

subsection \<open>Texts\<close>

definition json_space :: "char \<Rightarrow> bool" where
  "json_space c \<longleftrightarrow> (of_char c :: nat) \<in> {9, 10, 13, 32}"

definition skip_ws :: "string \<Rightarrow> string" where
  "skip_ws s = dropWhile json_space s"

fun hex_value :: "char \<Rightarrow> nat option" where
  "hex_value c =
     (let n = of_char c in
      if 48 \<le> n \<and> n \<le> 57 then Some (n - 48)
      else if 97 \<le> n \<and> n \<le> 102 then Some (n - 87)
      else if 65 \<le> n \<and> n \<le> 70 then Some (n - 55) else None)"

definition escaped :: "char \<Rightarrow> char option" where
  "escaped c =
     (let n = of_char c :: nat in
      if n = 34 \<or> n = 92 \<or> n = 47 then Some c
      else if n = 98 then Some (char_of (8 :: nat))
      else if n = 102 then Some (char_of (12 :: nat))
      else if n = 110 then Some (char_of (10 :: nat))
      else if n = 114 then Some (char_of (13 :: nat))
      else if n = 116 then Some (char_of (9 :: nat)) else None)"

definition unicode_escape :: "char \<Rightarrow> char \<Rightarrow> char \<Rightarrow> char \<Rightarrow> char option" where
  "unicode_escape a b c d =
     (case (hex_value a, hex_value b, hex_value c, hex_value d) of
        (Some w, Some x, Some y, Some z) \<Rightarrow>
          if w = 0 \<and> x = 0 then Some (char_of (16 * y + z)) else None
      | _ \<Rightarrow> None)"

definition prepend :: "'a \<Rightarrow> ('a list \<times> 'b) option \<Rightarrow> ('a list \<times> 'b) option" where
  "prepend x r = map_option (\<lambda>(xs, y). (x # xs, y)) r"

text \<open>The characters of a string after its opening quote, and the text after the closing one.\<close>

fun parse_chars :: "string \<Rightarrow> (string \<times> string) option" where
  "parse_chars [] = None"
| "parse_chars (q # s) =
     (if q = CHR 34 then Some ([], s)
      else if (of_char q :: nat) < 32 then None
      else if q = CHR 92 then
        (case s of
           [] \<Rightarrow> None
         | e # s1 \<Rightarrow>
             if e = CHR ''u'' then
               (case s1 of
                  a # b # c # d # s2 \<Rightarrow>
                    (case unicode_escape a b c d of
                       None \<Rightarrow> None | Some x \<Rightarrow> prepend x (parse_chars s2))
                | _ \<Rightarrow> None)
             else (case escaped e of None \<Rightarrow> None | Some x \<Rightarrow> prepend x (parse_chars s1)))
      else prepend q (parse_chars s))"

text \<open>
  A number is the longest run of characters that may occur in one; nothing that follows a number
  in a JSON text is such a character, so a run that is no number is an error either way.
\<close>

definition number_char :: "char \<Rightarrow> bool" where
  "number_char c \<longleftrightarrow> is_digit c \<or> c \<in> {CHR ''+'', CHR ''-'', CHR ''.'', CHR ''e'', CHR ''E''}"

definition digits1 :: "string \<Rightarrow> bool" where
  "digits1 s \<longleftrightarrow> s \<noteq> [] \<and> list_all is_digit s"

definition exponent_ok :: "string \<Rightarrow> bool" where
  "exponent_ok s =
     (case s of
        [] \<Rightarrow> True
      | c # ds \<Rightarrow> c \<in> {CHR ''e'', CHR ''E''} \<and>
          (case ds of
             [] \<Rightarrow> False
           | d # es \<Rightarrow> if d \<in> {CHR ''+'', CHR ''-''} then digits1 es else digits1 ds))"

definition fraction_ok :: "string \<Rightarrow> bool" where
  "fraction_ok s =
     (case s of
        [] \<Rightarrow> True
      | c # ds \<Rightarrow>
          if c = CHR ''.'' then takeWhile is_digit ds \<noteq> [] \<and> exponent_ok (dropWhile is_digit ds)
          else exponent_ok s)"

definition unsigned_ok :: "string \<Rightarrow> bool" where
  "unsigned_ok s =
     (let whole = takeWhile is_digit s; rest = dropWhile is_digit s in
      whole \<noteq> [] \<and> (whole = ''0'' \<or> hd whole \<noteq> CHR ''0'') \<and> fraction_ok rest)"

definition json_number :: "string \<Rightarrow> bool" where
  "json_number s = (case s of [] \<Rightarrow> False | c # r \<Rightarrow> unsigned_ok (if c = CHR ''-'' then r else s))"

definition parse_number :: "(string \<Rightarrow> js_number) \<Rightarrow> string \<Rightarrow> (json \<times> string) option" where
  "parse_number rd s =
     (let t = takeWhile number_char s in
      if json_number t then Some (JNum (rd t), dropWhile number_char s) else None)"

definition parse_literal :: "string \<Rightarrow> json \<Rightarrow> string \<Rightarrow> (json \<times> string) option" where
  "parse_literal l v s = (if starts_with s l then Some (v, drop (length l) s) else None)"

definition expect :: "char \<Rightarrow> string \<Rightarrow> string option" where
  "expect c s = (case skip_ws s of [] \<Rightarrow> None | d # r \<Rightarrow> if d = c then Some r else None)"

subsection \<open>Values\<close>

fun parse_value :: "(string \<Rightarrow> js_number) \<Rightarrow> nat \<Rightarrow> string \<Rightarrow> (json \<times> string) option"
and parse_elements :: "(string \<Rightarrow> js_number) \<Rightarrow> nat \<Rightarrow> string \<Rightarrow> (json list \<times> string) option"
and parse_members ::
  "(string \<Rightarrow> js_number) \<Rightarrow> nat \<Rightarrow> string \<Rightarrow> ((string \<times> json) list \<times> string) option" where
  "parse_value rd 0 s = None"
| "parse_value rd (Suc f) s =
     (case skip_ws s of
        [] \<Rightarrow> None
      | c # r \<Rightarrow>
          if c = CHR 123 then
            (case expect (CHR 125) r of
               Some r' \<Rightarrow> Some (JObj [], r')
             | None \<Rightarrow> map_option (\<lambda>(ms, r'). (JObj (obj_of ms), r')) (parse_members rd f r))
          else if c = CHR ''['' then
            (case expect (CHR '']'') r of
               Some r' \<Rightarrow> Some (JArr [], r')
             | None \<Rightarrow> map_option (\<lambda>(vs, r'). (JArr vs, r')) (parse_elements rd f r))
          else if c = CHR 34 then map_option (\<lambda>(t, r'). (JStr t, r')) (parse_chars r)
          else if c = CHR ''t'' then parse_literal ''true'' (JBool True) (c # r)
          else if c = CHR ''f'' then parse_literal ''false'' (JBool False) (c # r)
          else if c = CHR ''n'' then parse_literal ''null'' JNull (c # r)
          else parse_number rd (c # r))"
| "parse_elements rd 0 s = None"
| "parse_elements rd (Suc f) s =
     (case parse_value rd f s of
        None \<Rightarrow> None
      | Some (v, r) \<Rightarrow>
          (case expect (CHR '','') r of
             Some r' \<Rightarrow> prepend v (parse_elements rd f r')
           | None \<Rightarrow> map_option (\<lambda>r'. ([v], r')) (expect (CHR '']'') r)))"
| "parse_members rd 0 s = None"
| "parse_members rd (Suc f) s =
     (case Option.bind (expect (CHR 34) s) parse_chars of
        None \<Rightarrow> None
      | Some (k, r1) \<Rightarrow>
          (case Option.bind (expect (CHR '':'') r1) (parse_value rd f) of
             None \<Rightarrow> None
           | Some (v, r2) \<Rightarrow>
               (case expect (CHR '','') r2 of
                  Some r' \<Rightarrow> prepend (k, v) (parse_members rd f r')
                | None \<Rightarrow> map_option (\<lambda>r'. ([(k, v)], r')) (expect (CHR 125) r2))))"

definition json_parse :: "(string \<Rightarrow> js_number) \<Rightarrow> string \<Rightarrow> json option" where
  "json_parse rd s =
     (case parse_value rd (2 * length s + 1) s of
        Some (v, r) \<Rightarrow> if skip_ws r = [] then Some v else None
      | None \<Rightarrow> None)"

subsection \<open>Printing with an indentation\<close>

definition newline :: "string \<Rightarrow> string \<Rightarrow> string" where
  "newline gap indent = (if gap = [] then [] else CHR 10 # indent)"

fun stringify_in :: "string \<Rightarrow> string \<Rightarrow> json \<Rightarrow> string" where
  "stringify_in gap i JNull = ''null''"
| "stringify_in gap i (JBool b) = (if b then ''true'' else ''false'')"
| "stringify_in gap i (JNum v) = (if is_finite v then number_str v else ''null'')"
| "stringify_in gap i (JStr s) = quote_str s"
| "stringify_in gap i (JArr vs) =
     (if vs = [] then ''[]''
      else ''['' @ newline gap (i @ gap) @
        join_str ('','' @ newline gap (i @ gap)) (map (stringify_in gap (i @ gap)) vs) @
        newline gap i @ '']'')"
| "stringify_in gap i (JObj ms) =
     (if ms = [] then [CHR 123, CHR 125]
      else CHR 123 # newline gap (i @ gap) @
        join_str ('','' @ newline gap (i @ gap))
          (map (\<lambda>(k, v). quote_str k @ '':'' @ (if gap = [] then [] else '' '') @
             stringify_in gap (i @ gap) v) ms) @
        newline gap i @ [CHR 125])"

lemma stringify_in_compact: "stringify_in [] i j = stringify j"
proof (induction j arbitrary: i)
  case (JArr vs)
  then have m: "map (stringify_in [] i) vs = map stringify vs" for i by (intro map_cong refl) simp
  show ?case by (simp add: newline_def m del: map_eq_conv)
next
  case (JObj ms)
  then have m: "map (\<lambda>(k, v). quote_str k @ '':'' @ stringify_in [] i v) ms =
      map (\<lambda>(k, v). quote_str k @ '':'' @ stringify v) ms" for i
    by (intro map_cong refl) (auto simp: snds.simps)
  show ?case using m [of i] by (cases ms) (simp_all add: newline_def del: map_eq_conv)
qed simp_all

text \<open>\<open>JSON.stringify(value, null, 2)\<close>.\<close>

definition stringify2 :: "json \<Rightarrow> string" where
  "stringify2 j = stringify_in ''  '' [] j"


subsection \<open>Enough fuel\<close>

lemma skip_ws_length: "length (skip_ws s) \<le> length s"
  by (simp add: skip_ws_def length_dropWhile_le)

lemma expect_length: "expect c s = Some r \<Longrightarrow> length r < length s"
  using skip_ws_length [of s] by (auto simp: expect_def split: list.splits if_splits)

lemma parse_chars_length: "parse_chars s = Some (t, r) \<Longrightarrow> length r < length s"
proof (induction s arbitrary: t rule: parse_chars.induct)
  case (2 q s)
  show ?case
    using 2 by (fastforce simp: prepend_def split: if_splits list.splits option.splits)
qed simp

lemma parse_literal_length: "l \<noteq> [] \<Longrightarrow> parse_literal l v s = Some (w, r) \<Longrightarrow> length r < length s"
  by (cases s) (auto simp: parse_literal_def starts_with_def split: if_splits)

lemma parse_number_length: "parse_number rd s = Some (v, r) \<Longrightarrow> length r < length s"
proof -
  assume p: "parse_number rd s = Some (v, r)"
  then have r: "r = dropWhile number_char s" and t: "takeWhile number_char s \<noteq> []"
    by (auto simp: parse_number_def Let_def json_number_def split: if_splits)
  have "length (takeWhile number_char s) + length r = length s"
    unfolding r by (metis length_append takeWhile_dropWhile_id)
  with t show ?thesis by (cases "takeWhile number_char s") auto
qed

lemma parse_length:
  "parse_value rd f s = Some (v, r) \<Longrightarrow> length r < length s"
  "parse_elements rd f s = Some (vs, r) \<Longrightarrow> length r < length s"
  "parse_members rd f s = Some (ms, r) \<Longrightarrow> length r < length s"
proof (induction f arbitrary: s v vs ms r)
  case (Suc f)
  {
    case 1
    then obtain c q where s: "skip_ws s = c # q" by (cases "skip_ws s") auto
    have "length q < length s" using skip_ws_length [of s] s by simp
    moreover have "length r < Suc (length q)"
      using 1 s Suc.IH expect_length parse_chars_length
        parse_literal_length [of _ _ "c # q"] parse_number_length [of rd "c # q"]
      by (fastforce split: if_splits option.splits)
    ultimately show ?case by linarith
  next
    case 2
    then obtain w q where v: "parse_value rd f s = Some (w, q)" by (auto split: option.splits)
    have "length q < length s" using Suc.IH(1) [OF v] .
    moreover have "length r < length q"
      using 2 v Suc.IH(2) expect_length [of _ q]
      by (fastforce simp: prepend_def split: option.splits)
    ultimately show ?case by linarith
  next
    case 3
    then obtain q k r1 where k: "expect (CHR 34) s = Some q" "parse_chars q = Some (k, r1)"
      by (auto split: option.splits bind_splits)
    with 3 obtain q2 w r2 where v: "expect (CHR '':'') r1 = Some q2" "parse_value rd f q2 = Some (w, r2)"
      by (auto split: option.splits bind_splits)
    have "length r < length r2"
      using 3 k v Suc.IH(3) expect_length [of _ r2]
      by (fastforce simp: prepend_def split: option.splits)
    moreover have "length r2 < length q2" using Suc.IH(1) [OF v(2)] .
    ultimately show ?case
      using expect_length [OF k(1)] parse_chars_length [OF k(2)] expect_length [OF v(1)] by linarith
  }
qed simp_all

text \<open>Two amounts of fuel above the bound give the same result, on every text.\<close>

definition fuel_agree :: "(string \<Rightarrow> js_number) \<Rightarrow> string \<Rightarrow> bool" where
  "fuel_agree rd s \<longleftrightarrow>
     (\<forall>f \<ge> 2 * length s + 1. \<forall>f' \<ge> 2 * length s + 1. parse_value rd f s = parse_value rd f' s) \<and>
     (\<forall>f \<ge> 2 * length s + 2. \<forall>f' \<ge> 2 * length s + 2. parse_elements rd f s = parse_elements rd f' s) \<and>
     (\<forall>f \<ge> 2 * length s + 2. \<forall>f' \<ge> 2 * length s + 2. parse_members rd f s = parse_members rd f' s)"

lemma fuel_agreeD:
  assumes "fuel_agree rd s"
  shows "2 * length s + 1 \<le> f \<Longrightarrow> 2 * length s + 1 \<le> f' \<Longrightarrow> parse_value rd f s = parse_value rd f' s"
    and "2 * length s + 2 \<le> f \<Longrightarrow> 2 * length s + 2 \<le> f' \<Longrightarrow> parse_elements rd f s = parse_elements rd f' s"
    and "2 * length s + 2 \<le> f \<Longrightarrow> 2 * length s + 2 \<le> f' \<Longrightarrow> parse_members rd f s = parse_members rd f' s"
  using assms unfolding fuel_agree_def by blast+

lemma value_agree:
  assumes IH: "\<And>r. length r < length s \<Longrightarrow> fuel_agree rd r"
    and b: "2 * length s + 1 \<le> f" "2 * length s + 1 \<le> f'"
  shows "parse_value rd f s = parse_value rd f' s"
proof -
  obtain g g' where g: "f = Suc g" "f' = Suc g'" using b by (cases f; cases f') auto
  show ?thesis
  proof (cases "skip_ws s")
    case (Cons c r)
    then have l: "length r < length s" using skip_ws_length [of s] by simp
    with b g have "2 * length r + 2 \<le> g" "2 * length r + 2 \<le> g'" by auto
    then have "parse_elements rd g r = parse_elements rd g' r"
      "parse_members rd g r = parse_members rd g' r"
      by (blast intro: fuel_agreeD [OF IH [OF l]])+
    with Cons g show ?thesis by (simp split: option.split)
  qed (simp add: g)
qed

lemma elements_agree:
  assumes IH: "\<And>r. length r < length s \<Longrightarrow> fuel_agree rd r"
    and b: "2 * length s + 2 \<le> f" "2 * length s + 2 \<le> f'"
  shows "parse_elements rd f s = parse_elements rd f' s"
proof -
  obtain g g' where g: "f = Suc g" "f' = Suc g'" using b by (cases f; cases f') auto
  have v: "parse_value rd g s = parse_value rd g' s" by (rule value_agree [OF IH]) (use b g in auto)
  have "parse_elements rd g q = parse_elements rd g' q"
    if "parse_value rd g' s = Some (w, r)" "expect (CHR '','') r = Some q" for w r q
  proof -
    have l: "length q < length s" using parse_length(1) [OF that(1)] expect_length [OF that(2)] by linarith
    show ?thesis by (rule fuel_agreeD(2) [OF IH [OF l]]) (use l b g in auto)
  qed
  with v g show ?thesis by (auto split: option.split)
qed

lemma members_agree:
  assumes IH: "\<And>r. length r < length s \<Longrightarrow> fuel_agree rd r"
    and b: "2 * length s + 2 \<le> f" "2 * length s + 2 \<le> f'"
  shows "parse_members rd f s = parse_members rd f' s"
proof -
  obtain g g' where g: "f = Suc g" "f' = Suc g'" using b by (cases f; cases f') auto
  show ?thesis
  proof (cases "Option.bind (expect (CHR 34) s) parse_chars")
    case (Some x)
    then obtain q k r1 where k: "expect (CHR 34) s = Some q" "parse_chars q = Some (k, r1)" "x = (k, r1)"
      by (cases x) (auto split: bind_splits)
    have l1: "length r1 < length s" using expect_length [OF k(1)] parse_chars_length [OF k(2)] by linarith
    have v: "parse_value rd g q2 = parse_value rd g' q2" if e: "expect (CHR '':'') r1 = Some q2" for q2
    proof -
      have l: "length q2 < length s" using l1 expect_length [OF e] by linarith
      show ?thesis by (rule fuel_agreeD(1) [OF IH [OF l]]) (use l b g in auto)
    qed
    have m: "parse_members rd g q3 = parse_members rd g' q3"
      if e: "expect (CHR '':'') r1 = Some q2" "parse_value rd g' q2 = Some (w, r2)"
        "expect (CHR '','') r2 = Some q3" for q2 w r2 q3
    proof -
      have l: "length q3 < length s"
        using l1 expect_length [OF e(1)] parse_length(1) [OF e(2)] expect_length [OF e(3)] by linarith
      show ?thesis by (rule fuel_agreeD(3) [OF IH [OF l]]) (use l b g in auto)
    qed
    from g k v m show ?thesis by (cases "expect (CHR '':'') r1") (auto split: option.split)
  qed (simp add: g)
qed

lemma fuel_agree: "fuel_agree rd s"
proof (induction "length s" arbitrary: s rule: less_induct)
  case less
  show ?case
    unfolding fuel_agree_def
    by (intro conjI allI impI value_agree elements_agree members_agree less) auto
qed

lemma parse_fuel: "2 * length s + 1 \<le> f \<Longrightarrow> parse_value rd f s = parse_value rd (2 * length s + 1) s"
  by (rule fuel_agreeD [OF fuel_agree]) auto

subsection \<open>Round trip\<close>

lemma hex_value_digit: "hex_value (hex_digit d) = Some (d mod 16)"
proof -
  have "\<forall>k < 16. hex_value (''0123456789abcdef'' ! k) = Some k"
    by (simp add: numeral_eq_Suc All_less_Suc)
  then show ?thesis by (simp add: hex_digit_def del: hex_value.simps)
qed

lemma parse_chars_escape:
  "parse_chars (escape_char c @ s) = prepend c (parse_chars s)"
proof -
  define n :: nat where "n = of_char c"
  have c: "c = char_of n" by (simp add: n_def)
  consider "n = 34" | "n = 92" | "n = 8" | "n = 12" | "n = 10" | "n = 13" | "n = 9"
    | "n < 32" "n \<notin> {8, 9, 10, 12, 13}" | "32 \<le> n" "n \<noteq> 34" "n \<noteq> 92" by fastforce
  then show ?thesis
  proof cases
    case 1
    then have "c = CHR 34" using char_of_char [of "CHR 34"] by (simp add: c)
    then show ?thesis by (simp add: escape_char_def escaped_def)
  next
    case 2
    then have "c = CHR 92" using char_of_char [of "CHR 92"] by (simp add: c)
    then show ?thesis by (simp add: escape_char_def escaped_def)
  next
    case 8
    have "hex_value (CHR ''0'') = Some 0" by simp
    with 8 have "unicode_escape CHR ''0'' CHR ''0'' (hex_digit (n div 16)) (hex_digit n) = Some c"
      by (simp add: unicode_escape_def hex_value_digit c div_less_dividend del: hex_value.simps)
    with 8 show ?thesis by (simp add: escape_char_def n_def [symmetric] Let_def)
  next
    case 9
    then have "c \<noteq> CHR 34" "c \<noteq> CHR 92" by (auto simp: n_def)
    with 9 show ?thesis by (simp add: escape_char_def n_def [symmetric] Let_def)
  qed (simp_all add: escape_char_def n_def [symmetric] Let_def c escaped_def)
qed

text \<open>What a printed number is followed by: the end, a separator or white space.\<close>

definition number_end :: "string \<Rightarrow> bool" where
  "number_end r \<longleftrightarrow> r = [] \<or> \<not> number_char (hd r)"

lemma nat_str_hd: "0 < n \<Longrightarrow> hd (nat_str n) \<noteq> CHR ''0''"
proof (induction n rule: nat_str.induct)
  case (1 n)
  show ?case
  proof (cases "n < 10")
    case True
    have "\<forall>k < 10. 0 < k \<longrightarrow> ''0123456789'' ! k \<noteq> CHR ''0''" by (simp add: numeral_eq_Suc All_less_Suc)
    with True 1 show ?thesis by (subst nat_str.simps) simp
  next
    case False
    then have "hd (nat_str n) = hd (nat_str (n div 10))" by (simp add: nat_str_step)
    with False 1 show ?thesis by simp
  qed
qed

lemma exponent_str_ok: "exponent_ok (exponent_str e)"
  by (simp add: exponent_str_def exponent_ok_def digits1_def nat_str_digits)

lemma takeWhile_digits: "list_all is_digit ds \<Longrightarrow> rest = [] \<or> \<not> is_digit (hd rest) \<Longrightarrow>
    takeWhile is_digit (ds @ rest) = ds \<and> dropWhile is_digit (ds @ rest) = rest"
  by (induction ds) (cases rest; simp)+

lemma unsigned_okI:
  assumes "list_all is_digit w" "w \<noteq> []" "w = ''0'' \<or> hd w \<noteq> CHR ''0''"
    and "r = [] \<or> \<not> is_digit (hd r)" and "fraction_ok r"
  shows "unsigned_ok (w @ r)"
  using assms takeWhile_digits [OF assms(1,4)] by (simp add: unsigned_ok_def Let_def)

lemma fraction_okI:
  assumes "list_all is_digit w" "w \<noteq> []" and "r = [] \<or> \<not> is_digit (hd r)" and "exponent_ok r"
  shows "fraction_ok (CHR ''.'' # w @ r)"
  using assms takeWhile_digits [OF assms(1,3)] by (simp add: fraction_ok_def)

lemma exponent_fraction: "exponent_ok r \<Longrightarrow> r = [] \<or> hd r \<noteq> CHR ''.'' \<Longrightarrow> fraction_ok r"
  by (cases r) (auto simp: fraction_ok_def exponent_ok_def)

lemma digit_chars: "list_all is_digit ds \<Longrightarrow> list_all number_char ds"
  by (auto simp: list_all_iff number_char_def)

lemma exponent_str_chars: "list_all number_char (exponent_str e)" "hd (exponent_str e) = CHR ''e''"
    "exponent_str e \<noteq> []"
  using digit_chars [OF nat_str_digits] by (auto simp: exponent_str_def number_char_def)

lemma not_digit_e: "\<not> is_digit CHR ''e''" "\<not> is_digit CHR ''.''" "is_digit CHR ''0''"
  by (auto simp: is_digit_def)

lemma list_all_take_drop: "list_all P xs \<Longrightarrow> list_all P (take n xs) \<and> list_all P (drop n xs)"
  by (auto simp: list_all_iff dest: in_set_takeD in_set_dropD)

lemma positive_str_ok:
  assumes d: "list_all is_digit ds" "ds \<noteq> []" "hd ds \<noteq> CHR ''0''"
  shows "unsigned_ok (positive_str ds n) \<and> list_all number_char (positive_str ds n)"
proof -
  note parts = list_all_take_drop [OF d(1)]
  have z: "list_all is_digit (replicate m CHR ''0'')" for m by (simp add: list_all_length not_digit_e)
  note chars = digit_chars [OF d(1)] list_all_take_drop [OF digit_chars [OF d(1)]] digit_chars [OF z]
    exponent_str_chars
  let ?k = "int (length ds)"
  consider (whole) "?k \<le> n" "n \<le> 21" | (point) "0 < n" "n \<le> 21" "n < ?k" | (small) "- 6 < n" "n \<le> 0" "n < ?k"
    | (one) "n \<le> - 6 \<or> 21 < n" "length ds = 1" | (exp) "n \<le> - 6 \<or> 21 < n" "length ds > 1"
    using d(2) by (cases ds) force+
  then show ?thesis
  proof cases
    case whole
    then show ?thesis
      using d z chars unsigned_okI [of "ds @ replicate (nat (n - ?k)) CHR ''0''" "[]"]
      by (auto simp: positive_str_def Let_def fraction_ok_def)
  next
    case point
    let ?w = "take (nat n) ds" and ?f = "drop (nat n) ds"
    have f: "fraction_ok (CHR ''.'' # ?f)"
      using point parts fraction_okI [of ?f "[]"] by (simp add: exponent_ok_def)
    have "hd ?w = hd ds" using point by (simp add: hd_take)
    then have "unsigned_ok (?w @ CHR ''.'' # ?f)"
      using point d parts f by (intro unsigned_okI) (simp_all add: not_digit_e)
    with point chars show ?thesis by (simp add: positive_str_def Let_def number_char_def)
  next
    case small
    have "fraction_ok (CHR ''.'' # (replicate (nat (- n)) CHR ''0'' @ ds))"
      using d z fraction_okI [of "replicate (nat (- n)) CHR ''0'' @ ds" "[]"] by (simp add: exponent_ok_def)
    then have "unsigned_ok (''0'' @ CHR ''.'' # (replicate (nat (- n)) CHR ''0'' @ ds))"
      by (intro unsigned_okI) (simp_all add: not_digit_e)
    with small chars not_digit_e show ?thesis by (simp add: positive_str_def Let_def number_char_def)
  next
    case one
    have "unsigned_ok (ds @ exponent_str (n - 1))"
      using d chars by (intro unsigned_okI exponent_fraction exponent_str_ok) (simp_all add: not_digit_e)
    with one chars show ?thesis by (auto simp: positive_str_def Let_def)
  next
    case exp
    let ?f = "drop 1 ds @ exponent_str (n - 1)"
    have "fraction_ok (CHR ''.'' # ?f)"
      using exp parts chars by (intro fraction_okI exponent_str_ok) (simp_all add: not_digit_e)
    then have "unsigned_ok (take 1 ds @ CHR ''.'' # ?f)"
      using d parts by (intro unsigned_okI) (simp_all add: not_digit_e hd_take)
    with exp chars show ?thesis by (auto simp: positive_str_def Let_def number_char_def)
  qed
qed

lemma number_str_json:
  assumes "wf_number v" and "is_finite v"
  shows "json_number (number_str v) \<and> list_all number_char (number_str v)"
proof (cases v)
  case (Dec neg m n)
  then have "0 < m" using assms by simp
  then have "unsigned_ok (positive_str (digits_of m) n) \<and> list_all number_char (positive_str (digits_of m) n)"
    using nat_str_hd [of m] by (intro positive_str_ok) (simp_all add: digits_of_def nat_str_digits)
  moreover from this obtain c r where "positive_str (digits_of m) n = c # r" "is_digit c"
    by (cases "positive_str (digits_of m) n") (auto simp: unsigned_ok_def split: if_splits)
  ultimately show ?thesis
    using Dec by (auto simp: json_number_def number_char_def is_digit_def)
qed (use assms in \<open>auto simp: json_number_def unsigned_ok_def fraction_ok_def number_char_def is_digit_def\<close>)

lemma parse_number_str:
  assumes "wf_number v" "is_finite v" "number_end r"
  shows "parse_number rd (number_str v @ r) = Some (JNum (rd (number_str v)), r)"
proof -
  have n: "list_all number_char (number_str v)" "json_number (number_str v)"
    using number_str_json [OF assms(1,2)] by auto
  have "takeWhile number_char (number_str v @ r) = number_str v"
    "dropWhile number_char (number_str v @ r) = r"
    using n(1) assms(3) by (cases r; simp add: number_end_def list_all_iff takeWhile_append2 dropWhile_append2)+
  with n show ?thesis by (simp add: parse_number_def)
qed

text \<open>
  The values that \<open>JSON.parse\<close> yields and that print without loss: finite numbers in their
  shortest decimal, distinct keys in the order of \<open>Object.entries\<close>.
\<close>

fun json_ok :: "json \<Rightarrow> bool" where
  "json_ok (JNum v) = (wf_number v \<and> is_finite v)"
| "json_ok (JArr vs) = list_all json_ok vs"
| "json_ok (JObj ms) = (obj_of ms = ms \<and> list_all (\<lambda>(k, v). json_ok v) ms)"
| "json_ok _ = True"

fun json_numbers :: "json \<Rightarrow> js_number list" where
  "json_numbers (JNum v) = [v]"
| "json_numbers (JArr vs) = concat (map json_numbers vs)"
| "json_numbers (JObj ms) = concat (map (\<lambda>(k, v). json_numbers v) ms)"
| "json_numbers _ = []"

definition reads_back :: "(string \<Rightarrow> js_number) \<Rightarrow> json \<Rightarrow> bool" where
  "reads_back rd j \<longleftrightarrow> (\<forall>v \<in> set (json_numbers j). rd (number_str v) = v)"

fun json_size :: "json \<Rightarrow> nat" where
  "json_size (JArr vs) = Suc (sum_list (map (Suc \<circ> json_size) vs))"
| "json_size (JObj ms) = Suc (sum_list (map (\<lambda>(k, v). Suc (json_size v)) ms))"
| "json_size _ = 1"

lemma skip_ws_simps [simp]:
  "skip_ws [] = []" "\<not> json_space c \<Longrightarrow> skip_ws (c # s) = c # s"
  by (simp_all add: skip_ws_def)

lemma skip_ws_append: "list_all json_space w \<Longrightarrow> skip_ws (w @ s) = skip_ws s"
  by (induction w) (simp_all add: skip_ws_def)

lemma expect_append: "list_all json_space w \<Longrightarrow> \<not> json_space c \<Longrightarrow> expect c (w @ c # s) = Some s"
  by (simp add: expect_def skip_ws_append)

lemma newline_space: "list_all json_space gap \<Longrightarrow> list_all json_space i \<Longrightarrow> list_all json_space (newline gap i)"
  by (simp add: newline_def json_space_def)

lemma expect_other:
  "list_all json_space w \<Longrightarrow> \<not> json_space d \<Longrightarrow> d \<noteq> c \<Longrightarrow> expect c (w @ d # s) = None"
  by (simp add: expect_def skip_ws_append)

lemma parse_value_ws: "list_all json_space w \<Longrightarrow> parse_value rd f (w @ s) = parse_value rd f s"
  by (cases f) (simp_all add: skip_ws_append)

lemma expect_here [simp]: "\<not> json_space d \<Longrightarrow> expect c (d # s) = (if d = c then Some s else None)"
  by (simp add: expect_def)

lemma expect_ws: "list_all json_space w \<Longrightarrow> expect c (w @ s) = expect c s"
  by (simp add: expect_def skip_ws_append)

lemma parse_elements_ws: "list_all json_space w \<Longrightarrow> parse_elements rd f (w @ s) = parse_elements rd f s"
  by (cases f) (simp_all add: parse_value_ws)

lemma parse_members_ws: "list_all json_space w \<Longrightarrow> parse_members rd f (w @ s) = parse_members rd f s"
  by (cases f) (simp_all add: expect_ws)

lemma number_end_ws: "list_all json_space w \<Longrightarrow> \<not> number_char c \<Longrightarrow> number_end (w @ c # r)"
proof (cases w)
  case (Cons d w')
  assume "list_all json_space w"
  with Cons have "(of_char d :: nat) \<in> {9, 10, 13, 32}" by (simp add: json_space_def)
  then have "\<not> number_char d" by (auto simp: number_char_def is_digit_def)
  with Cons show ?thesis by (simp add: number_end_def)
qed (simp add: number_end_def)

lemma separators [simp]:
  "json_space CHR '' ''"
  "\<not> json_space CHR '',''" "\<not> json_space CHR '':''" "\<not> json_space CHR '']''" "\<not> json_space CHR 125"
  "\<not> json_space CHR 34" "\<not> json_space CHR ''[''" "\<not> json_space CHR 123" "\<not> number_char CHR '',''" "\<not> number_char CHR '']''" "\<not> number_char CHR 125"
  by (auto simp: json_space_def number_char_def is_digit_def)

definition reads :: "(string \<Rightarrow> js_number) \<Rightarrow> string \<Rightarrow> json \<Rightarrow> bool" where
  "reads rd t j \<longleftrightarrow>
     (\<forall>f r. json_size j \<le> f \<longrightarrow> number_end r \<longrightarrow> parse_value rd f (t @ r) = Some (j, r))"

lemma parse_elements_printed:
  assumes "list_all json_space w" "list_all json_space w'"
    and "vs \<noteq> []" and "\<forall>v \<in> set vs. reads rd (P v) v"
    and "sum_list (map (Suc \<circ> json_size) vs) \<le> f"
  shows "parse_elements rd f (join_str ('','' @ w) (map P vs) @ w' @ CHR '']'' # r) = Some (vs, r)"
  using assms(3-)
proof (induction vs arbitrary: f)
  case (Cons v vs)
  obtain g where g: "f = Suc g" "json_size v \<le> g" "sum_list (map (Suc \<circ> json_size) vs) \<le> g"
    using Cons.prems by (cases f) (auto simp: comp_def)
  have v: "number_end q \<Longrightarrow> parse_value rd g (P v @ q) = Some (v, q)" for q
    using Cons.prems g by (simp add: reads_def)
  show ?case
  proof (cases vs)
    case Nil
    then show ?thesis
      using g v [OF number_end_ws [OF assms(2)]] assms(2) by (simp add: expect_append expect_other)
  next
    case (Cons u us)
    let ?rest = "join_str ('','' @ w) (map P vs) @ w' @ CHR '']'' # r"
    have "parse_elements rd g (w @ ?rest) = Some (vs, r)"
      using Cons Cons.IH [of g] Cons.prems g assms(1) by (simp add: parse_elements_ws)
    moreover have "number_end (CHR '','' # w @ ?rest)" by (simp add: number_end_def)
    moreover have "join_str ('','' @ w) (map P (v # vs)) = P v @ CHR '','' # w @ join_str ('','' @ w) (map P vs)"
      using Cons by simp
    ultimately show ?thesis
      using g v by (simp add: expect_def prepend_def del: join_str.simps)
  qed
qed simp

text \<open>
  The printer with the escape of a character as an argument: what reads back depends only on an
  escape that the parser undoes, which is the contract of the locale.
\<close>

definition quote_with :: "(char \<Rightarrow> string) \<Rightarrow> string \<Rightarrow> string" where
  "quote_with esc s = [CHR 34] @ concat (map esc s) @ [CHR 34]"

fun print_with :: "(char \<Rightarrow> string) \<Rightarrow> string \<Rightarrow> string \<Rightarrow> json \<Rightarrow> string" where
  "print_with esc gap i JNull = ''null''"
| "print_with esc gap i (JBool b) = (if b then ''true'' else ''false'')"
| "print_with esc gap i (JNum v) = (if is_finite v then number_str v else ''null'')"
| "print_with esc gap i (JStr s) = quote_with esc s"
| "print_with esc gap i (JArr vs) =
     (if vs = [] then ''[]''
      else ''['' @ newline gap (i @ gap) @
        join_str ('','' @ newline gap (i @ gap)) (map (print_with esc gap (i @ gap)) vs) @
        newline gap i @ '']'')"
| "print_with esc gap i (JObj ms) =
     (if ms = [] then [CHR 123, CHR 125]
      else CHR 123 # newline gap (i @ gap) @
        join_str ('','' @ newline gap (i @ gap))
          (map (\<lambda>(k, v). quote_with esc k @ '':'' @ (if gap = [] then [] else '' '') @
             print_with esc gap (i @ gap) v) ms) @
        newline gap i @ [CHR 125])"

lemma print_with_escape: "print_with escape_char gap i j = stringify_in gap i j"
proof (induction j arbitrary: i)
  case (JArr vs)
  then have m: "map (print_with escape_char gap i) vs = map (stringify_in gap i) vs" for i
    by (intro map_cong refl) simp
  show ?case by (simp add: m del: map_eq_conv)
next
  case (JObj ms)
  then have m: "map (\<lambda>(k, v). quote_with escape_char k @ '':'' @ b @ print_with escape_char gap i v) ms =
      map (\<lambda>(k, v). quote_str k @ '':'' @ b @ stringify_in gap i v) ms" for i b
    by (intro map_cong refl) (auto simp: snds.simps quote_with_def quote_str_def)
  show ?case using m [of "[]" i] m [of "'' ''" "i @ gap"] by (cases "gap = []") (simp_all del: map_eq_conv)
qed (simp_all add: quote_with_def quote_str_def)

lemma join_str_head: "\<exists>t'. join_str sep ((c # t) # ts) = c # t'"
  by (cases ts) auto

text \<open>The first character of a printed value.\<close>

definition value_head :: "char \<Rightarrow> bool" where
  "value_head c \<longleftrightarrow> \<not> json_space c \<and> c \<notin> {CHR 125, CHR '']'', CHR '',''}"

lemma parse_value_number:
  "json_number t \<Longrightarrow> list_all number_char t \<Longrightarrow> parse_value rd (Suc f) (t @ r) = parse_number rd (t @ r)"
  by (cases t) (auto simp: json_number_def unsigned_ok_def number_char_def is_digit_def json_space_def
      split: if_splits)

locale json_escape =
  fixes esc :: "char \<Rightarrow> string"
  assumes parse_escaped: "parse_chars (esc c @ s) = prepend c (parse_chars s)"
begin

lemma parse_chars_quoted: "parse_chars (concat (map esc t) @ CHR 34 # r) = Some (t, r)"
  by (induction t) (simp_all add: parse_escaped prepend_def del: parse_chars.simps(2), simp)

lemma parse_members_printed:
  assumes "list_all json_space w" "list_all json_space w'" "list_all json_space b"
    and "ms \<noteq> []" and "\<forall>(k, v) \<in> set ms. reads rd (P v) v"
    and "sum_list (map (\<lambda>(k, v). Suc (json_size v)) ms) \<le> f"
  shows "parse_members rd f
     (join_str ('','' @ w) (map (\<lambda>(k, v). quote_with esc k @ '':'' @ b @ P v) ms) @ w' @ CHR 125 # r) = Some (ms, r)"
  using assms(4-)
proof (induction ms arbitrary: f)
  case (Cons m ms)
  obtain k v where m: "m = (k, v)" by fastforce
  obtain g where g: "f = Suc g" "json_size v \<le> g" "sum_list (map (\<lambda>(k, v). Suc (json_size v)) ms) \<le> g"
    using Cons.prems m by (cases f) auto
  have v: "number_end q \<Longrightarrow> parse_value rd g (b @ P v @ q) = Some (v, q)" for q
    using Cons.prems g m assms(3) by (simp add: reads_def parse_value_ws)
  let ?one = "quote_with esc k @ '':'' @ b @ P v"
  have one: "Option.bind (expect (CHR 34) (?one @ q)) parse_chars = Some (k, CHR '':'' # b @ P v @ q)" for q
    by (simp add: expect_def quote_with_def parse_chars_quoted)
  show ?case
  proof (cases ms)
    case Nil
    let ?q = "w' @ CHR 125 # r"
    have "number_end ?q" by (rule number_end_ws [OF assms(2)]) simp
    from v [OF this] one [of ?q] show ?thesis
      using g Nil m assms(2) by (simp add: expect_append expect_other)
  next
    case (Cons u us)
    let ?texts = "map (\<lambda>(k, v). quote_with esc k @ '':'' @ b @ P v) ms"
    let ?rest = "join_str ('','' @ w) ?texts @ w' @ CHR 125 # r"
    let ?q = "CHR '','' # w @ ?rest"
    have "parse_members rd g (w @ ?rest) = Some (ms, r)"
      using Cons Cons.IH [of g] Cons.prems g assms(1) by (simp add: parse_members_ws)
    moreover have "number_end ?q" by (simp add: number_end_def)
    moreover have "join_str ('','' @ w) (?one # ?texts) = ?one @ CHR '','' # w @ join_str ('','' @ w) ?texts"
      using Cons by simp
    ultimately show ?thesis
      using g v one [of ?q] m by (simp add: prepend_def del: join_str.simps)
  qed
qed simp

lemma printed_head:
  assumes "json_ok j"
  obtains c t where "print_with esc gap i j = c # t" "value_head c"
proof -
  have "print_with esc gap i j \<noteq> [] \<and> value_head (hd (print_with esc gap i j))"
  proof (cases j)
    case (JNum v)
    then have "json_number (number_str v)" using assms number_str_json by simp
    then have "number_str v \<noteq> [] \<and> (hd (number_str v) = CHR ''-'' \<or> is_digit (hd (number_str v)))"
      by (cases "number_str v") (auto simp: json_number_def unsigned_ok_def split: if_splits)
    with JNum assms show ?thesis by (auto simp: value_head_def json_space_def is_digit_def)
  qed (auto simp: value_head_def json_space_def quote_with_def)
  then show thesis using that by (cases "print_with esc gap i j") auto
qed

lemma printed_atoms:
  assumes "json_ok j" "reads_back rd j" and "\<forall>vs. j \<noteq> JArr vs" "\<forall>ms. j \<noteq> JObj ms"
  shows "reads rd (print_with esc gap i j) j"
proof (unfold reads_def, intro allI impI)
  fix f r assume "json_size j \<le> f" and r: "number_end r"
  then obtain g where f: "f = Suc g" using assms(3,4) by (cases f; cases j) auto
  show "parse_value rd f (print_with esc gap i j @ r) = Some (j, r)"
  proof (cases j)
    case (JNum v)
    with assms r show ?thesis
      using number_str_json [of v]
      by (simp add: f parse_value_number parse_number_str reads_back_def del: parse_value.simps)
  next
    case (JStr t)
    then show ?thesis by (simp add: f quote_with_def parse_chars_quoted)
  qed (use assms f in \<open>auto simp: parse_literal_def starts_with_def json_space_def\<close>)
qed

lemma printed_array:
  assumes gap: "list_all json_space gap" "list_all json_space i"
    and ok: "list_all json_ok vs" and read: "\<forall>v \<in> set vs. reads rd (print_with esc gap (i @ gap) v) v"
  shows "reads rd (print_with esc gap i (JArr vs)) (JArr vs)"
proof (unfold reads_def, intro allI impI)
  fix f r assume "json_size (JArr vs) \<le> f" and "number_end r"
  then obtain g where f: "f = Suc g" "sum_list (map (Suc \<circ> json_size) vs) \<le> g" by (cases f) auto
  let ?i = "i @ gap"
  have w: "list_all json_space (newline gap ?i)" "list_all json_space (newline gap i)"
    using gap by (simp_all add: newline_space)
  show "parse_value rd f (print_with esc gap i (JArr vs) @ r) = Some (JArr vs, r)"
  proof (cases vs)
    case Nil
    then show ?thesis by (simp add: f)
  next
    case (Cons v us)
    let ?text = "join_str ('','' @ newline gap ?i) (map (print_with esc gap ?i) vs) @ newline gap i @ CHR '']'' # r"
    have "parse_elements rd g ?text = Some (vs, r)"
      using Cons f w read by (intro parse_elements_printed) auto
    moreover obtain c t where "?text = c # t" "value_head c"
    proof -
      have "json_ok v" using Cons ok by simp
      then obtain c t where "print_with esc gap ?i v = c # t" "value_head c" by (rule printed_head)
      with Cons join_str_head [of "'','' @ newline gap ?i" c t "map (print_with esc gap ?i) us"]
      show thesis by (auto intro: that)
    qed
    ultimately show ?thesis
      using Cons w
      by (simp add: f parse_elements_ws expect_ws value_head_def del: join_str.simps map_eq_conv)
  qed
qed

lemma printed_object:
  assumes gap: "list_all json_space gap" "list_all json_space i"
    and ok: "obj_of ms = ms" and read: "\<forall>(k, v) \<in> set ms. reads rd (print_with esc gap (i @ gap) v) v"
  shows "reads rd (print_with esc gap i (JObj ms)) (JObj ms)"
proof (unfold reads_def, intro allI impI)
  fix f r assume "json_size (JObj ms) \<le> f" and "number_end r"
  then obtain g where f: "f = Suc g" "sum_list (map (\<lambda>(k, v). Suc (json_size v)) ms) \<le> g"
    by (cases f) auto
  let ?i = "i @ gap" and ?b = "if gap = [] then [] else '' ''"
  have w: "list_all json_space (newline gap ?i)" "list_all json_space (newline gap i)"
    "list_all json_space ?b"
    using gap by (simp_all add: newline_space)
  show "parse_value rd f (print_with esc gap i (JObj ms) @ r) = Some (JObj ms, r)"
  proof (cases ms)
    case Nil
    then show ?thesis by (simp add: f)
  next
    case (Cons m us)
    let ?one = "\<lambda>(k, v). quote_with esc k @ '':'' @ ?b @ print_with esc gap ?i v"
    let ?text = "join_str ('','' @ newline gap ?i) (map ?one ms) @ newline gap i @ CHR 125 # r"
    have "parse_members rd g ?text = Some (ms, r)"
      using Cons f w read by (intro parse_members_printed) auto
    moreover obtain t where "?text = CHR 34 # t"
    proof -
      obtain k v where m: "m = (k, v)" by fastforce
      then obtain t where "?one m = CHR 34 # t" by (simp add: quote_with_def)
      with Cons join_str_head [of "'','' @ newline gap ?i" "CHR 34" t "map ?one us"]
      show thesis by (auto intro: that simp del: join_str.simps)
    qed
    ultimately show ?thesis
      using Cons w ok
      by (simp add: f parse_members_ws expect_ws del: join_str.simps map_eq_conv)
  qed
qed

lemma printed_reads:
  assumes gap: "list_all json_space gap"
  shows "list_all json_space i \<Longrightarrow> json_ok j \<Longrightarrow> reads_back rd j \<Longrightarrow> reads rd (print_with esc gap i j) j"
proof (induction j arbitrary: i)
  case (JArr vs)
  show ?case
  proof (rule printed_array [OF gap], goal_cases)
    case 3
    show ?case
      by (intro ballI JArr.IH) (use JArr.prems gap in \<open>auto simp: list_all_iff reads_back_def\<close>)
  qed (use JArr.prems in simp_all)
next
  case (JObj ms)
  show ?case
  proof (rule printed_object [OF gap], goal_cases)
    case 3
    show ?case
      by (auto intro!: JObj.IH) (use JObj.prems gap in \<open>auto simp: list_all_iff reads_back_def\<close>)
  qed (use JObj.prems in simp_all)
qed (rule printed_atoms; simp)+

lemma roundtrip:
  assumes "json_ok j" "reads_back rd j" and gap: "list_all json_space gap"
  shows "json_parse rd (print_with esc gap [] j) = Some j"
proof -
  let ?t = "print_with esc gap [] j"
  have "reads rd ?t j" using printed_reads [OF gap _ assms(1,2)] by simp
  then have "parse_value rd (json_size j + (2 * length ?t + 1)) (?t @ []) = Some (j, [])"
    unfolding reads_def by (rule allE [where x = "json_size j + (2 * length ?t + 1)"])
      (simp add: number_end_def del: parse_value.simps)
  moreover have "parse_value rd (json_size j + (2 * length ?t + 1)) ?t = parse_value rd (2 * length ?t + 1) ?t"
    by (rule parse_fuel) simp
  ultimately have "parse_value rd (2 * length ?t + 1) ?t = Some (j, [])" by simp
  then show ?thesis unfolding json_parse_def by (simp only:) simp
qed

end

interpretation plain: json_escape escape_char
  by unfold_locales (rule parse_chars_escape)

text \<open>
  What the program prints as JSON it reads back: for a value with finite numbers, distinct
  keys in the order of \<open>Object.entries\<close> and texts of its numbers that read as those numbers,
  \<open>JSON.parse\<close> of \<open>JSON.stringify\<close>, compact or indented by two, is the value itself.
\<close>
lemma json_roundtrip:
  assumes "json_ok j" and "reads_back rd j"
  shows "json_parse rd (stringify j) = Some j \<and> json_parse rd (stringify2 j) = Some j"
  using plain.roundtrip [OF assms, of "[]"] plain.roundtrip [OF assms, of "''  ''"]
  by (simp add: print_with_escape stringify2_def stringify_in_compact)

definition sample_json :: json where
  "sample_json = JObj [(''nom'', JStr [CHR ''a'', CHR 34, CHR 10]),
     (''lots'', JArr [JNum (Dec False 12 2), JNull, JBool True]), (''vide'', JObj [])]"

lemma json_roundtrip_sample:
  "json_parse (\<lambda>s. Dec False 12 2) (stringify sample_json) = Some sample_json \<and>
   json_parse (\<lambda>s. Dec False 12 2) (stringify2 sample_json) = Some sample_json"
proof (rule json_roundtrip)
  show "json_ok sample_json"
    by (simp add: sample_json_def obj_of_def own_order_def is_index_def is_digit_def)
  show "reads_back (\<lambda>s. Dec False 12 2) sample_json"
    by (simp add: sample_json_def reads_back_def)
qed

end
