(* ===== verification/Js_Values.thy ===== *)
theory Js_Values
  imports Json_Parse
begin

text \<open>
  The conversions of the language on values whose type is not known: \<open>String(value)\<close>, \<open>===\<close>, \<open><\<close>,
  truthiness, the reading of a property and the laws of objects. A value is a JSON value, or \<open>None\<close> for \<open>undefined\<close>;
  what reads a property of \<open>undefined\<close> or \<open>null\<close> raises, which makes the result \<open>None\<close>.
\<close>

subsection \<open>Conversions\<close>

fun str_of :: "json \<Rightarrow> string" where
  "str_of JNull = ''null''"
| "str_of (JBool b) = (if b then ''true'' else ''false'')"
| "str_of (JNum v) = number_str v"
| "str_of (JStr s) = s"
| "str_of (JArr vs) = join_str '','' (map (\<lambda>v. if v = JNull then [] else str_of v) vs)"
| "str_of (JObj ms) = ''[object Object]''"

definition js_string :: "json option \<Rightarrow> string" where
  "js_string v = (case v of None \<Rightarrow> ''undefined'' | Some j \<Rightarrow> str_of j)"

fun strict_equal :: "json option \<Rightarrow> json option \<Rightarrow> bool" where
  "strict_equal None None = True"
| "strict_equal (Some JNull) (Some JNull) = True"
| "strict_equal (Some (JBool a)) (Some (JBool b)) = (a = b)"
| "strict_equal (Some (JStr a)) (Some (JStr b)) = (a = b)"
| "strict_equal (Some (JNum a)) (Some (JNum b)) = (a = b \<and> a \<noteq> NaN)"
| "strict_equal _ _ = False"

fun to_number :: "(string \<Rightarrow> js_number) \<Rightarrow> json option \<Rightarrow> js_number" where
  "to_number rd None = NaN"
| "to_number rd (Some JNull) = Zero"
| "to_number rd (Some (JBool b)) = (if b then Dec False 1 1 else Zero)"
| "to_number rd (Some (JNum v)) = v"
| "to_number rd (Some (JStr s)) = rd s"
| "to_number rd (Some j) = rd (str_of j)"

fun number_less :: "js_number \<Rightarrow> js_number \<Rightarrow> bool" where
  "number_less NaN _ = False"
| "number_less _ NaN = False"
| "number_less (Infinite neg) y = (neg \<and> y \<noteq> Infinite True)"
| "number_less x (Infinite neg) = (\<not> neg)"
| "number_less x y = (number_val x < number_val y)"

text \<open>The text a value is compared by, when both sides have one.\<close>

fun as_text :: "json option \<Rightarrow> string option" where
  "as_text (Some (JStr s)) = Some s"
| "as_text (Some (JArr vs)) = Some (str_of (JArr vs))"
| "as_text (Some (JObj ms)) = Some (str_of (JObj ms))"
| "as_text _ = None"

definition value_less :: "(string \<Rightarrow> js_number) \<Rightarrow> json option \<Rightarrow> json option \<Rightarrow> bool" where
  "value_less rd a b =
     (case (as_text a, as_text b) of
        (Some s, Some t) \<Rightarrow> s < t
      | _ \<Rightarrow> number_less (to_number rd a) (to_number rd b))"

fun truthy :: "json option \<Rightarrow> bool" where
  "truthy None = False"
| "truthy (Some JNull) = False"
| "truthy (Some (JBool b)) = b"
| "truthy (Some (JNum v)) = (v \<noteq> NaN \<and> v \<noteq> Zero)"
| "truthy (Some (JStr s)) = (s \<noteq> [])"
| "truthy (Some _) = True"

subsection \<open>Properties\<close>

function strip_zeros :: "nat \<Rightarrow> nat" where
  "strip_zeros n = (if 0 < n \<and> n mod 10 = 0 then strip_zeros (n div 10) else n)"
  by pat_completeness auto
termination by (relation "measure id") auto

declare strip_zeros.simps [simp del]

definition nat_number :: "nat \<Rightarrow> js_number" where
  "nat_number n = (if n = 0 then Zero else Dec False (strip_zeros n) (int (length (nat_str n))))"

definition item :: "string \<Rightarrow> 'a list \<Rightarrow> 'a option" where
  "item k xs = (if is_index k \<and> digits_value 0 k < length xs then Some (xs ! digits_value 0 k) else None)"

text \<open>\<open>value[name]\<close>; the properties that values inherit from their prototypes name no column.\<close>

fun property :: "string \<Rightarrow> json \<Rightarrow> json option option" where
  "property k JNull = None"
| "property k (JObj ms) = Some (map_of ms k)"
| "property k (JArr vs) =
     Some (if k = ''length'' then Some (JNum (nat_number (length vs))) else item k vs)"
| "property k (JStr s) =
     Some (if k = ''length'' then Some (JNum (nat_number (length s)))
           else map_option (\<lambda>c. JStr [c]) (item k s))"
| "property k _ = Some None"

text \<open>\<open>value?.name\<close>.\<close>

definition member_of :: "string \<Rightarrow> json option \<Rightarrow> json option" where
  "member_of k v = nullish (Option.bind v (property k)) None"

lemma member_of_simps:
  "member_of k None = None"
  "member_of k (Some JNull) = None"
  "member_of k (Some (JObj ms)) = map_of ms k"
  by (simp_all add: member_of_def nullish_def)

subsection \<open>Objects\<close>

lemma own_order_set: "set (own_order m) = set m"
  by (auto simp: own_order_def)

lemma own_order_mset: "mset (own_order m) = mset m"
  by (simp add: own_order_def comp_def mset_filter)

lemma own_order_keys: "distinct (map fst (own_order m)) = distinct (map fst m)"
  by (metis own_order_mset mset_map mset_eq_imp_distinct_iff)

lemma own_order_idem: "own_order (own_order m) = own_order m"
proof -
  have 1: "filter (\<lambda>x. is_index (fst x)) (sort_key f (filter (\<lambda>x. is_index (fst x)) m)) = sort_key f (filter (\<lambda>x. is_index (fst x)) m)"
    for f :: "string \<times> 'a \<Rightarrow> nat" by (simp add: filter_sort)
  have 2: "filter (\<lambda>x. \<not> is_index (fst x)) (sort_key f (filter (\<lambda>x. is_index (fst x)) m)) = []"
    for f :: "string \<times> 'a \<Rightarrow> nat" by (auto simp: filter_empty_conv)
  have 3: "filter (\<lambda>x. is_index (fst x)) (filter (\<lambda>x. \<not> is_index (fst x)) m) = []"
    by (auto simp: filter_empty_conv)
  show ?thesis by (simp add: own_order_def 1 2 3 comp_def sort_key_id_if_sorted)
qed

lemma map_of_own_order: "distinct (map fst m) \<Longrightarrow> map_of (own_order m) = map_of m"
  by (simp add: map_of_inject_set own_order_keys own_order_set)

lemma omap_set_new: "k \<notin> fst ` set m \<Longrightarrow> omap_set k v m = m @ [(k, v)]"
  by (induction k v m rule: omap_set.induct) auto

lemma fold_omap_distinct:
  "distinct (map fst (m @ ms)) \<Longrightarrow> fold (\<lambda>(k, v). omap_set k v) ms m = m @ ms"
proof (induction ms arbitrary: m)
  case (Cons x ms)
  then show ?case by (cases x) (simp add: omap_set_new)
qed simp

lemma obj_of_distinct: "distinct (map fst m) \<Longrightarrow> obj_of m = own_order m"
  using fold_omap_distinct [of "[]" m] by (simp add: obj_of_def)

lemma obj_of_id:
  assumes "distinct (map fst m)" and "\<And>k. k \<in> fst ` set m \<Longrightarrow> \<not> is_index k"
  shows "obj_of m = m"
proof -
  have "filter (\<lambda>x. is_index (fst x)) m = []" "filter (\<lambda>x. \<not> is_index (fst x)) m = m"
    using assms(2) by (auto simp: filter_empty_conv filter_id_conv)
  then show ?thesis by (simp add: obj_of_distinct [OF assms(1)] own_order_def)
qed

lemma obj_of_keys: "distinct (map fst (obj_of m))"
proof -
  have "distinct (map fst a) \<Longrightarrow> distinct (map fst (fold (\<lambda>(k, v). omap_set k v) m a))"
    for a :: "(string \<times> 'a) list"
    by (induction m arbitrary: a) (auto simp: distinct_omap_set)
  then show ?thesis by (simp add: obj_of_def own_order_keys)
qed

lemma obj_ofD: "obj_of m = m \<Longrightarrow> distinct (map fst m) \<and> own_order m = m"
  by (metis obj_of_keys obj_of_distinct)

lemma obj_set_facts:
  assumes "distinct (map fst m)"
  shows "map_of (obj_set k v m) = (map_of m)(k \<mapsto> v)" and "distinct (map fst (obj_set k v m))"
    and "own_order (obj_set k v m) = obj_set k v m"
    and "fst ` set (obj_set k v m) = insert k (fst ` set m)"
  using distinct_omap_set [OF assms]
  by (simp_all add: obj_set_def map_of_own_order own_order_keys own_order_idem own_order_set keys_omap_set)

end
