(* ===== verification/Template_Data.thy ===== *)
theory Template_Data
  imports Js_Values
begin

text \<open>
  \<open>shared/components/template-data-editor\<close>: the validator of the values of a template and the
  editor that shows them as rows or as raw JSON. The sets of pending and suggested rows are flags
  of the rows; the focus of the inputs is not modelled. \<open>rd\<close> is \<open>Number\<close> on a text.
\<close>

subsection \<open>The validator\<close>

datatype template_error = InvalidJson | NotAnObject | MissingField string

text \<open>A field of a template: its name and whether its value is no scalar.\<close>

type_synonym template_field = "string option \<times> bool option"

definition validateTemplateValues ::
  "(string \<Rightarrow> js_number) \<Rightarrow> string \<Rightarrow> template_field list option \<Rightarrow> template_error option" where
  "validateTemplateValues rd value fs =
     (case json_parse rd value of
        None \<Rightarrow> Some InvalidJson
      | Some (JObj data) \<Rightarrow>
          (case List.find (\<lambda>f. truthy_str (fst f) \<and> nullish (fst f) [] \<notin> fst ` set data)
                  (nullish fs []) of
             None \<Rightarrow> None
           | Some f \<Rightarrow> Some (MissingField (nullish (fst f) [])))
      | Some _ \<Rightarrow> Some NotAnObject)"

subsection \<open>The editor\<close>

record field_row =
  fr_name :: string
  fr_type :: string
  fr_value :: string
  fr_pending :: bool
  fr_suggested :: bool

datatype editor_error =
    NotJson
  | NotObject
  | Rejected template_error
  | NoName
  | Duplicate string
  | NoJsonValue string
  | NoBoolean string
  | NoNumber string
  | NoType string
  | ToFill string

datatype editor_notice = NeedsAdvanced | IncompleteValue

datatype editor_effect = Change string | ValidatorChanged | Touched

record template_editor =
  te_suggested :: "template_field list option"
  te_preserveRoots :: "string list"
  te_preserved :: "(string \<times> json) list"
  te_fields :: "field_row list"
  te_missingOnly :: bool
  te_advanced :: bool
  te_disabled :: bool
  te_raw :: string
  te_error :: "editor_error option"
  te_notice :: "editor_notice option"

definition new_editor :: template_editor where
  "new_editor =
     \<lparr>te_suggested = None, te_preserveRoots = [], te_preserved = [], te_fields = [],
      te_missingOnly = False, te_advanced = False, te_disabled = False, te_raw = [CHR 123, CHR 125],
      te_error = None, te_notice = None\<rparr>"

definition isSuggested :: "template_editor \<Rightarrow> string \<Rightarrow> bool" where
  "isSuggested s name \<longleftrightarrow> list_ex (\<lambda>f. fst f = Some name) (nullish (te_suggested s) [])"

text \<open>\<open>upper\<close> is \<open>toLocaleUpperCase('fr')\<close> on one character.\<close>

definition labelFor :: "(char \<Rightarrow> string) \<Rightarrow> string \<Rightarrow> string" where
  "labelFor upper name =
     (case map (\<lambda>c. if c = CHR ''_'' then CHR '' '' else c) name of
        [] \<Rightarrow> ''Valeur'' | c # cs \<Rightarrow> upper c @ cs)"

definition makeField :: "string \<Rightarrow> string \<Rightarrow> string \<Rightarrow> field_row" where
  "makeField name typ value =
     \<lparr>fr_name = name, fr_type = typ, fr_value = value, fr_pending = False, fr_suggested = False\<rparr>"

text \<open>The first row with the name is the suggested one; without any a pending row is added.\<close>

fun suggest :: "string \<Rightarrow> field_row list \<Rightarrow> field_row list option" where
  "suggest name [] = None"
| "suggest name (r # rs) =
     (if fr_name r = name then Some (r\<lparr>fr_suggested := True\<rparr> # rs)
      else map_option ((#) r) (suggest name rs))"

fun ensure :: "template_field list \<Rightarrow> field_row list \<Rightarrow> field_row list" where
  "ensure [] rows = rows"
| "ensure ((n, complex) # fs) rows =
     (if \<not> truthy_str n then ensure fs rows
      else (case suggest (nullish n []) rows of
          Some rows' \<Rightarrow> ensure fs rows'
        | None \<Rightarrow> ensure fs (rows @ [(makeField (nullish n [])
             (if truthy_bool complex then ''json'' else ''text'') [])
               \<lparr>fr_pending := True, fr_suggested := True\<rparr>])))"

definition ensureSuggestions :: "template_editor \<Rightarrow> template_editor" where
  "ensureSuggestions s =
     s\<lparr>te_fields := ensure (nullish (te_suggested s) [])
         (map (\<lambda>r. r\<lparr>fr_suggested := False\<rparr>) (te_fields s))\<rparr>"

definition checkMissing :: "template_editor \<Rightarrow> template_editor" where
  "checkMissing s =
     (case List.find (\<lambda>r. fr_suggested r \<and> fr_pending r) (te_fields s) of
        Some r \<Rightarrow> if te_error s = None \<or> te_missingOnly s
          then s\<lparr>te_error := Some (ToFill (fr_name r)), te_missingOnly := True\<rparr> else s
      | None \<Rightarrow> if te_missingOnly s then s\<lparr>te_error := None, te_missingOnly := False\<rparr> else s)"

text \<open>\<open>parse\<close> also sets the error.\<close>

definition editor_parse ::
  "(string \<Rightarrow> js_number) \<Rightarrow> template_editor \<Rightarrow> template_editor \<times> (string \<times> json) list option" where
  "editor_parse rd s =
     (let s = s\<lparr>te_missingOnly := False\<rparr> in
      case json_parse rd (te_raw s) of
        None \<Rightarrow> (s\<lparr>te_error := Some NotJson\<rparr>, None)
      | Some (JObj data) \<Rightarrow> (s\<lparr>te_error := None\<rparr>, Some data)
      | Some _ \<Rightarrow> (s\<lparr>te_error := Some NotObject\<rparr>, None))"

fun scalar :: "json \<Rightarrow> bool" where
  "scalar (JArr _) = False" | "scalar (JObj _) = False" | "scalar _ = True"

fun row_of :: "string \<times> json \<Rightarrow> field_row" where
  "row_of (n, JNull) = makeField n ''null'' []"
| "row_of (n, JStr t) = makeField n ''text'' t"
| "row_of (n, JBool b) = makeField n ''boolean'' (if b then ''true'' else ''false'')"
| "row_of (n, JNum v) = makeField n ''number'' (number_str v)"
| "row_of (n, JArr vs) = makeField n ''json'' (stringify2 (JArr vs))"
| "row_of (n, JObj ms) = makeField n ''json'' (stringify2 (JObj ms))"

definition loadable :: "template_editor \<Rightarrow> (string \<times> json) list \<Rightarrow> bool" where
  "loadable s data \<longleftrightarrow>
     \<not> list_ex (\<lambda>(n, v). n \<notin> set (te_preserveRoots s) \<and>
         (js_trim n = [] \<or> n \<noteq> js_trim n \<or> \<not> scalar v \<and> \<not> isSuggested s n)) data"

definition loadFields :: "(string \<times> json) list \<Rightarrow> template_editor \<Rightarrow> template_editor \<times> bool" where
  "loadFields data s =
     (if \<not> loadable s data then (s, False)
      else (ensureSuggestions
              (s\<lparr>te_preserved := obj_of (filter (\<lambda>(n, v). n \<in> set (te_preserveRoots s)) data),
                 te_fields := map row_of (filter (\<lambda>(n, v). n \<notin> set (te_preserveRoots s)) data)\<rparr>), True))"

definition rejected :: "(string \<Rightarrow> js_number) \<Rightarrow> template_editor \<Rightarrow> editor_error option" where
  "rejected rd s = map_option Rejected (validateTemplateValues rd (te_raw s) (te_suggested s))"

definition writeValue :: "(string \<Rightarrow> js_number) \<Rightarrow> string option \<Rightarrow> template_editor \<Rightarrow> template_editor" where
  "writeValue rd value s =
     (case editor_parse rd (s\<lparr>te_raw := nullish value [CHR 123, CHR 125]\<rparr>) of
        (s, None) \<Rightarrow> s\<lparr>te_advanced := True\<rparr>
      | (s, Some data) \<Rightarrow>
          (case loadFields data s of
             (s, True) \<Rightarrow> checkMissing (s\<lparr>te_advanced := False\<rparr>)
           | (s, False) \<Rightarrow> s\<lparr>te_advanced := True, te_error := rejected rd s\<rparr>))"

definition editor_validate :: "(string \<Rightarrow> js_number) \<Rightarrow> template_editor \<Rightarrow> editor_error option" where
  "editor_validate rd s = (if te_error s \<noteq> None then te_error s else rejected rd s)"

subsection \<open>From the rows to the text\<close>

definition number_text :: "string \<Rightarrow> bool" where
  "number_text s =
     (let u = (case s of [] \<Rightarrow> s | c # r \<Rightarrow> if c \<in> {CHR ''+'', CHR ''-''} then r else s);
          whole = takeWhile is_digit u; rest = dropWhile is_digit u
      in (case rest of
            [] \<Rightarrow> whole \<noteq> []
          | c # r \<Rightarrow>
              if c = CHR ''.''
              then (whole \<noteq> [] \<or> takeWhile is_digit r \<noteq> []) \<and> exponent_ok (dropWhile is_digit r)
              else whole \<noteq> [] \<and> exponent_ok rest))"

text \<open>\<open>text.replace(',', '.')\<close>: the first comma.\<close>

fun comma_point :: "string \<Rightarrow> string" where
  "comma_point [] = []"
| "comma_point (c # cs) = (if c = CHR '','' then CHR ''.'' # cs else c # comma_point cs)"

definition row_value ::
  "(string \<Rightarrow> js_number) \<Rightarrow> string \<Rightarrow> string \<Rightarrow> string \<Rightarrow> editor_error + json" where
  "row_value rd name typ text =
     (if typ = ''json'' then
        (case json_parse rd text of None \<Rightarrow> Inl (NoJsonValue name) | Some v \<Rightarrow> Inr v)
      else if typ = ''text'' then Inr (JStr text)
      else if typ = ''null'' then Inr JNull
      else if typ = ''boolean'' then
        (if text \<noteq> ''true'' \<and> text \<noteq> ''false'' then Inl (NoBoolean name) else Inr (JBool (text = ''true'')))
      else if typ = ''number'' then
        (let normalized = comma_point (js_trim text) in
         if \<not> number_text normalized \<or> \<not> is_finite (rd normalized) then Inl (NoNumber name)
         else Inr (JNum (rd normalized)))
      else Inl (NoType name))"

fun emit_rows ::
  "(string \<Rightarrow> js_number) \<Rightarrow> field_row list \<Rightarrow> string list \<Rightarrow> (string \<times> json) list
     \<Rightarrow> editor_error + (string \<times> json) list" where
  "emit_rows rd [] names data = Inr data"
| "emit_rows rd (r # rs) names data =
     (let name = js_trim (fr_name r) in
      if name = [] then Inl NoName
      else if name \<in> set names then Inl (Duplicate name)
      else if fr_pending r then emit_rows rd rs (name # names) data
      else (case row_value rd name (fr_type r) (fr_value r) of
          Inl e \<Rightarrow> Inl e
        | Inr v \<Rightarrow> emit_rows rd rs (name # names) (obj_set name v data)))"

definition emitFields ::
  "(string \<Rightarrow> js_number) \<Rightarrow> template_editor \<Rightarrow> template_editor \<times> editor_effect list" where
  "emitFields rd s =
     (let s = s\<lparr>te_error := None, te_missingOnly := False, te_notice := None\<rparr>;
          s = (case emit_rows rd (te_fields s) (map fst (te_preserved s)) (te_preserved s) of
                 Inl e \<Rightarrow> s\<lparr>te_error := Some e\<rparr>
               | Inr data \<Rightarrow> s\<lparr>te_raw := stringify2 (JObj data)\<rparr>);
          s = checkMissing s
      in (s, [Change (te_raw s), ValidatorChanged]))"

subsection \<open>Events\<close>

definition te_changes :: "template_editor \<Rightarrow> template_editor \<times> editor_effect list" where
  "te_changes s =
     (if te_advanced s then (s, []) else (checkMissing (ensureSuggestions s), [ValidatorChanged]))"

text \<open>An edit of a row's controls: the row is no longer pending.\<close>

definition edit_row ::
  "(string \<Rightarrow> js_number) \<Rightarrow> nat \<Rightarrow> string \<Rightarrow> string \<Rightarrow> string \<Rightarrow> template_editor
     \<Rightarrow> template_editor \<times> editor_effect list" where
  "edit_row rd i name typ value s =
     (if te_disabled s \<or> length (te_fields s) \<le> i then (s, [])
      else emitFields rd (s\<lparr>te_fields := (te_fields s)[i := (te_fields s ! i)
        \<lparr>fr_name := name, fr_type := typ, fr_value := value, fr_pending := False\<rparr>]\<rparr>))"

definition addField ::
  "(string \<Rightarrow> js_number) \<Rightarrow> template_editor \<Rightarrow> template_editor \<times> editor_effect list" where
  "addField rd s =
     (if te_disabled s \<or> te_advanced s then (s, [])
      else (let (s, out) = emitFields rd (s\<lparr>te_fields := te_fields s @ [makeField [] ''text'' []]\<rparr>)
            in (s, out @ [Touched])))"

definition removeField ::
  "(string \<Rightarrow> js_number) \<Rightarrow> int \<Rightarrow> template_editor \<Rightarrow> template_editor \<times> editor_effect list" where
  "removeField rd i s =
     (if te_disabled s \<or> i < 0 \<or> int (length (te_fields s)) \<le> i \<or> fr_suggested (te_fields s ! nat i)
      then (s, [])
      else (let (s, out) = emitFields rd
                (s\<lparr>te_fields := take (nat i) (te_fields s) @ drop (Suc (nat i)) (te_fields s)\<rparr>)
            in (s, out @ [Touched])))"

definition toggleMode ::
  "(string \<Rightarrow> js_number) \<Rightarrow> template_editor \<Rightarrow> template_editor \<times> editor_effect list" where
  "toggleMode rd s =
     (if te_disabled s then (s, [])
      else (let s = s\<lparr>te_notice := None\<rparr> in
        if te_advanced s then
          (case editor_parse rd s of
             (s, None) \<Rightarrow> (s, [])
           | (s, Some data) \<Rightarrow>
               (case loadFields data s of
                  (s, False) \<Rightarrow> (s\<lparr>te_notice := Some NeedsAdvanced\<rparr>, [])
                | (s, True) \<Rightarrow> (checkMissing (s\<lparr>te_advanced := False\<rparr>), [Touched, ValidatorChanged])))
        else if te_error s \<noteq> None \<and> \<not> te_missingOnly s
        then (s\<lparr>te_notice := Some IncompleteValue\<rparr>, [Touched, ValidatorChanged])
        else (let e = rejected rd s in
              (s\<lparr>te_advanced := True, te_error := e, te_missingOnly := e \<noteq> None\<rparr>,
               [Touched, ValidatorChanged]))))"

definition updateRaw ::
  "(string \<Rightarrow> js_number) \<Rightarrow> string \<Rightarrow> template_editor \<Rightarrow> template_editor \<times> editor_effect list" where
  "updateRaw rd text s =
     (let s = fst (editor_parse rd (s\<lparr>te_raw := text\<rparr>));
          s = (if te_error s = None then s\<lparr>te_error := rejected rd s\<rparr> else s)
      in (s, [Change (te_raw s), ValidatorChanged]))"

definition setDisabledState :: "bool \<Rightarrow> template_editor \<Rightarrow> template_editor" where
  "setDisabledState disabled s = s\<lparr>te_disabled := disabled\<rparr>"

subsection \<open>From the text to the rows and back\<close>

lemma number_chars_trim:
  assumes "list_all number_char s"
  shows "js_trim s = s" and "comma_point s = s"
proof -
  have c: "\<not> is_space c \<and> c \<noteq> CHR '',''" if "number_char c" for c
    using that by (auto simp: number_char_def is_digit_def is_space_def)
  from assms show "comma_point s = s" by (induction s) (auto simp: c)
  have "dropWhile is_space t = t" if "list_all number_char t" for t using that by (cases t) (auto simp: c)
  with assms show "js_trim s = s" by (simp add: js_trim_def list_all_rev)
qed

lemma exponent_ok_head: "exponent_ok (c # r) \<Longrightarrow> c \<in> {CHR ''e'', CHR ''E''}"
  by (simp add: exponent_ok_def)

lemma unsigned_number_text:
  assumes "unsigned_ok u"
  shows "number_text u" and "number_text (CHR ''-'' # u)"
proof -
  obtain c r where u: "u = c # r" "is_digit c"
    using assms by (cases u) (auto simp: unsigned_ok_def split: if_splits)
  then have "c \<noteq> CHR ''+'' \<and> c \<noteq> CHR ''-''" by (auto simp: is_digit_def)
  with assms u show "number_text u" "number_text (CHR ''-'' # u)"
    by (auto simp: number_text_def unsigned_ok_def fraction_ok_def Let_def split: list.split)
qed

lemma json_number_text: "json_number s \<Longrightarrow> number_text s"
  by (cases s) (auto simp: json_number_def unsigned_number_text split: if_splits)

lemma row_value_row_of:
  assumes "json_ok v" and "reads_back rd v"
  shows "row_value rd n (fr_type (row_of (n, v))) (fr_value (row_of (n, v))) = Inr v"
proof (cases v)
  case (JNum x)
  then have "json_number (number_str x)" "list_all number_char (number_str x)" "rd (number_str x) = x"
    "is_finite x"
    using assms number_str_json [of x] by (auto simp: reads_back_def)
  with JNum show ?thesis
    by (simp add: row_value_def makeField_def number_chars_trim json_number_text)
qed (use assms json_roundtrip in \<open>auto simp: row_value_def makeField_def\<close>)

text \<open>A row that shows the value of a key.\<close>

definition shows_value :: "(string \<Rightarrow> js_number) \<Rightarrow> field_row \<Rightarrow> string \<times> json \<Rightarrow> bool" where
  "shows_value rd r x \<longleftrightarrow>
     fr_name r = fst x \<and> js_trim (fst x) = fst x \<and> fst x \<noteq> [] \<and> \<not> fr_pending r \<and>
     row_value rd (fst x) (fr_type r) (fr_value r) = Inr (snd x)"

lemma emit_rows_shown:
  assumes "list_all2 (shows_value rd) rows ms"
    and "distinct (map fst ms)" and "fst ` set ms \<inter> set names = {}"
  shows "emit_rows rd rows names data = Inr (fold (\<lambda>x. obj_set (fst x) (snd x)) ms data)"
  using assms
proof (induction rows arbitrary: ms names data)
  case (Cons r rows)
  then obtain x xs where ms: "ms = x # xs" "shows_value rd r x" "list_all2 (shows_value rd) rows xs"
    by (auto simp: list_all2_Cons1)
  then have "emit_rows rd rows (fst x # names) d = Inr (fold (\<lambda>x. obj_set (fst x) (snd x)) xs d)" for d
    using Cons.prems Cons.IH [of xs "fst x # names" d] by (auto simp: ms)
  with ms Cons.prems show ?case
    by (auto simp: shows_value_def case_prod_beta)
qed simp

lemma fold_obj_set:
  "distinct (map fst m) \<Longrightarrow> distinct (map fst ms) \<Longrightarrow>
   map_of (fold (\<lambda>x. obj_set (fst x) (snd x)) ms m) = map_of m ++ map_of ms \<and>
   distinct (map fst (fold (\<lambda>x. obj_set (fst x) (snd x)) ms m)) \<and>
   (own_order m = m \<longrightarrow>
      own_order (fold (\<lambda>x. obj_set (fst x) (snd x)) ms m) = fold (\<lambda>x. obj_set (fst x) (snd x)) ms m)"
proof (induction ms arbitrary: m)
  case (Cons x ms)
  note facts = obj_set_facts [OF Cons.prems(1), of "fst x" "snd x"]
  have "fst x \<notin> dom (map_of ms)" using Cons.prems by (simp add: dom_map_of_conv_image_fst)
  then have "map_of (obj_set (fst x) (snd x) m) ++ map_of ms = map_of m ++ map_of (x # ms)"
    unfolding facts(1) by (auto simp: map_add_def fun_eq_iff domIff split: option.split)
  with Cons.IH [OF facts(2)] facts(3) Cons.prems(2) show ?case by (simp del: map_of.simps)
qed simp

text \<open>What the form mode holds of an object after it was loaded.\<close>

lemma suggest_strip:
  "suggest n rows = Some rows' \<Longrightarrow> list_all2 (shows_value rd) rows ms \<Longrightarrow> list_all2 (shows_value rd) rows' ms"
proof (induction rows arbitrary: rows' ms)
  case (Cons r rows)
  then show ?case by (auto simp: list_all2_Cons1 shows_value_def split: if_splits)
qed simp

lemma suggest_found: "n \<in> fr_name ` set rows \<Longrightarrow> \<exists>rows'. suggest n rows = Some rows' \<and> map fr_name rows' = map fr_name rows"
  by (induction rows) auto

lemma ensure_shown:
  assumes "\<forall>f \<in> set fs. truthy_str (fst f) \<longrightarrow> nullish (fst f) [] \<in> fr_name ` set rows"
    and "list_all2 (shows_value rd) rows ms"
  shows "list_all2 (shows_value rd) (ensure fs rows) ms"
  using assms
proof (induction fs arbitrary: rows)
  case (Cons f fs)
  obtain n c where f: "f = (n, c)" by fastforce
  show ?case
  proof (cases "truthy_str n")
    case True
    then obtain rows' where r: "suggest (nullish n []) rows = Some rows'" "map fr_name rows' = map fr_name rows"
      using Cons.prems(1) suggest_found [of "nullish n []" rows] f by auto
    then have "fr_name ` set rows' = fr_name ` set rows" by (metis list.set_map)
    with Cons r True f show ?thesis by (simp add: suggest_strip [OF r(1)])
  qed (use Cons f in simp)
qed simp

lemma own_order_filter: "own_order (filter P m) = filter P (own_order m)"
proof -
  have "filter (\<lambda>x. is_index (fst x)) (filter P m) = filter P (filter (\<lambda>x. is_index (fst x)) m)"
    "filter (\<lambda>x. \<not> is_index (fst x)) (filter P m) = filter P (filter (\<lambda>x. \<not> is_index (fst x)) m)"
    by (simp_all add: conj_commute)
  then show ?thesis by (simp only: own_order_def filter_append filter_sort)
qed

lemma map_of_filter_key: "map_of (filter (\<lambda>(k, v). P k) m) k = (if P k then map_of m k else None)"
  by (induction m) auto

lemma map_of_list_update:
  "distinct (map fst m) \<Longrightarrow> i < length m \<Longrightarrow> map_of (m[i := (fst (m ! i), v)]) = (map_of m)(fst (m ! i) \<mapsto> v)"
proof (induction m arbitrary: i)
  case (Cons x m)
  show ?case
  proof (cases i)
    case (Suc j)
    with Cons.prems have "fst (m ! j) \<noteq> fst x" by (metis Suc_less_eq distinct.simps(2) image_eqI length_Cons list.set_map list.simps(9) nth_mem)
    with Suc Cons show ?thesis by (auto simp: fun_eq_iff)
  qed (simp add: fun_eq_iff)
qed simp

lemma distinct_filter_keys: "distinct (map fst m) \<Longrightarrow> distinct (map fst (filter P m))"
  by (induction m) auto

lemma checkMissing_shown:
  "list_all2 (shows_value rd) (te_fields s) ms \<Longrightarrow> \<not> te_missingOnly s \<Longrightarrow> checkMissing s = s"
  by (auto simp: checkMissing_def shows_value_def list_all2_conv_all_nth in_set_conv_nth
      split: option.split dest!: find_SomeD)

lemma writeValue_shown:
  assumes parsed: "json_parse rd text = Some (JObj ms)" and ok: "json_ok (JObj ms)" "reads_back rd (JObj ms)"
    and valid: "validateTemplateValues rd text (te_suggested s) = None"
    and roots: "\<forall>f \<in> set (nullish (te_suggested s) []). nullish (fst f) [] \<notin> set (te_preserveRoots s)"
    and fields: "\<not> te_advanced (writeValue rd (Some text) s)"
  shows "list_all2 (shows_value rd) (te_fields (writeValue rd (Some text) s))
      (filter (\<lambda>(n, v). n \<notin> set (te_preserveRoots s)) ms)"
    and "te_preserved (writeValue rd (Some text) s) = filter (\<lambda>(n, v). n \<in> set (te_preserveRoots s)) ms"
    and "te_disabled (writeValue rd (Some text) s) = te_disabled s"
proof -
  let ?ns = "filter (\<lambda>(n, v). n \<notin> set (te_preserveRoots s)) ms"
  let ?rows = "map row_of ?ns"
  let ?s = "s\<lparr>te_raw := text, te_missingOnly := False, te_error := None\<rparr>"
  have d: "distinct (map fst ms)" "own_order ms = ms" using obj_ofD [of ms] ok(1) by simp_all
  have load: "loadable ?s ms"
  proof (rule ccontr)
    assume "\<not> loadable ?s ms"
    with fields parsed show False by (simp add: writeValue_def editor_parse_def Let_def loadFields_def)
  qed
  have "shows_value rd (row_of x) x" if "x \<in> set ?ns" for x
  proof -
    obtain n v where x: "x = (n, v)" by fastforce
    with that load have "js_trim n = n" "n \<noteq> []" by (auto simp: loadable_def list_ex_iff)
    moreover have "json_ok v" "reads_back rd v"
      using that ok x by (auto simp: list_all_iff reads_back_def)
    moreover have "fr_name (row_of x) = n" "\<not> fr_pending (row_of x)"
      using x by (cases v; simp add: makeField_def)+
    ultimately show ?thesis using x by (simp add: shows_value_def row_value_row_of)
  qed
  then have rows: "list_all2 (shows_value rd) (map (\<lambda>r. r\<lparr>fr_suggested := False\<rparr>) ?rows) ?ns"
    by (simp add: list_all2_map1 list_all2_same shows_value_def)
  have "fr_name (row_of x) = fst x" for x :: "string \<times> json"
    by (cases x; cases "snd x") (auto simp: makeField_def)
  then have names: "fr_name ` set (map (\<lambda>r. r\<lparr>fr_suggested := False\<rparr>) ?rows) = fst ` set ?ns"
    by (auto simp: image_image)
  have "\<forall>f \<in> set (nullish (te_suggested s) []). truthy_str (fst f) \<longrightarrow> nullish (fst f) [] \<in> fst ` set ms"
    using valid parsed by (auto simp: validateTemplateValues_def find_None_iff split: option.splits)
  with roots have "\<forall>f \<in> set (nullish (te_suggested s) []). truthy_str (fst f) \<longrightarrow>
      nullish (fst f) [] \<in> fst ` set ?ns"
    by force
  then have e: "list_all2 (shows_value rd)
      (ensure (nullish (te_suggested s) []) (map (\<lambda>r. r\<lparr>fr_suggested := False\<rparr>) ?rows)) ?ns"
    using ensure_shown [OF _ rows] names by simp
  have o: "obj_of (filter (\<lambda>(n, v). n \<in> set (te_preserveRoots s)) ms) =
      filter (\<lambda>(n, v). n \<in> set (te_preserveRoots s)) ms"
    using d by (simp add: obj_of_distinct distinct_filter_keys own_order_filter)
  have w: "writeValue rd (Some text) s = (fst (loadFields ms ?s))\<lparr>te_advanced := False\<rparr>"
    using parsed load checkMissing_shown [of rd "(fst (loadFields ms ?s))\<lparr>te_advanced := False\<rparr>" ?ns] e
    by (simp add: writeValue_def editor_parse_def Let_def loadFields_def ensureSuggestions_def)
  show "list_all2 (shows_value rd) (te_fields (writeValue rd (Some text) s)) ?ns"
    "te_preserved (writeValue rd (Some text) s) = filter (\<lambda>(n, v). n \<in> set (te_preserveRoots s)) ms"
    "te_disabled (writeValue rd (Some text) s) = te_disabled s"
    using e o load by (simp_all add: w loadFields_def ensureSuggestions_def)
qed

text \<open>
  The object the editor emits after one row was changed: the kept members, then the rows. It differs
  from the object that was shown in that member alone.
\<close>

lemma edited_object:
  fixes ms i v and P :: "string \<Rightarrow> bool"
  defines "ns \<equiv> filter (\<lambda>(n, v). \<not> P n) ms" and "ps \<equiv> filter (\<lambda>(n, v). P n) ms"
  defines "ns' \<equiv> ns[i := (fst (ns ! i), v)]"
  defines "data \<equiv> fold (\<lambda>x. obj_set (fst x) (snd x)) ns' ps"
  assumes ms: "distinct (map fst ms)" "own_order ms = ms" and i: "i < length ns"
  shows "map_of data = (map_of ms)(fst (ns ! i) \<mapsto> v)" and "distinct (map fst data)"
    and "own_order data = data" and "distinct (map fst ns')"
    and "fst ` set ns' \<inter> set (map fst ps) = {}"
proof -
  have keys: "map fst ns' = map fst ns"
    using i by (simp add: ns'_def map_update list_update_same_conv)
  have dist: "distinct (map fst ns')" "distinct (map fst ps)"
    unfolding keys by (simp_all only: ns_def ps_def distinct_filter_keys ms(1))
  show "distinct (map fst ns')" by (rule dist(1))
  show "fst ` set ns' \<inter> set (map fst ps) = {}"
    using arg_cong [OF keys, of set] unfolding list.set_map by (auto simp: ns_def ps_def)
  have own: "own_order ps = ps" using ms(2) by (simp add: ps_def own_order_filter)
  have "map_of data = map_of ps ++ map_of ns'" and "distinct (map fst data)" "own_order data = data"
    using fold_obj_set [OF dist(2,1)] own by (simp_all add: data_def)
  moreover have "map_of ns' = (map_of ns)(fst (ns ! i) \<mapsto> v)"
    using map_of_list_update [OF _ i, of v] distinct_filter_keys [OF ms(1)]
    by (simp add: ns'_def ns_def)
  ultimately show "map_of data = (map_of ms)(fst (ns ! i) \<mapsto> v)" "distinct (map fst data)"
      "own_order data = data"
    by (auto simp: fun_eq_iff map_add_def map_of_filter_key ns_def ps_def split: option.split)
qed

lemma edited_ok:
  assumes "map_of data = (map_of ms)(n \<mapsto> v)" and "distinct (map fst data)" "own_order data = data"
    and "json_ok (JObj ms)" "reads_back rd (JObj ms)" and "json_ok v" "reads_back rd v"
  shows "json_ok (JObj data)" and "reads_back rd (JObj data)"
proof -
  have "json_ok u \<and> reads_back rd u" if "(k, u) \<in> set data" for k u
  proof -
    have "map_of data k = Some u" using that assms(2) by simp
    then have "u = v \<or> (k, u) \<in> set ms" using assms(1) by (auto split: if_splits dest: map_of_SomeD)
    with assms(4-7) show ?thesis by (auto simp: list_all_iff reads_back_def)
  qed
  with assms(2,3) show "json_ok (JObj data)" "reads_back rd (JObj data)"
    by (auto simp: obj_of_distinct list_all_iff reads_back_def)
qed

text \<open>
  C35. Editing one value changes that value only: after the editor was given a text that holds a
  valid object and shows it as fields, giving the field of a name a text that reads as some value
  leaves no error, and the editor hands one text to the form, the one it holds from then on: a text
  that reads as the same object with that value, the values it keeps out of sight, nested ones and
  numbers included.
\<close>
theorem edit_changes_one_value:
  assumes parsed: "json_parse rd text = Some (JObj ms)"
    and ok: "json_ok (JObj ms)" "reads_back rd (JObj ms)"
    and valid: "validateTemplateValues rd text (te_suggested s) = None"
    and roots: "\<forall>f \<in> set (nullish (te_suggested s) []). nullish (fst f) [] \<notin> set (te_preserveRoots s)"
    and fields: "\<not> te_advanced (writeValue rd (Some text) s)" "\<not> te_disabled s"
    and i: "i < length (te_fields (writeValue rd (Some text) s))"
      "fr_name (te_fields (writeValue rd (Some text) s) ! i) = n"
    and v: "row_value rd n typ value = Inr v" "json_ok v" "reads_back rd v"
  shows "te_error (fst (edit_row rd i n typ value (writeValue rd (Some text) s))) = None \<and>
    (\<exists>text' ms'. snd (edit_row rd i n typ value (writeValue rd (Some text) s)) =
        [Change text', ValidatorChanged] \<and>
       te_raw (fst (edit_row rd i n typ value (writeValue rd (Some text) s))) = text' \<and>
       json_parse rd text' = Some (JObj ms') \<and> map_of ms' = (map_of ms)(n \<mapsto> v))"
proof -
  let ?w = "writeValue rd (Some text) s"
  let ?ns = "filter (\<lambda>(n, v). n \<notin> set (te_preserveRoots s)) ms"
  let ?ps = "filter (\<lambda>(n, v). n \<in> set (te_preserveRoots s)) ms"
  let ?rows = "(te_fields ?w)[i := (te_fields ?w ! i)
    \<lparr>fr_name := n, fr_type := typ, fr_value := value, fr_pending := False\<rparr>]"
  let ?ns' = "?ns[i := (n, v)]"
  note w = writeValue_shown [OF parsed ok valid roots fields(1)]
  have d: "distinct (map fst ms)" "own_order ms = ms" using obj_ofD [of ms] ok(1) by simp_all
  have l: "i < length ?ns" using i(1) w(1) by (simp add: list_all2_lengthD)
  have x: "shows_value rd (te_fields ?w ! i) (?ns ! i)" using w(1) i(1) by (rule list_all2_nthD)
  then have n: "fst (?ns ! i) = n" using i(2) by (simp add: shows_value_def)
  have shown: "list_all2 (shows_value rd) ?rows ?ns'"
    using w(1) by (rule list_all2_update_cong) (use x n v(1) in \<open>simp add: shows_value_def\<close>)
  define data where "data = fold (\<lambda>x. obj_set (fst x) (snd x)) ?ns' ?ps"
  note object = edited_object [OF d l, of v, unfolded n, folded data_def]
  have emit: "emit_rows rd ?rows (map fst ?ps) ?ps = Inr data"
    unfolding data_def by (rule emit_rows_shown [OF shown object(4,5)])
  note edited = edited_ok [OF object(1-3) ok v(2,3)]
  from json_roundtrip [OF edited] have "json_parse rd (stringify2 (JObj data)) = Some (JObj data)" by simp
  moreover have "edit_row rd i n typ value ?w = (?w\<lparr>te_fields := ?rows, te_error := None,
      te_missingOnly := False, te_notice := None, te_raw := stringify2 (JObj data)\<rparr>,
      [Change (stringify2 (JObj data)), ValidatorChanged])"
    using i fields(2) w(2,3) emit shown
      checkMissing_shown [of rd "?w\<lparr>te_fields := ?rows, te_error := None,
        te_missingOnly := False, te_notice := None, te_raw := stringify2 (JObj data)\<rparr>" ?ns']
    by (simp add: edit_row_def emitFields_def Let_def)
  ultimately show ?thesis using object(1) by auto
qed

definition two_values :: "(string \<times> json) list" where
  "two_values = [(''nom'', JStr ''Anne''), (''actif'', JBool True)]"

definition two_values_editor :: template_editor where
  "two_values_editor = writeValue (\<lambda>_. Zero) (Some (stringify (JObj two_values))) new_editor"

lemma two_values_ok: "json_ok (JObj two_values)" "reads_back (\<lambda>_. Zero) (JObj two_values)"
  by (simp_all add: two_values_def obj_of_def own_order_def is_index_def is_digit_def reads_back_def)

lemma two_values_parsed: "json_parse (\<lambda>_. Zero) (stringify (JObj two_values)) = Some (JObj two_values)"
  using json_roundtrip [OF two_values_ok] by blast

lemma two_values_fields:
  "\<not> te_advanced two_values_editor" "map fr_name (te_fields two_values_editor) = [''nom'', ''actif'']"
  using two_values_parsed
  by (simp_all add: two_values_editor_def writeValue_def editor_parse_def Let_def loadFields_def loadable_def
      new_editor_def two_values_def js_trim_def is_space_def ensureSuggestions_def checkMissing_def makeField_def)

theorem edit_changes_one_value_witness:
  "te_error (fst (edit_row (\<lambda>_. Zero) 0 ''nom'' ''text'' ''Lea'' two_values_editor)) = None \<and>
   (\<exists>text' ms'. snd (edit_row (\<lambda>_. Zero) 0 ''nom'' ''text'' ''Lea'' two_values_editor) =
        [Change text', ValidatorChanged] \<and>
      json_parse (\<lambda>_. Zero) text' = Some (JObj ms') \<and>
      map_of ms' ''nom'' = Some (JStr ''Lea'') \<and> map_of ms' ''actif'' = Some (JBool True))"
proof -
  have f: "length (te_fields two_values_editor) = 2" "fr_name (te_fields two_values_editor ! 0) = ''nom''"
    using two_values_fields(2) by (auto simp: map_eq_Cons_conv)
  have e: "two_values_editor = writeValue (\<lambda>_. Zero) (Some (stringify (JObj two_values))) new_editor"
    by (rule two_values_editor_def)
  have n: "te_suggested new_editor = None" "\<not> te_disabled new_editor" by (simp_all add: new_editor_def)
  have "te_error (fst (edit_row (\<lambda>_. Zero) 0 ''nom'' ''text'' ''Lea'' two_values_editor)) = None \<and>
   (\<exists>text' ms'. snd (edit_row (\<lambda>_. Zero) 0 ''nom'' ''text'' ''Lea'' two_values_editor) =
        [Change text', ValidatorChanged] \<and>
      te_raw (fst (edit_row (\<lambda>_. Zero) 0 ''nom'' ''text'' ''Lea'' two_values_editor)) = text' \<and>
      json_parse (\<lambda>_. Zero) text' = Some (JObj ms') \<and>
      map_of ms' = (map_of two_values)(''nom'' \<mapsto> JStr ''Lea''))"
    unfolding e
    by (rule edit_changes_one_value [OF two_values_parsed two_values_ok])
      (use two_values_fields(1) f two_values_parsed in
        \<open>simp_all add: e [symmetric] n validateTemplateValues_def row_value_def reads_back_def
          del: stringify.simps\<close>)
  then show ?thesis by (auto simp: two_values_def)
qed

subsection \<open>Errors of the server\<close>

text \<open>\<open>/map has no entry for key "([^"]+)"/\<close> on the message of the server.\<close>

fun missing_key :: "string \<Rightarrow> string option" where
  "missing_key [] = None"
| "missing_key (c # cs) =
     (let pre = ''map has no entry for key '' @ [CHR 34];
          rest = drop (length pre) (c # cs);
          key = takeWhile (\<lambda>d. d \<noteq> CHR 34) rest
      in if take (length pre) (c # cs) = pre \<and> key \<noteq> [] \<and> length key < length rest then Some key
         else missing_key cs)"

end
