(* ===== verification/Crud_Table.thy ===== *)
theory Crud_Table
  imports Js_Values Sorting_Js Paged_Sources
begin

text \<open>
  \<open>shared/models/column.model.ts\<close>, \<open>shared/datasources/crud-table.datasource.ts\<close> and
  \<open>shared/components/crud-table\<close>: the columns with their comparison and filter, the rows a table
  shows, its selection and its events, the labels of the paginator and the search input. Rows are
  JSON values, as the server sent them; a property read on \<open>undefined\<close> or \<open>null\<close> raises, which
  makes the result \<open>None\<close>. Two objects or arrays of different rows are never identical.
\<close>

subsection \<open>Columns\<close>

record column =
  co_name :: string
  co_label :: string
  co_hidden :: bool
  co_canFilter :: bool
  co_filter :: "json option \<Rightarrow> string \<Rightarrow> bool"
  co_defaultSort :: bool
  co_canSort :: bool
  co_sort :: "json option \<Rightarrow> json option \<Rightarrow> int"
  co_get :: "json \<Rightarrow> json option option"
  co_render :: "json option \<Rightarrow> json option"
  co_route :: "(json \<Rightarrow> string) option"

definition column_filter :: "json option \<Rightarrow> string \<Rightarrow> bool" where
  "column_filter v pattern = str_includes (js_lower (js_string v)) (js_lower pattern)"

definition column_sort :: "(string \<Rightarrow> js_number) \<Rightarrow> json option \<Rightarrow> json option \<Rightarrow> int" where
  "column_sort rd a b = (if strict_equal a b then 0 else if value_less rd a b then 1 else -1)"

fun walk :: "string list \<Rightarrow> json option \<Rightarrow> json option option" where
  "walk [] v = Some v"
| "walk (p # ps) v =
     (if p = [] then Some v
      else (case v of None \<Rightarrow> None | Some j \<Rightarrow> Option.bind (property p j) (walk ps)))"

definition getValue :: "string \<Rightarrow> json \<Rightarrow> json option option" where
  "getValue name row = walk (split_char CHR ''.'' name) (Some row)"

definition new_column :: "(string \<Rightarrow> js_number) \<Rightarrow> string \<Rightarrow> column" where
  "new_column rd name =
     \<lparr>co_name = name, co_label = name, co_hidden = False, co_canFilter = False,
      co_filter = column_filter, co_defaultSort = False, co_canSort = False,
      co_sort = column_sort rd, co_get = getValue name, co_render = id, co_route = None\<rparr>"

definition custom_column :: "(string \<Rightarrow> js_number) \<Rightarrow> string \<Rightarrow> (json \<Rightarrow> json option) \<Rightarrow> column" where
  "custom_column rd name f = (new_column rd name)\<lparr>co_get := Some \<circ> f\<rparr>"

text \<open>\<open>DefaultValueRenderer\<close>: \<open>value || defaultValue\<close>.\<close>

definition defaultValueRenderer :: "json option \<Rightarrow> json option \<Rightarrow> json option" where
  "defaultValueRenderer d v = (if truthy v then v else d)"

subsection \<open>The rows of a table\<close>

record crud_cell =
  ce_value :: "json option"
  ce_display :: "json option"
  ce_route :: "string option"

record crud_row =
  cr_columns :: "(string \<times> crud_cell) list"
  cr_original :: json

definition columns_by_name :: "column list \<Rightarrow> (string \<times> column) list" where
  "columns_by_name cols = obj_of (map (\<lambda>c. (co_name c, c)) cols)"

definition cell_of :: "json \<Rightarrow> string \<times> column \<Rightarrow> (string \<times> crud_cell) option" where
  "cell_of row nc =
     map_option (\<lambda>v. (fst nc, \<lparr>ce_value = v, ce_display = co_render (snd nc) v,
         ce_route = map_option (\<lambda>f. f row) (co_route (snd nc))\<rparr>))
       (co_get (snd nc) row)"

definition row_cells :: "(string \<times> column) list \<Rightarrow> json \<Rightarrow> crud_row option" where
  "row_cells cols row =
     map_option (\<lambda>cells. \<lparr>cr_columns = cells, cr_original = row\<rparr>) (those (map (cell_of row) cols))"

definition cell_value :: "crud_row \<Rightarrow> string \<Rightarrow> json option" where
  "cell_value r n = Option.bind (map_of (cr_columns r) n) ce_value"

definition row_passes :: "(string \<times> column) list \<Rightarrow> bool \<Rightarrow> string \<Rightarrow> crud_row \<Rightarrow> bool" where
  "row_passes cols paged pattern r \<longleftrightarrow>
     pattern = [] \<or> paged \<or>
     list_ex (\<lambda>(n, c). co_canFilter c \<and> co_filter c (cell_value r n) pattern) cols"

definition row_cmp :: "column \<Rightarrow> string \<Rightarrow> crud_row \<Rightarrow> crud_row \<Rightarrow> int" where
  "row_cmp c direction a b =
     co_sort c (cell_value a (co_name c)) (cell_value b (co_name c)) *
     (if direction = ''desc'' then -1 else 1)"

text \<open>Sorting by a column that does not exist raises as soon as two rows are compared.\<close>

definition table_results ::
  "column list \<Rightarrow> bool \<Rightarrow> json list \<Rightarrow> sort option \<Rightarrow> string \<Rightarrow> crud_row list option" where
  "table_results columns paged rows srt pattern =
     (let cols = columns_by_name columns in
      case those (map (row_cells cols) rows) of
        None \<Rightarrow> None
      | Some all \<Rightarrow>
          (let kept = filter (row_passes cols paged pattern) all in
           case srt of
             None \<Rightarrow> Some kept
           | Some so \<Rightarrow>
               if so_active so = [] \<or> paged then Some kept
               else (case map_of cols (so_active so) of
                   None \<Rightarrow> if length kept \<le> 1 then Some kept else None
                 | Some c \<Rightarrow> Some (js_sort (row_cmp c (so_direction so)) kept))))"

text \<open>
  A column orders a set of values when its comparison is a collation on them; that is all that
  sorting needs.
\<close>

definition orders :: "column \<Rightarrow> json option set \<Rightarrow> bool" where
  "orders c V \<longleftrightarrow> (\<exists>d. collation d \<and> (\<forall>a\<in>V. \<forall>b\<in>V. co_sort c a b = d a b))"

lemma default_orders_texts:
  assumes "\<And>v. v \<in> V \<Longrightarrow> \<exists>s. v = Some (JStr s)" and "co_sort c = column_sort rd"
  shows "orders c V"
proof -
  let ?k = "\<lambda>v. the (as_text v)"
  let ?d = "\<lambda>a b :: string. if a = b then 0 else if a < b then 1 else -1 :: int"
  have "collation ?d" by (auto simp: collation_def)
  moreover have "co_sort c a b = ?d (?k a) (?k b)" if "a \<in> V" "b \<in> V" for a b
    using assms(1) [OF that(1)] assms(1) [OF that(2)] by (auto simp: assms(2) column_sort_def value_less_def)
  ultimately show ?thesis
    unfolding orders_def using collation_vimage [of ?d ?k] by blast
qed

lemma those_map: "those (map f xs) = Some ys \<longleftrightarrow> list_all2 (\<lambda>x y. f x = Some y) xs ys"
proof (induction xs arbitrary: ys)
  case (Cons x xs)
  then show ?case by (cases ys) (auto split: option.splits)
qed auto

lemma row_cells_original: "row_cells cols row = Some r \<Longrightarrow> cr_original r = row"
  by (auto simp: row_cells_def)

lemma rows_original:
  "list_all2 (\<lambda>row r. row_cells cols row = Some r) rows all \<Longrightarrow> map cr_original all = rows"
  by (induction rule: list_all2_induct) (auto simp: row_cells_original)

lemma row_cmp_sorts:
  fixes keep :: "crud_row list" and direction :: string
  assumes o: "orders c ((\<lambda>r. cell_value r (co_name c)) ` set keep)"
  defines "out \<equiv> js_sort (row_cmp c direction) keep"
  shows "sorted_wrt (\<lambda>a b. row_cmp c direction a b \<le> 0) out"
    and "x \<in> set keep \<Longrightarrow>
      filter (\<lambda>r. row_cmp c direction x r = 0) out = filter (\<lambda>r. row_cmp c direction x r = 0) keep"
proof -
  let ?v = "\<lambda>r. cell_value r (co_name c)"
  obtain d where d: "collation d" and cd: "\<And>a b. a \<in> set keep \<Longrightarrow> b \<in> set keep \<Longrightarrow> co_sort c (?v a) (?v b) = d (?v a) (?v b)"
    using o by (auto simp: orders_def)
  let ?e = "\<lambda>a b. if direction = ''desc'' then - d (?v a) (?v b) else d (?v a) (?v b)"
  have e: "collation ?e"
    by (cases "direction = ''desc''")
      (simp_all add: collation_vimage [OF d, of ?v] collation_opposite [OF collation_vimage [OF d, of ?v]])
  have eq: "row_cmp c direction a b = ?e a b" if "a \<in> set keep" "b \<in> set keep" for a b
    using cd [OF that] by (simp add: row_cmp_def)
  have out: "out = js_sort ?e keep"
    unfolding out_def by (rule js_sort_cong) (rule eq)
  have s: "set out = set keep" by (simp add: out_def)
  have "sorted_wrt (\<lambda>a b. ?e a b \<le> 0) out"
    unfolding out by (rule comparator.sorted [OF collation_comparator [OF e]])
  then show "sorted_wrt (\<lambda>a b. row_cmp c direction a b \<le> 0) out"
    by (rule sorted_wrt_mono_rel [rotated]) (simp add: s eq)
  assume x: "x \<in> set keep"
  have p: "?e a b \<le> 0" if "?e x a = 0" "?e x b = 0" for a b
    using collationD(3) [OF e, of a x b] collationD(2) [OF e, of x a] that by simp
  have "filter (\<lambda>r. ?e x r = 0) out = filter (\<lambda>r. ?e x r = 0) keep"
    unfolding out by (rule comparator.stable [OF collation_comparator [OF e] p])
  then show "filter (\<lambda>r. row_cmp c direction x r = 0) out = filter (\<lambda>r. row_cmp c direction x r = 0) keep"
    using filter_cong [of out out "\<lambda>r. ?e x r = 0" "\<lambda>r. row_cmp c direction x r = 0"]
      filter_cong [of keep keep "\<lambda>r. ?e x r = 0" "\<lambda>r. row_cmp c direction x r = 0"]
    by (simp add: s eq x)
qed

text \<open>
  C36. The rows of a table. A table on a paged source shows the rows as the server sent them. On a
  plain source it shows, each once, the rows the filter keeps; when the sort names one of the columns
  and its comparison orders the values it is given, they are sorted by it in the direction asked for,
  and rows that compare equal stay in the order of the source.
\<close>
theorem table_rows:
  assumes "table_results columns paged rows srt pattern = Some shown"
  defines "cols \<equiv> columns_by_name columns"
  shows "\<exists>all. list_all2 (\<lambda>row r. row_cells cols row = Some r) rows all \<and>
    (paged \<longrightarrow> shown = all \<and> map cr_original shown = rows) \<and>
    mset shown = filter_mset (row_passes cols paged pattern) (mset all) \<and>
    (\<forall>so c. srt = Some so \<and> so_active so \<noteq> [] \<and> \<not> paged \<and> map_of cols (so_active so) = Some c \<and>
        orders c ((\<lambda>r. cell_value r (co_name c)) ` set all) \<longrightarrow>
      sorted_wrt (\<lambda>a b. row_cmp c (so_direction so) a b \<le> 0) shown \<and>
      (\<forall>x\<in>set shown. filter (\<lambda>r. row_cmp c (so_direction so) x r = 0) shown =
         filter (\<lambda>r. row_passes cols paged pattern r \<and> row_cmp c (so_direction so) x r = 0) all))"
proof -
  obtain all where all: "those (map (row_cells cols) rows) = Some all"
    using assms by (auto simp: table_results_def Let_def split: option.splits)
  define kept where "kept = filter (row_passes cols paged pattern) all"
  have l: "list_all2 (\<lambda>row r. row_cells cols row = Some r) rows all"
    using all by (simp add: those_map)
  have sh: "shown = kept \<or> (\<exists>c d. shown = js_sort (row_cmp c d) kept)"
    and pg: "paged \<Longrightarrow> shown = kept"
    using assms(1) all unfolding table_results_def Let_def cols_def [symmetric] kept_def
    by (auto split: option.splits if_splits)
  have kp: "paged \<Longrightarrow> kept = all" by (simp add: kept_def row_passes_def)
  have m: "mset shown = filter_mset (row_passes cols paged pattern) (mset all)"
    using sh by (auto simp: kept_def mset_js_sort)
  have "sorted_wrt (\<lambda>a b. row_cmp c (so_direction so) a b \<le> 0) shown \<and>
      (\<forall>x\<in>set shown. filter (\<lambda>r. row_cmp c (so_direction so) x r = 0) shown =
         filter (\<lambda>r. row_passes cols paged pattern r \<and> row_cmp c (so_direction so) x r = 0) all)"
    if h: "srt = Some so" "so_active so \<noteq> []" "\<not> paged" "map_of cols (so_active so) = Some c"
      "orders c ((\<lambda>r. cell_value r (co_name c)) ` set all)" for so c
  proof -
    have o: "orders c ((\<lambda>r. cell_value r (co_name c)) ` set kept)"
      using h(5) by (auto simp: orders_def kept_def)
    have "shown = js_sort (row_cmp c (so_direction so)) kept"
      using assms(1) all h unfolding table_results_def Let_def cols_def [symmetric] kept_def by simp
    then show ?thesis
      using row_cmp_sorts [OF o, where direction = "so_direction so"] by (simp add: kept_def conj_commute)
  qed
  with l m pg kp rows_original [OF l] show ?thesis by (intro exI [of _ all]) auto
qed

definition sample_rows :: "json list" where
  "sample_rows = map (\<lambda>s. JObj [(''n'', JStr s)]) [''ab'', ''c'', ''b'']"

definition sample_columns :: "column list" where
  "sample_columns = [(new_column (\<lambda>s. NaN) ''n'')\<lparr>co_canFilter := True, co_canSort := True\<rparr>]"

lemma sample_results:
  "map_option (map cr_original) (table_results sample_columns False sample_rows (Some \<lparr>so_active = ''n'', so_direction = ''asc''\<rparr>) ''B'') =
     Some [JObj [(''n'', JStr ''b'')], JObj [(''n'', JStr ''ab'')]]"
  by code_simp

theorem table_rows_witness:
  "\<exists>shown. table_results sample_columns False sample_rows
      (Some \<lparr>so_active = ''n'', so_direction = ''asc''\<rparr>) ''B'' = Some shown \<and>
    sorted_wrt (\<lambda>a b. row_cmp (hd sample_columns) ''asc'' a b \<le> 0) shown"
proof -
  let ?c = "hd sample_columns" and ?so = "\<lparr>so_active = ''n'', so_direction = ''asc''\<rparr>"
  obtain shown where s: "table_results sample_columns False sample_rows (Some ?so) ''B'' = Some shown"
    using sample_results by auto
  have cols: "columns_by_name sample_columns = [(''n'', ?c)]"
    by (simp add: columns_by_name_def sample_columns_def new_column_def obj_of_def obj_set_def
        own_order_def is_index_def)
  from table_rows [OF s] obtain all where
    all: "list_all2 (\<lambda>row r. row_cells [(''n'', ?c)] row = Some r) sample_rows all" and
    srt: "orders ?c ((\<lambda>r. cell_value r (co_name ?c)) ` set all) \<Longrightarrow>
      sorted_wrt (\<lambda>a b. row_cmp ?c ''asc'' a b \<le> 0) shown"
    unfolding cols by auto
  have "\<exists>t. cell_value r ''n'' = Some (JStr t)" if "r \<in> set all" for r
  proof -
    from that all obtain s where "row_cells [(''n'', ?c)] (JObj [(''n'', JStr s)]) = Some r"
      by (auto simp: list_all2_Cons1 sample_rows_def)
    then show ?thesis
      by (auto simp: sample_columns_def row_cells_def cell_of_def new_column_def getValue_def
          cell_value_def)
  qed
  then have "orders ?c ((\<lambda>r. cell_value r (co_name ?c)) ` set all)"
    by (intro default_orders_texts) (auto simp: sample_columns_def new_column_def)
  with s srt show ?thesis by auto
qed

text \<open>
  The comparison of a column that gives none of its own turns the order around: what the header
  shows as ascending goes from the last text to the first.
\<close>

lemma default_sort_descends:
  "column_sort rd (Some (JStr a)) (Some (JStr b)) \<le> 0 \<longleftrightarrow> b \<le> a"
  by (auto simp: column_sort_def value_less_def)

subsection \<open>The selection\<close>

type_synonym row_selection = "(string \<times> json) list"

definition getIndex :: "row_selection \<Rightarrow> json \<Rightarrow> int" where
  "getIndex sel row = find_index (\<lambda>x. fst x = stringify row) sel"

definition toggle :: "json \<Rightarrow> row_selection \<Rightarrow> row_selection" where
  "toggle row sel =
     (if getIndex sel row = -1 then sel @ [(stringify row, row)]
      else filter (\<lambda>x. fst x \<noteq> stringify row) sel)"

definition sel_clear :: row_selection where
  "sel_clear = []"

definition isSelected :: "row_selection \<Rightarrow> json \<Rightarrow> bool" where
  "isSelected sel row \<longleftrightarrow> getIndex sel row \<noteq> -1"

definition selected_rows :: "row_selection \<Rightarrow> json list" where
  "selected_rows sel = map snd sel"

text \<open>New rows: what is no longer among them is unselected.\<close>

definition sel_prune :: "json list \<Rightarrow> row_selection \<Rightarrow> row_selection" where
  "sel_prune results sel =
     fold (\<lambda>row sel. if find_index (\<lambda>i. stringify i = stringify row) results = -1
                     then toggle row sel else sel)
       (selected_rows sel) sel"

definition allSelected :: "json list \<Rightarrow> row_selection \<Rightarrow> bool" where
  "allSelected results sel \<longleftrightarrow> length results > 0 \<and> length (selected_rows sel) = length results"

definition someSelected :: "json list \<Rightarrow> row_selection \<Rightarrow> bool" where
  "someSelected results sel \<longleftrightarrow> length (selected_rows sel) > 0 \<and> \<not> allSelected results sel"

definition toggleAll :: "json list \<Rightarrow> row_selection \<Rightarrow> row_selection" where
  "toggleAll results sel =
     (let r = (\<not> allSelected results sel) in
      fold (\<lambda>row sel. if isSelected sel row \<noteq> r then toggle row sel else sel) results sel)"

text \<open>A selection holds every row under its hash, and no hash twice.\<close>

definition sel_ok :: "row_selection \<Rightarrow> bool" where
  "sel_ok sel \<longleftrightarrow> distinct (map fst sel) \<and> (\<forall>x\<in>set sel. fst x = stringify (snd x))"

definition hashes :: "row_selection \<Rightarrow> string set" where
  "hashes sel = fst ` set sel"

lemma isSelected_iff: "isSelected sel row \<longleftrightarrow> stringify row \<in> hashes sel"
  by (force simp: isSelected_def getIndex_def find_index_none hashes_def)

lemma toggle_simps:
  "isSelected sel row \<Longrightarrow> toggle row sel = filter (\<lambda>x. fst x \<noteq> stringify row) sel"
  "\<not> isSelected sel row \<Longrightarrow> toggle row sel = sel @ [(stringify row, row)]"
  by (auto simp: toggle_def isSelected_def)

lemma hashes_toggle:
  "hashes (toggle row sel) =
     (if isSelected sel row then hashes sel - {stringify row} else insert (stringify row) (hashes sel))"
  by (cases "isSelected sel row") (auto simp: toggle_simps hashes_def)

lemma sel_ok_clear [simp]: "sel_ok sel_clear" "hashes sel_clear = {}"
  by (auto simp: sel_ok_def sel_clear_def hashes_def)

lemma sel_ok_filter: "sel_ok sel \<Longrightarrow> sel_ok (filter P sel)"
  by (auto simp: sel_ok_def distinct_map inj_on_def)

lemma sel_ok_toggle: "sel_ok sel \<Longrightarrow> sel_ok (toggle row sel)"
proof (cases "isSelected sel row")
  case False
  moreover assume "sel_ok sel"
  ultimately show ?thesis
    by (auto simp: toggle_simps isSelected_iff sel_ok_def hashes_def)
qed (simp add: toggle_simps sel_ok_filter)

text \<open>Pruning keeps exactly the entries whose row is among the new ones.\<close>

lemma fold_prune:
  assumes "distinct (map stringify L)" and "stringify ` set L \<subseteq> hashes sel"
  shows "fold (\<lambda>row sel. if find_index (\<lambda>i. stringify i = stringify row) results = -1
                     then toggle row sel else sel) L sel =
    filter (\<lambda>x. fst x \<in> stringify ` set results \<or> fst x \<notin> stringify ` set L) sel"
  using assms
proof (induction L arbitrary: sel)
  case (Cons r L)
  let ?P = "\<lambda>x. fst x \<in> stringify ` set results \<or> fst x \<notin> stringify ` set L"
  show ?case
  proof (cases "stringify r \<in> stringify ` set results")
    case True
    then have "find_index (\<lambda>i. stringify i = stringify r) results \<noteq> -1"
      by (auto simp: find_index_none)
    with Cons True show ?thesis by (auto intro!: filter_cong)
  next
    case False
    then have f: "find_index (\<lambda>i. stringify i = stringify r) results = -1"
      by (metis (mono_tags, lifting) find_index_none image_eqI)
    have r: "isSelected sel r" using Cons.prems by (simp add: isSelected_iff)
    have "stringify ` set L \<subseteq> hashes sel" "stringify r \<notin> stringify ` set L"
      using Cons.prems by simp_all
    then have "stringify ` set L \<subseteq> hashes (toggle r sel)"
      unfolding hashes_toggle using r by (simp add: subset_Diff_insert)
    then show ?thesis
      using Cons.IH Cons.prems(1) f False
      by (auto simp: toggle_simps(1) [OF r] intro!: filter_cong) (metis image_eqI)
  qed
qed simp

lemma sel_prune_filter:
  assumes "sel_ok sel"
  shows "sel_prune results sel = filter (\<lambda>x. fst x \<in> stringify ` set results) sel"
proof -
  have m: "map stringify (selected_rows sel) = map fst sel"
    using assms by (auto simp: sel_ok_def selected_rows_def)
  then have s: "stringify ` set (selected_rows sel) = hashes sel"
    by (metis hashes_def set_map)
  have "sel_prune results sel = filter (\<lambda>x. fst x \<in> stringify ` set results \<or>
      fst x \<notin> stringify ` set (selected_rows sel)) sel"
    unfolding sel_prune_def using assms by (intro fold_prune) (simp_all add: m s sel_ok_def)
  then show ?thesis by (auto simp: s hashes_def intro!: filter_cong)
qed

lemma sel_prune_props:
  assumes "sel_ok sel"
  shows "sel_ok (sel_prune results sel)"
    and "hashes (sel_prune results sel) = hashes sel \<inter> stringify ` set results"
  using assms by (auto simp: sel_prune_filter sel_ok_filter hashes_def)

text \<open>\<open>toggleAll\<close> unselects the rows when as many rows are selected as there are, and selects them otherwise.\<close>

lemma toggleAll_props:
  assumes "sel_ok sel"
  shows "sel_ok (toggleAll results sel)"
    and "hashes (toggleAll results sel) =
      (if allSelected results sel then hashes sel - stringify ` set results
       else hashes sel \<union> stringify ` set results)"
proof -
  have "sel_ok (fold (\<lambda>row sel. if isSelected sel row \<noteq> r then toggle row sel else sel) rows sel) \<and>
    hashes (fold (\<lambda>row sel. if isSelected sel row \<noteq> r then toggle row sel else sel) rows sel) =
      (if r then hashes sel \<union> stringify ` set rows else hashes sel - stringify ` set rows)" for r rows
    using assms
  proof (induction rows arbitrary: sel)
    case (Cons x rows)
    have "sel_ok (if isSelected sel x \<noteq> r then toggle x sel else sel)"
      using Cons.prems by (simp add: sel_ok_toggle)
    from Cons.IH [OF this] show ?case by (auto simp: hashes_toggle isSelected_iff)
  qed simp
  from this [of "\<not> allSelected results sel" results] show "sel_ok (toggleAll results sel)"
    and "hashes (toggleAll results sel) =
      (if allSelected results sel then hashes sel - stringify ` set results
       else hashes sel \<union> stringify ` set results)"
    by (auto simp: toggleAll_def Let_def)
qed

subsection \<open>The component\<close>

text \<open>\<open>canEdit\<close> and \<open>canDelete\<close> are given as a flag or as a function of the row.\<close>

datatype permission = Allow bool | AllowRow "json \<Rightarrow> bool"

record crud_table =
  ct_columns :: "column list"
  ct_custom :: "string list"
  ct_canSelect :: bool
  ct_canEdit :: permission
  ct_canDelete :: permission
  ct_canCreate :: bool
  ct_rowActions :: nat
  ct_rowLabel :: "(json \<Rightarrow> string) option"
  ct_searchFields :: bool
  ct_autoLoad :: bool
  ct_remote :: bool
  ct_source :: "json list"
  ct_sort :: "sort option"
  ct_filter :: string
  ct_sortActive :: string
  ct_pattern :: "string option"
  ct_selected :: row_selection
  ct_failed :: bool

datatype table_output =
    LoadSource
  | RemoteSort sort
  | RemoteFilter string
  | SearchChange string
  | EditRow "json option"
  | DeleteRow json

definition new_table :: crud_table where
  "new_table =
     \<lparr>ct_columns = [], ct_custom = [], ct_canSelect = False, ct_canEdit = Allow False,
      ct_canDelete = Allow False, ct_canCreate = False, ct_rowActions = 0, ct_rowLabel = None,
      ct_searchFields = False, ct_autoLoad = True, ct_remote = False, ct_source = [], ct_sort = None,
      ct_filter = [], ct_sortActive = [], ct_pattern = None, ct_selected = [],
      ct_failed = False\<rparr>"

fun permitted :: "permission \<Rightarrow> json \<Rightarrow> bool" where
  "permitted (Allow b) row = b"
| "permitted (AllowRow f) row = f row"

definition canEditRow :: "crud_table \<Rightarrow> json \<Rightarrow> bool" where
  "canEditRow s row = permitted (ct_canEdit s) row"

definition canDeleteRow :: "crud_table \<Rightarrow> json \<Rightarrow> bool" where
  "canDeleteRow s row = permitted (ct_canDelete s) row"

definition showActions :: "crud_table \<Rightarrow> bool" where
  "showActions s \<longleftrightarrow>
     ct_canEdit s \<noteq> Allow False \<or> ct_canDelete s \<noteq> Allow False \<or> ct_rowActions s > 0"

definition set_canEdit :: "permission \<Rightarrow> crud_table \<Rightarrow> crud_table" where
  "set_canEdit p s = s\<lparr>ct_canEdit := p\<rparr>"

definition set_canDelete :: "permission \<Rightarrow> crud_table \<Rightarrow> crud_table" where
  "set_canDelete p s = s\<lparr>ct_canDelete := p\<rparr>"

definition visible_columns :: "crud_table \<Rightarrow> string list" where
  "visible_columns s =
     js_set ((if ct_canSelect s then [''_select_''] else []) @
       map co_name (filter (Not \<circ> co_hidden) (ct_columns s)) @ ct_custom s @
       (if showActions s then [''_actions_''] else []))"

definition describeRow :: "crud_table \<Rightarrow> crud_row \<Rightarrow> string" where
  "describeRow s r =
     (let label = (case ct_rowLabel s of None \<Rightarrow> [] | Some f \<Rightarrow> f (cr_original r)) in
      if label \<noteq> [] then label
      else (case Option.bind
                (List.find (\<lambda>c. \<not> co_hidden c \<and> js_trim (co_label c) \<noteq> []) (ct_columns s))
                (\<lambda>c. Option.bind (map_of (cr_columns r) (co_name c)) ce_display) of
          None \<Rightarrow> ''cette ligne''
        | Some v \<Rightarrow> if v = JNull \<or> v = JStr [] then ''cette ligne'' else str_of v))"

text \<open>The column the header marks: the default one, or else the first that can be sorted.\<close>

definition active_column :: "column list \<Rightarrow> string" where
  "active_column cols =
     (case List.find (\<lambda>c. co_canSort c \<and> co_defaultSort c) cols of
        Some c \<Rightarrow>
          if co_name c \<noteq> [] then co_name c
          else (case List.find co_canSort cols of Some d \<Rightarrow> co_name d | None \<Rightarrow> [])
      | None \<Rightarrow> (case List.find co_canSort cols of Some d \<Rightarrow> co_name d | None \<Rightarrow> []))"

definition rendered_rows :: "crud_table \<Rightarrow> crud_row list option" where
  "rendered_rows s = table_results (ct_columns s) (ct_remote s) (ct_source s) (ct_sort s) (ct_filter s)"

text \<open>
  Every emission of rows prunes the selection. An emission that raises ends the subscription until
  another source is set.
\<close>

definition emit_results :: "crud_table \<Rightarrow> crud_table" where
  "emit_results s =
     (if ct_failed s then s
      else case rendered_rows s of
        None \<Rightarrow> s\<lparr>ct_failed := True\<rparr>
      | Some rs \<Rightarrow> s\<lparr>ct_selected := sel_prune (map cr_original rs) (ct_selected s)\<rparr>)"

definition set_columns :: "column list \<Rightarrow> crud_table \<Rightarrow> crud_table" where
  "set_columns cols s =
     (let s = emit_results (s\<lparr>ct_columns := cols\<rparr>) in
      if ct_remote s then s else s\<lparr>ct_sortActive := active_column cols\<rparr>)"

definition set_dataSource ::
  "bool \<Rightarrow> json list \<Rightarrow> crud_table \<Rightarrow> crud_table \<times> table_output list" where
  "set_dataSource paged rows s =
     (emit_results (s\<lparr>ct_remote := paged, ct_source := rows, ct_sort := None, ct_filter := [],
        ct_failed := False\<rparr>),
      if ct_autoLoad s then [LoadSource] else [])"

definition source_rows :: "json list \<Rightarrow> crud_table \<Rightarrow> crud_table" where
  "source_rows rows s = emit_results (s\<lparr>ct_source := rows\<rparr>)"

definition source_loading :: "bool \<Rightarrow> crud_table \<Rightarrow> crud_table" where
  "source_loading loading s =
     (if loading \<and> ct_remote s then s\<lparr>ct_selected := sel_clear\<rparr> else s)"

definition sort_changed :: "sort \<Rightarrow> crud_table \<Rightarrow> crud_table \<times> table_output list" where
  "sort_changed so s =
     (emit_results (s\<lparr>ct_sort := Some so\<rparr>), if ct_remote s then [RemoteSort so] else [])"

definition pattern_changed :: "string \<Rightarrow> crud_table \<Rightarrow> crud_table \<times> table_output list" where
  "pattern_changed q s =
     (let t = emit_results (s\<lparr>ct_filter := (if ct_searchFields s then [] else q)\<rparr>) in
      if ct_pattern s = Some q then (t, [])
      else (t\<lparr>ct_pattern := Some q\<rparr>,
            (if \<not> ct_searchFields s \<and> ct_remote s then [RemoteFilter q] else []) @ [SearchChange q]))"

definition table_init :: "crud_table \<Rightarrow> table_output list" where
  "table_init s = (if ct_autoLoad s then [LoadSource] else [])"

definition table_refresh :: "crud_table \<Rightarrow> table_output list" where
  "table_refresh s = [LoadSource]"

definition onEdit :: "json option \<Rightarrow> table_output list" where
  "onEdit row = [EditRow row]"

definition onDelete :: "json \<Rightarrow> table_output list" where
  "onDelete row = [DeleteRow row]"

definition table_toggle :: "json \<Rightarrow> crud_table \<Rightarrow> crud_table" where
  "table_toggle row s = s\<lparr>ct_selected := toggle row (ct_selected s)\<rparr>"

text \<open>
  \<open>toggleAll\<close> subscribes to the rows afresh, and a fresh subscription starts without a sort and
  with an empty filter: it sees every row of the source, also those the filter hides.
\<close>

definition fresh_rows :: "crud_table \<Rightarrow> json list option" where
  "fresh_rows s =
     map_option (map cr_original) (table_results (ct_columns s) (ct_remote s) (ct_source s) None [])"

definition table_toggleAll :: "crud_table \<Rightarrow> crud_table" where
  "table_toggleAll s =
     (case fresh_rows s of
        None \<Rightarrow> s
      | Some rows \<Rightarrow> s\<lparr>ct_selected := toggleAll rows (ct_selected s)\<rparr>)"

subsection \<open>Reachable tables\<close>

text \<open>
  What can happen to a table on the page, in any order: its inputs are set, its source emits or
  loads, the user sorts, searches and ticks rows that are shown.
\<close>

inductive table_reach :: "crud_table \<Rightarrow> bool" where
  start: "table_reach (new_table\<lparr>ct_canSelect := sel, ct_autoLoad := auto, ct_rowLabel := label,
            ct_searchFields := own, ct_rowActions := n, ct_custom := custom\<rparr>)"
| columns: "table_reach s \<Longrightarrow> table_reach (set_columns cols s)"
| editable: "table_reach s \<Longrightarrow> table_reach (set_canEdit p s)"
| deletable: "table_reach s \<Longrightarrow> table_reach (set_canDelete p s)"
| source: "table_reach s \<Longrightarrow> table_reach (fst (set_dataSource paged rows s))"
| rows: "table_reach s \<Longrightarrow> table_reach (source_rows rows s)"
| loading: "table_reach s \<Longrightarrow> table_reach (source_loading b s)"
| sorted: "table_reach s \<Longrightarrow> table_reach (fst (sort_changed so s))"
| searched: "table_reach s \<Longrightarrow> table_reach (fst (pattern_changed q s))"
| ticked: "table_reach s \<Longrightarrow> rendered_rows s = Some rs \<Longrightarrow> r \<in> set rs \<Longrightarrow>
    table_reach (table_toggle (cr_original r) s)"
| all_ticked: "table_reach s \<Longrightarrow> table_reach (table_toggleAll s)"

lemma results_plain:
  "table_results columns paged rows None [] = those (map (row_cells (columns_by_name columns)) rows)"
  "table_results columns True rows srt pattern = those (map (row_cells (columns_by_name columns)) rows)"
  by (auto simp: table_results_def row_passes_def Let_def split: option.split)

lemma those_original: "those (map (row_cells cols) rows) = Some shown \<Longrightarrow> map cr_original shown = rows"
  by (simp add: those_map rows_original)

lemma fresh_rows_source: "fresh_rows s = Some rows \<Longrightarrow> rows = ct_source s"
  by (auto simp: fresh_rows_def results_plain those_original)

lemma rendered_remote:
  assumes "ct_remote s" and "rendered_rows s = Some rs"
  shows "fresh_rows s = Some (ct_source s)" and "cr_original ` set rs = set (ct_source s)"
proof -
  from assms have t: "those (map (row_cells (columns_by_name (ct_columns s))) (ct_source s)) = Some rs"
    by (simp add: rendered_rows_def results_plain)
  from those_original [OF t] have m: "map cr_original rs = ct_source s" .
  with t show "fresh_rows s = Some (ct_source s)" by (simp add: fresh_rows_def results_plain)
  from m show "cr_original ` set rs = set (ct_source s)" by (metis set_map)
qed

definition table_inv :: "crud_table \<Rightarrow> bool" where
  "table_inv s \<longleftrightarrow> sel_ok (ct_selected s) \<and>
     (ct_failed s \<or> rendered_rows s \<noteq> None \<and>
        (ct_remote s \<longrightarrow> hashes (ct_selected s) \<subseteq> stringify ` set (ct_source s)))"

lemma emit_results_inv: "sel_ok (ct_selected s) \<Longrightarrow> table_inv (emit_results s)"
proof -
  assume ok: "sel_ok (ct_selected s)"
  show ?thesis
  proof (cases "ct_failed s \<or> rendered_rows s = None")
    case False
    then obtain rs where rs: "rendered_rows s = Some rs" by auto
    then have "ct_remote s \<Longrightarrow> cr_original ` set rs = set (ct_source s)"
      by (rule rendered_remote(2) [rotated])
    then show ?thesis
      using ok rs False sel_prune_props [OF ok, of "map cr_original rs"]
      by (auto simp: table_inv_def emit_results_def rendered_rows_def)
  qed (use ok in \<open>auto simp: table_inv_def emit_results_def\<close>)
qed

lemma table_inv_cong:
  "table_inv s \<Longrightarrow> ct_selected t = ct_selected s \<Longrightarrow> ct_failed t = ct_failed s \<Longrightarrow>
     ct_remote t = ct_remote s \<Longrightarrow> ct_source t = ct_source s \<Longrightarrow>
     rendered_rows t = rendered_rows s \<Longrightarrow> table_inv t"
  by (simp add: table_inv_def)

lemma emit_results_inv': "table_inv s \<Longrightarrow> ct_selected t = ct_selected s \<Longrightarrow> table_inv (emit_results t)"
  by (rule emit_results_inv) (simp add: table_inv_def)

lemma toggle_inv:
  assumes "table_inv s" and "rendered_rows s = Some rs" and "r \<in> set rs"
  shows "table_inv (table_toggle (cr_original r) s)"
proof -
  have "ct_remote s \<Longrightarrow> cr_original r \<in> set (ct_source s)"
    using assms(2,3) rendered_remote(2) by blast
  then show ?thesis
    using assms by (auto simp: table_inv_def table_toggle_def sel_ok_toggle hashes_toggle rendered_rows_def)
qed

lemma toggleAll_inv:
  assumes "table_inv s"
  shows "table_inv (table_toggleAll s)"
proof (cases "fresh_rows s")
  case (Some rows)
  then have "rows = ct_source s" by (rule fresh_rows_source)
  with assms Some show ?thesis
    by (auto simp: table_inv_def table_toggleAll_def toggleAll_props rendered_rows_def)
qed (simp add: table_toggleAll_def assms)

lemma table_reach_inv: "table_reach s \<Longrightarrow> table_inv s"
proof (induction rule: table_reach.induct)
  case (start sel auto label own n custom)
  show ?case
    by (simp add: table_inv_def new_table_def rendered_rows_def table_results_def sel_ok_def hashes_def)
next
  case (columns s cols)
  have "table_inv (emit_results (s\<lparr>ct_columns := cols\<rparr>))" by (rule emit_results_inv' [OF columns.IH]) simp
  then show ?case
    by (rule table_inv_cong) (simp_all add: set_columns_def Let_def rendered_rows_def)
next
  case (loading s b)
  then show ?case by (auto simp: source_loading_def table_inv_def rendered_rows_def)
next
  case (searched s q)
  let ?t = "emit_results (s\<lparr>ct_filter := (if ct_searchFields s then [] else q)\<rparr>)"
  have "table_inv ?t" by (rule emit_results_inv' [OF searched.IH]) simp
  then show ?case
    by (rule table_inv_cong) (simp_all add: pattern_changed_def Let_def rendered_rows_def)
next
  case (ticked s rs r)
  then show ?case by (intro toggle_inv)
next
  case (all_ticked s)
  then show ?case by (simp add: toggleAll_inv)
next
  case (editable s p)
  show ?case by (rule table_inv_cong [OF editable.IH]) (simp_all add: set_canEdit_def rendered_rows_def)
next
  case (deletable s p)
  show ?case by (rule table_inv_cong [OF deletable.IH]) (simp_all add: set_canDelete_def rendered_rows_def)
qed (auto simp: set_dataSource_def source_rows_def sort_changed_def intro: emit_results_inv')

text \<open>
  C37. The selection of a table. No row is selected twice. As long as the rows of a paged table can
  be rendered, every selected row is one of the rows shown. Ticking the header unselects all rows when
  all are selected, and otherwise selects every row of the source: also those that a filter hides.
\<close>
theorem selection_shown:
  assumes "table_reach s"
  shows "distinct (map fst (ct_selected s)) \<and>
    (ct_remote s \<and> \<not> ct_failed s \<longrightarrow>
       fresh_rows s = Some (ct_source s) \<and> hashes (ct_selected s) \<subseteq> stringify ` set (ct_source s)) \<and>
    (fresh_rows s \<noteq> None \<longrightarrow>
       hashes (ct_selected (table_toggleAll s)) =
         (if allSelected (ct_source s) (ct_selected s)
          then hashes (ct_selected s) - stringify ` set (ct_source s)
          else hashes (ct_selected s) \<union> stringify ` set (ct_source s)))"
proof -
  have inv: "table_inv s" using assms by (rule table_reach_inv)
  then have ok: "sel_ok (ct_selected s)" by (simp add: table_inv_def)
  have "fresh_rows s = Some (ct_source s)" if "ct_remote s" "\<not> ct_failed s"
    using that inv rendered_remote by (auto simp: table_inv_def)
  moreover have "table_toggleAll s = s\<lparr>ct_selected := toggleAll (ct_source s) (ct_selected s)\<rparr>"
    if "fresh_rows s \<noteq> None"
    using that fresh_rows_source by (auto simp: table_toggleAll_def)
  ultimately show ?thesis
    using inv ok toggleAll_props [OF ok, of "ct_source s"]
    by (auto simp: table_inv_def sel_ok_def)
qed

text \<open>A table whose filter keeps one row of three: the header selects the three.\<close>

definition filtered_table :: crud_table where
  "filtered_table =
     fst (pattern_changed ''c'' (fst (set_dataSource False sample_rows (set_columns sample_columns new_table))))"

lemma filtered_reach: "table_reach filtered_table"
proof -
  have "new_table = new_table\<lparr>ct_canSelect := False, ct_autoLoad := True, ct_rowLabel := None,
      ct_searchFields := False, ct_rowActions := 0, ct_custom := []\<rparr>"
    by (simp add: new_table_def)
  then have "table_reach new_table" using table_reach.start by metis
  then show ?thesis unfolding filtered_table_def by (intro table_reach.intros)
qed

lemma filtered_facts:
  "ct_remote filtered_table = False" "ct_source filtered_table = sample_rows"
  "ct_columns filtered_table = sample_columns" "ct_selected filtered_table = []"
  by (simp_all add: filtered_table_def pattern_changed_def set_dataSource_def set_columns_def Let_def
      new_table_def emit_results_def sel_prune_def selected_rows_def split: option.split)

theorem selection_shown_witness:
  "hashes (ct_selected (table_toggleAll filtered_table)) = stringify ` set sample_rows \<and>
   map_option (map cr_original) (rendered_rows filtered_table) = Some [JObj [(''n'', JStr ''c'')]]"
proof -
  have "fresh_rows filtered_table \<noteq> None"
    unfolding fresh_rows_def filtered_facts by code_simp
  with selection_shown [OF filtered_reach]
  have "hashes (ct_selected (table_toggleAll filtered_table)) = stringify ` set sample_rows"
    by (simp add: filtered_facts allSelected_def selected_rows_def sample_rows_def hashes_def)
  moreover have "map_option (map cr_original) (rendered_rows filtered_table) =
      Some [JObj [(''n'', JStr ''c'')]]"
    by code_simp
  ultimately show ?thesis by simp
qed

subsection \<open>The paginator and the search input\<close>

datatype range_label = NoResult | Range nat nat nat

definition rangeLabel :: "nat \<Rightarrow> nat \<Rightarrow> nat \<Rightarrow> range_label" where
  "rangeLabel page per len =
     (if len = 0 then NoResult
      else Range (page * per + 1) (min ((page + 1) * per) len) len)"

lemma range_within:
  assumes "0 < per" and "page * per < len"
  shows "\<exists>a b. rangeLabel page per len = Range a b len \<and> 1 \<le> a \<and> a \<le> b \<and> b \<le> len \<and> b - a < per"
  using assms by (auto simp: rangeLabel_def)

record search_input =
  si_value :: string
  si_pattern :: string
  si_folded :: bool
  si_seen :: "string option"

definition new_search :: search_input where
  "new_search = \<lparr>si_value = [], si_pattern = [], si_folded = True, si_seen = None\<rparr>"

definition search_emit :: "search_input \<Rightarrow> search_input \<times> string option" where
  "search_emit s =
     (if si_seen s = Some (si_value s) then (s, None)
      else (s\<lparr>si_seen := Some (si_value s), si_pattern := si_value s\<rparr>, Some (si_value s)))"

definition search_typed :: "string \<Rightarrow> search_input \<Rightarrow> search_input \<times> string option" where
  "search_typed q s = search_emit (s\<lparr>si_value := q\<rparr>)"

definition search_show :: "search_input \<Rightarrow> search_input" where
  "search_show s = s\<lparr>si_folded := False\<rparr>"

definition search_clear :: "search_input \<Rightarrow> search_input \<times> string option" where
  "search_clear s = (let (s, out) = search_emit (s\<lparr>si_value := []\<rparr>) in (s\<lparr>si_folded := True\<rparr>, out))"

end
