(* ===== verification/Budget_Email_Form.thy ===== *)
theory Budget_Email_Form
  imports Template_Data Payments Sorting_Js Ui
begin

text \<open>
  \<open>budgets/components/budget-email-form\<close>: the dialog that prepares the e-mails of a budget. It lists
  the members to write to from the cotisations, previews one message and creates the e-mails only
  while the preview is up to date. Every control is validated again whenever what its validator reads
  has changed (by the listener, after a load and when its input is rendered), so that validity is a
  function of the state. The editor of the values is the component of \<open>Template_Data\<close>; here it is the
  events it causes: a value with its own verdict on it.
\<close>

subsection \<open>Recipients\<close>

record recipient =
  rc_member :: ModelsMember
  rc_name :: string
  rc_lots :: "int list"

text \<open>
  What the code takes from outside: \<open>Number\<close> on a text, \<open>localeCompare\<close> in French, and the search of
  a text with a typographic apostrophe, which is outside the 256 code points of the model.
\<close>

record mail_env =
  me_number :: "string \<Rightarrow> js_number"
  me_collate :: "string \<Rightarrow> string \<Rightarrow> int"
  me_no_address :: "string \<Rightarrow> bool"

definition included :: "bool \<Rightarrow> bool \<Rightarrow> ModelsCotisationResult \<Rightarrow> bool" where
  "included doing paid c =
     (case paymentState c of Doing \<Rightarrow> doing | Done \<Rightarrow> paid | Overpaid \<Rightarrow> paid | Waiting \<Rightarrow> True)"

definition recipient_name :: "ModelsMember \<Rightarrow> string" where
  "recipient_name m =
     (let name = join_str '' '' (map the (filter truthy_str [mem_first_name m, mem_last_name m])) in
      if name \<noteq> [] then name
      else if truthy_str (mem_email m) then the (mem_email m) else ''Membre'')"

definition add_lot :: "int option \<Rightarrow> recipient \<Rightarrow> recipient" where
  "add_lot number r =
     (case number of
        None \<Rightarrow> r
      | Some n \<Rightarrow> if n \<in> set (rc_lots r) then r else r\<lparr>rc_lots := rc_lots r @ [n]\<rparr>)"

definition add_recipient ::
  "int option \<Rightarrow> ModelsMember \<Rightarrow> (string \<times> recipient) list \<Rightarrow> (string \<times> recipient) list" where
  "add_recipient number m members =
     (if \<not> truthy_str (mem_id m) then members
      else (let i = the (mem_id m);
                r = nullish (map_of members i)
                      \<lparr>rc_member = m, rc_name = recipient_name m, rc_lots = []\<rparr>
            in omap_set i (add_lot number r) members))"

definition add_cotisation ::
  "ModelsCotisationResult \<Rightarrow> (string \<times> recipient) list \<Rightarrow> (string \<times> recipient) list" where
  "add_cotisation c members =
     fold (add_recipient (Option.bind (ctr_unit c) unt_number))
       (nullish (Option.bind (ctr_unit c) unt_members) []) members"

definition collect ::
  "bool \<Rightarrow> bool \<Rightarrow> ModelsCotisationResult list \<Rightarrow> (string \<times> recipient) list" where
  "collect doing paid cotisations = fold add_cotisation (filter (included doing paid) cotisations) []"

definition has_email :: "recipient \<Rightarrow> bool" where
  "has_email r = truthy_str (mem_email (rc_member r))"

definition recipients_of ::
  "(string \<Rightarrow> string \<Rightarrow> int) \<Rightarrow> (string \<times> recipient) list \<Rightarrow> recipient list" where
  "recipients_of coll members =
     map (\<lambda>r. r\<lparr>rc_lots := js_sort (cmp_key id) (rc_lots r)\<rparr>)
       (js_sort (\<lambda>a b. coll (rc_name a) (rc_name b)) (filter has_email (map snd members)))"

text \<open>
  The members as the specification sees them: one visit per cotisation included and member of its
  lot, the recipient of an identifier being the first visit's member, with the numbers of all visits.
\<close>

definition visits ::
  "bool \<Rightarrow> bool \<Rightarrow> ModelsCotisationResult list \<Rightarrow> (int option \<times> ModelsMember) list" where
  "visits doing paid cotisations =
     filter (\<lambda>(n, m). truthy_str (mem_id m))
       (concat (map (\<lambda>c. map (Pair (Option.bind (ctr_unit c) unt_number))
            (nullish (Option.bind (ctr_unit c) unt_members) []))
          (filter (included doing paid) cotisations)))"

definition first_visit :: "string \<Rightarrow> (int option \<times> ModelsMember) list \<Rightarrow> (int option \<times> ModelsMember) option" where
  "first_visit i vs = List.find (\<lambda>v. mem_id (snd v) = Some i) vs"

definition visited_lots :: "string \<Rightarrow> (int option \<times> ModelsMember) list \<Rightarrow> int set" where
  "visited_lots i vs = {k. \<exists>m. (Some k, m) \<in> set vs \<and> mem_id m = Some i}"

lemma first_visit_snoc:
  "first_visit i (vs @ [v]) =
     (case first_visit i vs of
        None \<Rightarrow> if mem_id (snd v) = Some i then Some v else None
      | Some w \<Rightarrow> Some w)"
  unfolding first_visit_def by (induction vs) auto

lemma visited_lots_snoc:
  "visited_lots i (vs @ [(n, m)]) = (if mem_id m = Some i then set_option n else {}) \<union> visited_lots i vs"
  by (auto simp: visited_lots_def)

lemma visited_lots_none: "first_visit i vs = None \<Longrightarrow> visited_lots i vs = {}"
  by (auto simp: first_visit_def visited_lots_def find_None_iff)

definition entry_ok :: "string \<Rightarrow> (int option \<times> ModelsMember) list \<Rightarrow> recipient option \<Rightarrow> bool" where
  "entry_ok i vs e \<longleftrightarrow>
     (case first_visit i vs of
        None \<Rightarrow> e = None
      | Some (n, m) \<Rightarrow> \<exists>ls. e = Some \<lparr>rc_member = m, rc_name = recipient_name m, rc_lots = ls\<rparr> \<and>
          distinct ls \<and> set ls = visited_lots i vs)"

lemma fold_add_cotisation:
  "fold add_cotisation cs acc =
     fold (\<lambda>(n, m). add_recipient n m)
       (concat (map (\<lambda>c. map (Pair (Option.bind (ctr_unit c) unt_number))
            (nullish (Option.bind (ctr_unit c) unt_members) [])) cs)) acc"
  by (induction cs arbitrary: acc) (simp_all add: add_cotisation_def fold_map comp_def)

lemma fold_add_filter:
  "fold (\<lambda>(n, m). add_recipient n m) vs acc =
     fold (\<lambda>(n, m). add_recipient n m) (filter (\<lambda>(n, m). truthy_str (mem_id m)) vs) acc"
  by (induction vs arbitrary: acc) (auto simp: add_recipient_def)

lemma collect_visits:
  "collect doing paid cs = fold (\<lambda>(n, m). add_recipient n m) (visits doing paid cs) []"
  unfolding collect_def fold_add_cotisation visits_def by (rule fold_add_filter)

lemma add_lot_entry:
  assumes "distinct (rc_lots r)"
  shows "\<exists>ls. add_lot n r = r\<lparr>rc_lots := ls\<rparr> \<and> distinct ls \<and> set ls = set_option n \<union> set (rc_lots r)"
  using assms by (cases n; cases r) (auto simp: add_lot_def)

lemma entry_ok_add:
  assumes "mem_id m = Some i" and "entry_ok i vs e"
  shows "entry_ok i (vs @ [(n, m)])
    (Some (add_lot n (nullish e \<lparr>rc_member = m, rc_name = recipient_name m, rc_lots = []\<rparr>)))"
proof (cases "first_visit i vs")
  case None
  with assms have "e = None" by (simp add: entry_ok_def)
  then show ?thesis
    using None assms(1) add_lot_entry [of "\<lparr>rc_member = m, rc_name = recipient_name m, rc_lots = []\<rparr>" n]
    by (auto simp: entry_ok_def first_visit_snoc visited_lots_snoc visited_lots_none)
next
  case (Some w)
  obtain k m' where w: "w = (k, m')" by (cases w)
  with Some assms(2) obtain ls where
    e: "e = Some \<lparr>rc_member = m', rc_name = recipient_name m', rc_lots = ls\<rparr>"
      "distinct ls" "set ls = visited_lots i vs"
    by (auto simp: entry_ok_def)
  with add_lot_entry [of "the e" n] Some w assms(1) show ?thesis
    by (auto simp: entry_ok_def first_visit_snoc visited_lots_snoc)
qed

lemma entry_ok_other: "mem_id m \<noteq> Some i \<Longrightarrow> entry_ok i (vs @ [(n, m)]) e = entry_ok i vs e"
  by (auto simp: entry_ok_def first_visit_snoc visited_lots_snoc split: option.split)

lemma collect_ok:
  "\<forall>(n, m) \<in> set vs. truthy_str (mem_id m) \<Longrightarrow>
     distinct (map fst (fold (\<lambda>(n, m). add_recipient n m) vs [])) \<and>
     (\<forall>i. entry_ok i vs (map_of (fold (\<lambda>(n, m). add_recipient n m) vs []) i))"
proof (induction vs rule: rev_induct)
  case Nil
  show ?case by (simp add: entry_ok_def first_visit_def)
next
  case (snoc v vs)
  obtain n m where v: "v = (n, m)" by (cases v)
  from snoc.prems v obtain i where i: "mem_id m = Some i" "i \<noteq> []" by (auto elim: truthy_strE)
  let ?acc = "fold (\<lambda>(n, m). add_recipient n m) vs []"
  have IH: "distinct (map fst ?acc)" "\<And>j. entry_ok j vs (map_of ?acc j)"
    using snoc by auto
  have "add_recipient n m ?acc = omap_set i (add_lot n (nullish (map_of ?acc i)
      \<lparr>rc_member = m, rc_name = recipient_name m, rc_lots = []\<rparr>)) ?acc"
    using i by (simp add: add_recipient_def Let_def truthy_str_def)
  then show ?case
    using IH i by (auto simp: v distinct_omap_set entry_ok_add entry_ok_other)
qed

lemma visits_truthy: "\<forall>(n, m) \<in> set (visits doing paid cs). truthy_str (mem_id m)"
  by (auto simp: visits_def)

lemma collect_entries:
  fixes doing paid cs
  defines "vs \<equiv> visits doing paid cs" and "acc \<equiv> collect doing paid cs"
  shows "distinct (map fst acc)"
    and "(i, r) \<in> set acc \<longleftrightarrow> (\<exists>n m ls. first_visit i vs = Some (n, m) \<and>
      r = \<lparr>rc_member = m, rc_name = recipient_name m, rc_lots = ls\<rparr> \<and> distinct ls \<and>
      set ls = visited_lots i vs \<and> map_of acc i = Some r)"
    and "first_visit i vs = Some (n, m) \<Longrightarrow>
      \<exists>ls. (i, \<lparr>rc_member = m, rc_name = recipient_name m, rc_lots = ls\<rparr>) \<in> set acc"
proof -
  have acc: "acc = fold (\<lambda>(n, m). add_recipient n m) vs []"
    by (simp add: acc_def vs_def collect_visits)
  have d: "distinct (map fst acc)" and e: "\<And>i. entry_ok i vs (map_of acc i)"
    using collect_ok [OF visits_truthy, of doing paid cs] by (simp_all add: acc vs_def)
  show "distinct (map fst acc)" by (rule d)
  have m: "(i, r) \<in> set acc \<longleftrightarrow> map_of acc i = Some r" for i r using d by simp
  show "(i, r) \<in> set acc \<longleftrightarrow> (\<exists>n m ls. first_visit i vs = Some (n, m) \<and>
      r = \<lparr>rc_member = m, rc_name = recipient_name m, rc_lots = ls\<rparr> \<and> distinct ls \<and>
      set ls = visited_lots i vs \<and> map_of acc i = Some r)"
    using e [of i] unfolding m by (auto simp: entry_ok_def split: option.splits)
  show "first_visit i vs = Some (n, m) \<Longrightarrow>
      \<exists>ls. (i, \<lparr>rc_member = m, rc_name = recipient_name m, rc_lots = ls\<rparr>) \<in> set acc"
    using e [of i] by (auto simp: m entry_ok_def)
qed

lemma first_visit_id: "first_visit i vs = Some (n, m) \<Longrightarrow> mem_id m = Some i"
  by (auto simp: first_visit_def find_Some_iff) (metis snd_conv)

lemma sorted_lots [simp]: "sorted (js_sort (cmp_key id) (xs :: int list))"
  using sorted_cmp_key [of id xs] by simp

lemma set_recipients_of:
  "r \<in> set (recipients_of coll acc) \<longleftrightarrow>
     (\<exists>(i, e) \<in> set acc. has_email e \<and> r = e\<lparr>rc_lots := js_sort (cmp_key id) (rc_lots e)\<rparr>)"
  by (force simp: recipients_of_def)

lemma distinct_map_js_sort: "distinct (map f (js_sort c xs)) = distinct (map f xs)"
  by (metis mset_js_sort mset_eq_imp_distinct_iff mset_map)

text \<open>Each recipient once, and exactly the members that are visited and have an address.\<close>

lemma collect_ids:
  assumes "x \<in> set (collect doing paid cs)"
  shows "mem_id (rc_member (snd x)) = Some (fst x)"
  using assms collect_entries(2) [of "fst x" "snd x" doing paid cs] by (auto dest: first_visit_id)

lemma recipients_distinct:
  "distinct (map (mem_id \<circ> rc_member) (recipients_of coll (collect doing paid cs)))"
proof -
  let ?acc = "collect doing paid cs"
  have m: "map (mem_id \<circ> rc_member) (map snd ?acc) = map Some (map fst ?acc)"
    by (simp add: collect_ids)
  have "distinct (map (mem_id \<circ> rc_member) (map snd ?acc))"
    unfolding m using collect_entries(1) [of doing paid cs]
    by (subst distinct_map) (simp add: inj_on_def)
  then show ?thesis
    by (simp add: recipients_of_def comp_def distinct_map_js_sort distinct_map_filter)
qed

lemma recipient_listed:
  fixes doing paid cs
  defines "vs \<equiv> visits doing paid cs"
  shows "r \<in> set (recipients_of coll (collect doing paid cs)) \<longleftrightarrow>
    (\<exists>i n. first_visit i vs = Some (n, rc_member r) \<and> has_email r \<and>
      rc_name r = recipient_name (rc_member r) \<and> set (rc_lots r) = visited_lots i vs \<and>
      sorted (rc_lots r) \<and> distinct (rc_lots r))" (is "_ \<longleftrightarrow> ?spec")
proof
  let ?acc = "collect doing paid cs"
  note entries = collect_entries(2) [of _ _ doing paid cs, folded vs_def]
  {
    assume "r \<in> set (recipients_of coll ?acc)"
    then obtain i e where e: "(i, e) \<in> set ?acc" "has_email e"
      "r = e\<lparr>rc_lots := js_sort (cmp_key id) (rc_lots e)\<rparr>"
      by (auto simp: set_recipients_of)
    then obtain n where "first_visit i vs = Some (n, rc_member e)"
      "rc_name e = recipient_name (rc_member e)" "distinct (rc_lots e)"
      "set (rc_lots e) = visited_lots i vs"
      using entries [of i e] by auto
    with e(2,3) show ?spec by (intro exI [of _ i] exI [of _ n]) (simp add: has_email_def)
  }
  assume ?spec
  then obtain i n where r: "first_visit i vs = Some (n, rc_member r)" "has_email r"
      "rc_name r = recipient_name (rc_member r)" "set (rc_lots r) = visited_lots i vs"
      "sorted (rc_lots r)" "distinct (rc_lots r)"
    by blast
  obtain ls where e: "(i, \<lparr>rc_member = rc_member r, rc_name = rc_name r, rc_lots = ls\<rparr>) \<in> set ?acc"
    using collect_entries(3) [of i doing paid cs, folded vs_def, OF r(1)] r(3) by auto
  with entries have "distinct ls" "set ls = visited_lots i vs" by auto
  with r have "rc_lots r = js_sort (cmp_key id) ls"
    by (intro sorted_distinct_set_unique) simp_all
  with e r(2) show "r \<in> set (recipients_of coll ?acc)"
    unfolding set_recipients_of by (intro bexI [OF _ e]) (simp add: has_email_def)
qed

text \<open>
  C39. The recipients of the e-mails are what the cotisations say. Each identifier appears once; a
  member is a recipient exactly when the first cotisation included that names it gives it an e-mail
  address, and the lots of a recipient are the numbers of all included lots that name it, each once
  and in ascending order. The list is sorted by name in the order of \<open>localeCompare\<close>.
\<close>
theorem recipients_exact:
  fixes doing paid cs coll
  defines "vs \<equiv> visits doing paid cs" and "rs \<equiv> recipients_of coll (collect doing paid cs)"
  shows "distinct (map (mem_id \<circ> rc_member) rs) \<and>
    (\<forall>r. r \<in> set rs \<longleftrightarrow>
      (\<exists>i n. first_visit i vs = Some (n, rc_member r) \<and> has_email r \<and>
        rc_name r = recipient_name (rc_member r) \<and> set (rc_lots r) = visited_lots i vs \<and>
        sorted (rc_lots r) \<and> distinct (rc_lots r))) \<and>
    (collation coll \<longrightarrow> sorted_wrt (\<lambda>a b. coll (rc_name a) (rc_name b) \<le> 0) rs)"
proof -
  have "sorted_wrt (\<lambda>a b. coll (rc_name a) (rc_name b) \<le> 0) rs" if "collation coll"
    using comparator.sorted [OF collation_comparator [OF collation_vimage [OF that, of rc_name]]]
    by (simp add: rs_def recipients_of_def sorted_wrt_map)
  then show ?thesis
    using recipients_distinct recipient_listed unfolding rs_def vs_def by blast
qed

text \<open>Two lots, of which one is settled: only the other one's members are written to.\<close>

definition sample_call :: "int \<Rightarrow> int \<Rightarrow> ModelsMember list \<Rightarrow> ModelsCotisationResult" where
  "sample_call state number members =
     \<lparr>ctr_adjustment = None, ctr_amount = None, ctr_budget = None, ctr_budget_id = None,
      ctr_created_at = None, ctr_gross_paid = None, ctr_id = None, ctr_initial_amount = None,
      ctr_paid = None, ctr_payment_state = Some state, ctr_refunded = None, ctr_remaining = None,
      ctr_unit = Some (MkModelsUnit None None None (Some members) (Some number) None None),
      ctr_unit_id = None, ctr_updated_at = None\<rparr>"

definition sample_member :: "string \<Rightarrow> string \<Rightarrow> ModelsMember" where
  "sample_member i name =
     MkModelsMember None None None (Some (i @ ''@x'')) (Some name) (Some i) None None None None"

definition sample_cotisations :: "ModelsCotisationResult list" where
  "sample_cotisations =
     [sample_call 3 9 [sample_member ''a'' ''Zoe'', sample_member ''b'' ''Ann''],
      sample_call 3 4 [sample_member ''a'' ''Zoe''],
      sample_call 1 5 [sample_member ''c'' ''Max'']]"

lemma sample_recipients:
  "map (\<lambda>r. (rc_name r, rc_lots r))
     (recipients_of (\<lambda>a b. int (of_char (hd a)) - int (of_char (hd b)))
        (collect False False sample_cotisations)) = [(''Ann'', [9]), (''Zoe'', [4, 9])]"
  by code_simp

theorem recipients_exact_witness:
  "map rc_name (recipients_of (\<lambda>a b. int (length a) - int (length b)) (collect False True [])) = [] \<and>
   distinct (map (mem_id \<circ> rc_member) (recipients_of
     (\<lambda>a b. int (of_char (hd a)) - int (of_char (hd b))) (collect False False sample_cotisations))) \<and>
   sorted_wrt (\<lambda>a b. int (of_char (hd (rc_name a))) - int (of_char (hd (rc_name b))) \<le> 0)
     (recipients_of (\<lambda>a b. int (of_char (hd a)) - int (of_char (hd b)))
       (collect False False sample_cotisations))"
proof -
  have "collation (\<lambda>a b :: string. int (of_char (hd a)) - int (of_char (hd b)))"
    by (auto simp: collation_def)
  with recipients_exact [of "\<lambda>a b. int (of_char (hd a)) - int (of_char (hd b))" False False sample_cotisations]
  show ?thesis by (simp add: collect_def recipients_of_def)
qed

subsection \<open>The form\<close>

datatype mail_operation = PreviewMessage | CreateEmails

datatype mail_problem =
    FixValues mail_operation
  | FixBeforeRefresh
  | NoBudget
  | LoadFailed
  | Outdated
  | Incomplete
  | NoAnswer
  | SessionExpired
  | NotAllowed
  | NotAvailable
  | RecipientGone
  | ValueExpected string
  | CheckTemplate mail_operation
  | TryAgain mail_operation

datatype mail_notice = PreparationDone

record mail_form =
  bm_budget :: "string option"
  bm_cotisations :: "ModelsCotisationResult list"
  bm_revision :: int
  bm_previewRevision :: int
  bm_templates :: "ModelsEmailTemplate list"
  bm_recipients :: "recipient list"
  bm_missing :: nat
  bm_ready :: bool
  bm_loading :: bool
  bm_loadError :: "mail_problem option"
  bm_error :: "mail_problem option"
  bm_previewing :: bool
  bm_creating :: bool
  bm_allowed :: bool
  bm_previewResult :: "ModelsBuiltEmail option"
  bm_previewRecipient :: "recipient option"
  bm_disabled :: bool
  bm_touched :: bool
  bm_template :: string
  bm_data :: string
  bm_editor_ok :: bool
  bm_to_doing :: bool
  bm_to_paid :: bool
  bm_previewMember :: string

definition new_mail_form :: "string option \<Rightarrow> mail_form" where
  "new_mail_form budget =
     \<lparr>bm_budget = budget, bm_cotisations = [], bm_revision = 0, bm_previewRevision = -1,
      bm_templates = [], bm_recipients = [], bm_missing = 0, bm_ready = False, bm_loading = False,
      bm_loadError = None, bm_error = None, bm_previewing = False, bm_creating = False,
      bm_allowed = False, bm_previewResult = None, bm_previewRecipient = None, bm_disabled = False,
      bm_touched = False, bm_template = [], bm_data = [CHR 123, CHR 125], bm_editor_ok = True,
      bm_to_doing = False, bm_to_paid = False, bm_previewMember = []\<rparr>"

definition selectedRecipient :: "mail_form \<Rightarrow> recipient option" where
  "selectedRecipient s =
     List.find (\<lambda>r. mem_id (rc_member r) = Some (bm_previewMember s)) (bm_recipients s)"

definition selectedTemplate :: "mail_form \<Rightarrow> ModelsEmailTemplate option" where
  "selectedTemplate s = List.find (\<lambda>t. tpl_id t = Some (bm_template s)) (bm_templates s)"

definition template_fields :: "mail_form \<Rightarrow> template_field list option" where
  "template_fields s =
     map_option (map (\<lambda>f. (tcf_name f, tcf_complex f)))
       (Option.bind (Option.bind (selectedTemplate s) tpl_custom_fields) tfd_fields)"

definition template_valid :: "mail_form \<Rightarrow> bool" where
  "template_valid s \<longleftrightarrow>
     bm_template s \<noteq> [] \<and> list_ex (\<lambda>t. tpl_id t = Some (bm_template s)) (bm_templates s)"

definition data_valid :: "mail_env \<Rightarrow> mail_form \<Rightarrow> bool" where
  "data_valid env s \<longleftrightarrow>
     bm_data s \<noteq> [] \<and> bm_editor_ok s \<and>
     validateTemplateValues (me_number env) (bm_data s) (template_fields s) = None"

definition previewMember_valid :: "mail_form \<Rightarrow> bool" where
  "previewMember_valid s \<longleftrightarrow>
     bm_previewMember s \<noteq> [] \<and>
     list_ex (\<lambda>r. mem_id (rc_member r) = Some (bm_previewMember s)) (bm_recipients s)"

definition mail_valid :: "mail_env \<Rightarrow> mail_form \<Rightarrow> bool" where
  "mail_valid env s \<longleftrightarrow>
     \<not> bm_disabled s \<and> template_valid s \<and> data_valid env s \<and> previewMember_valid s"

definition canPreview :: "mail_env \<Rightarrow> mail_form \<Rightarrow> bool" where
  "canPreview env s \<longleftrightarrow>
     bm_ready s \<and> mail_valid env s \<and> length (bm_recipients s) > 0 \<and> \<not> bm_previewing s \<and>
     \<not> bm_creating s"

definition previewCurrent :: "mail_form \<Rightarrow> bool" where
  "previewCurrent s \<longleftrightarrow> bm_previewResult s \<noteq> None \<and> bm_previewRevision s = bm_revision s"

definition canPrepare :: "mail_env \<Rightarrow> mail_form \<Rightarrow> bool" where
  "canPrepare env s \<longleftrightarrow> bm_allowed s \<and> canPreview env s \<and> previewCurrent s"

definition updateRecipients :: "mail_env \<Rightarrow> mail_form \<Rightarrow> mail_form" where
  "updateRecipients env s =
     (let members = collect (bm_to_doing s) (bm_to_paid s) (bm_cotisations s);
          s = s\<lparr>bm_missing := length (filter (Not \<circ> has_email) (map snd members)),
                bm_recipients := recipients_of (me_collate env) members\<rparr>
      in if selectedRecipient s = None
         then s\<lparr>bm_previewMember :=
                (case bm_recipients s of [] \<Rightarrow> [] | r # rs \<Rightarrow> nullish (mem_id (rc_member r)) [])\<rparr>
         else s)"

text \<open>The listener of the form's changes.\<close>

definition mail_changed :: "mail_env \<Rightarrow> mail_form \<Rightarrow> mail_form" where
  "mail_changed env s = updateRecipients env (s\<lparr>bm_revision := bm_revision s + 1\<rparr>)"

datatype mail_input =
    EditTemplate string
  | EditData string bool
  | EditorVerdict bool
  | EditDoing bool
  | EditPaid bool
  | EditMember string

fun set_control :: "mail_input \<Rightarrow> mail_form \<Rightarrow> mail_form" where
  "set_control (EditTemplate v) s = s\<lparr>bm_template := v\<rparr>"
| "set_control (EditData v ok) s = s\<lparr>bm_data := v, bm_editor_ok := ok\<rparr>"
| "set_control (EditorVerdict ok) s = s\<lparr>bm_editor_ok := ok\<rparr>"
| "set_control (EditDoing b) s = s\<lparr>bm_to_doing := b\<rparr>"
| "set_control (EditPaid b) s = s\<lparr>bm_to_paid := b\<rparr>"
| "set_control (EditMember v) s = s\<lparr>bm_previewMember := v\<rparr>"

definition mail_edit :: "mail_env \<Rightarrow> mail_input \<Rightarrow> mail_form \<Rightarrow> mail_form" where
  "mail_edit env e s = (if bm_disabled s then s else mail_changed env (set_control e s))"

definition mail_allowed :: "bool \<Rightarrow> mail_form \<Rightarrow> mail_form" where
  "mail_allowed b s = s\<lparr>bm_allowed := b\<rparr>"

definition mail_load :: "mail_env \<Rightarrow> mail_form \<Rightarrow> mail_form \<times> mail_notice ui_effect list" where
  "mail_load env s =
     (if bm_loading s \<or> bm_creating s then (s, [])
      else if bm_ready s \<and> \<not> bm_disabled s \<and> \<not> data_valid env s
      then (s\<lparr>bm_error := Some FixBeforeRefresh\<rparr>, [])
      else if \<not> truthy_str (bm_budget s) then (s\<lparr>bm_loadError := Some NoBudget\<rparr>, [])
      else (s\<lparr>bm_loading := True, bm_ready := False, bm_loadError := None, bm_error := None,
              bm_revision := bm_revision s + 1\<rparr>,
            [Send ListEmailTemplates, Send (ListCotisations (the (bm_budget s)))]))"

definition mail_loaded ::
  "mail_env \<Rightarrow> api_error + ModelsEmailTemplate list \<times> ModelsCotisationResult list \<Rightarrow>
   mail_form \<Rightarrow> mail_form" where
  "mail_loaded env r s =
     (case r of
        Inr (templates, cotisations) \<Rightarrow>
          (updateRecipients env (s\<lparr>bm_templates := templates, bm_cotisations := cotisations\<rparr>))
            \<lparr>bm_loading := False, bm_ready := True\<rparr>
      | Inl e \<Rightarrow> s\<lparr>bm_loading := False, bm_loadError := Some LoadFailed\<rparr>)"

subsection \<open>Preview and creation\<close>

definition mail_payload :: "mail_env \<Rightarrow> mail_form \<Rightarrow> SendBudgetEmailInput option" where
  "mail_payload env s =
     (case json_parse (me_number env) (bm_data s) of
        Some (JObj ms) \<Rightarrow>
          Some \<lparr>sbei_data = Some (JObj ms), sbei_send_to_doing = Some (bm_to_doing s),
                sbei_send_to_paid = Some (bm_to_paid s), sbei_template_id = Some (bm_template s)\<rparr>
      | _ \<Rightarrow> None)"

definition preview_payload :: "string \<Rightarrow> SendBudgetEmailInput \<Rightarrow> PreviewBudgetEmailInput" where
  "preview_payload member p =
     \<lparr>pbei_data = sbei_data p, pbei_member_id = Some member,
      pbei_send_to_doing = Some (sbei_send_to_doing p), pbei_send_to_paid = Some (sbei_send_to_paid p),
      pbei_template_id = sbei_template_id p\<rparr>"

definition mail_preview :: "mail_env \<Rightarrow> mail_form \<Rightarrow> mail_form \<times> mail_notice ui_effect list" where
  "mail_preview env s =
     (if \<not> canPreview env s then (s\<lparr>bm_touched := True\<rparr>, [])
      else case mail_payload env s of
          None \<Rightarrow> (s\<lparr>bm_error := Some (FixValues PreviewMessage)\<rparr>, [])
        | Some p \<Rightarrow>
            (s\<lparr>bm_previewRevision := -1, bm_previewing := True, bm_error := None\<rparr>,
             [Send (PreviewBudgetEmail (nullish (bm_budget s) [])
                (preview_payload (bm_previewMember s) p))]))"

definition not_selected :: string where
  "not_selected = ''ne fait pas partie des destinataires s'' @ [CHR 0xE9] @ ''lectionn'' @ [CHR 0xE9] @ ''s''"

definition describeError :: "mail_env \<Rightarrow> api_error \<Rightarrow> mail_operation \<Rightarrow> mail_problem" where
  "describeError env e operation =
     (if operation = CreateEmails \<and> err_status e = 0 then NoAnswer
      else if err_status e = 401 then SessionExpired
      else if err_status e = 403 then NotAllowed
      else if err_status e = 404 then NotAvailable
      else (let message = nullish (err_message e) [] in
        if str_includes message not_selected \<or> me_no_address env message then RecipientGone
        else (case missing_key message of
            Some key \<Rightarrow> ValueExpected key
          | None \<Rightarrow> if err_status e = 400 then CheckTemplate operation else TryAgain operation)))"

text \<open>The first argument is the revision the preview was asked for.\<close>

definition mail_previewed ::
  "mail_env \<Rightarrow> int \<Rightarrow> api_error + ModelsBuiltEmail option \<Rightarrow> mail_form \<Rightarrow> mail_form" where
  "mail_previewed env revision r s =
     (let s = s\<lparr>bm_previewing := False\<rparr> in
      case r of
        Inl e \<Rightarrow> s\<lparr>bm_error := Some (describeError env e PreviewMessage)\<rparr>
      | Inr result \<Rightarrow>
          if revision \<noteq> bm_revision s then s\<lparr>bm_error := Some Outdated\<rparr>
          else if Option.bind result bem_subject = None \<or> Option.bind result bem_message = None
          then s\<lparr>bm_error := Some Incomplete\<rparr>
          else s\<lparr>bm_previewResult := result, bm_previewRecipient := selectedRecipient s,
                 bm_previewRevision := revision\<rparr>)"

definition mail_submit :: "mail_env \<Rightarrow> mail_form \<Rightarrow> mail_form \<times> mail_notice ui_effect list" where
  "mail_submit env s =
     (if \<not> canPrepare env s then (s, [])
      else case mail_payload env s of
          None \<Rightarrow> (s\<lparr>bm_error := Some (FixValues CreateEmails)\<rparr>, [])
        | Some p \<Rightarrow>
            (s\<lparr>bm_creating := True, bm_disabled := True, bm_error := None\<rparr>,
             [Send (SendBudgetEmail (nullish (bm_budget s) []) p)]))"

definition mail_submitted ::
  "mail_env \<Rightarrow> api_error + unit \<Rightarrow> mail_form \<Rightarrow> mail_form \<times> mail_notice ui_effect list" where
  "mail_submitted env r s =
     (case r of
        Inr u \<Rightarrow> (s\<lparr>bm_creating := False\<rparr>, [CloseDialog True, Info PreparationDone])
      | Inl e \<Rightarrow> (s\<lparr>bm_disabled := False, bm_creating := False,
                   bm_error := Some (describeError env e CreateEmails)\<rparr>, []))"

definition mail_cancel :: "mail_form \<Rightarrow> mail_notice ui_effect list" where
  "mail_cancel s = (if bm_creating s then [] else [CloseDialog False])"

subsection \<open>The dialog and the server\<close>

text \<open>
  A dialog with the preview in flight (the revision it captured and the request) and the request
  whose answer is on display. A load is in flight exactly while \<open>loading\<close> is set and a creation while
  \<open>creating\<close> is: both are set with the request and cleared by its answer.
\<close>

record mail_run =
  mr_form :: mail_form
  mr_asked :: "(int \<times> PreviewBudgetEmailInput) option"
  mr_shown :: "PreviewBudgetEmailInput option"

definition displayed :: "mail_form \<Rightarrow> int \<Rightarrow> api_error + ModelsBuiltEmail option \<Rightarrow> bool" where
  "displayed s revision r \<longleftrightarrow>
     revision = bm_revision s \<and>
     (case r of Inl e \<Rightarrow> False
      | Inr m \<Rightarrow> Option.bind m bem_subject \<noteq> None \<and> Option.bind m bem_message \<noteq> None)"

lemma mail_previewed_result:
  "bm_previewResult (mail_previewed env revision r s) =
     (if displayed s revision r then (case r of Inr m \<Rightarrow> m | Inl e \<Rightarrow> None) else bm_previewResult s)"
  by (auto simp: mail_previewed_def displayed_def Let_def split: sum.split)

inductive mail_reach :: "mail_env \<Rightarrow> string option \<Rightarrow> mail_run \<Rightarrow> bool" for env budget where
  start: "mail_reach env budget \<lparr>mr_form = new_mail_form budget, mr_asked = None, mr_shown = None\<rparr>"
| edit: "mail_reach env budget w \<Longrightarrow>
    mail_reach env budget (w\<lparr>mr_form := mail_edit env e (mr_form w)\<rparr>)"
| allowed: "mail_reach env budget w \<Longrightarrow>
    mail_reach env budget (w\<lparr>mr_form := mail_allowed b (mr_form w)\<rparr>)"
| load: "mail_reach env budget w \<Longrightarrow>
    mail_reach env budget (w\<lparr>mr_form := fst (mail_load env (mr_form w))\<rparr>)"
| loaded: "mail_reach env budget w \<Longrightarrow> bm_loading (mr_form w) \<Longrightarrow>
    mail_reach env budget (w\<lparr>mr_form := mail_loaded env l (mr_form w)\<rparr>)"
| preview: "mail_reach env budget w \<Longrightarrow> mail_preview env (mr_form w) = (s, [Send (PreviewBudgetEmail i p)]) \<Longrightarrow>
    mail_reach env budget (w\<lparr>mr_form := s, mr_asked := Some (bm_revision s, p)\<rparr>)"
| refused: "mail_reach env budget w \<Longrightarrow> mail_preview env (mr_form w) = (s, []) \<Longrightarrow>
    mail_reach env budget (w\<lparr>mr_form := s\<rparr>)"
| previewed: "mail_reach env budget w \<Longrightarrow> mr_asked w = Some (revision, p) \<Longrightarrow>
    mail_reach env budget \<lparr>mr_form = mail_previewed env revision r (mr_form w), mr_asked = None,
      mr_shown = (if displayed (mr_form w) revision r then Some p else mr_shown w)\<rparr>"
| submit: "mail_reach env budget w \<Longrightarrow>
    mail_reach env budget (w\<lparr>mr_form := fst (mail_submit env (mr_form w))\<rparr>)"
| submitted: "mail_reach env budget w \<Longrightarrow> bm_creating (mr_form w) \<Longrightarrow>
    mail_reach env budget (w\<lparr>mr_form := fst (mail_submitted env c (mr_form w))\<rparr>)"

text \<open>A preview request that says what the form says.\<close>

definition says :: "mail_env \<Rightarrow> mail_form \<Rightarrow> PreviewBudgetEmailInput \<Rightarrow> bool" where
  "says env s p \<longleftrightarrow> (\<exists>q. mail_payload env s = Some q \<and> p = preview_payload (bm_previewMember s) q)"

definition listed :: "mail_env \<Rightarrow> mail_form \<Rightarrow> bool" where
  "listed env s \<longleftrightarrow> bm_recipients s =
     recipients_of (me_collate env) (collect (bm_to_doing s) (bm_to_paid s) (bm_cotisations s))"

definition mail_inv :: "mail_env \<Rightarrow> string option \<Rightarrow> mail_run \<Rightarrow> bool" where
  "mail_inv env budget w \<longleftrightarrow>
     (let s = mr_form w in
      bm_budget s = budget \<and> 0 \<le> bm_revision s \<and> listed env s \<and>
      (bm_loading s \<longrightarrow> \<not> bm_ready s) \<and>
      (case mr_asked w of
         None \<Rightarrow> True
       | Some (r, p) \<Rightarrow> r \<le> bm_revision s \<and> (r = bm_revision s \<longrightarrow> bm_ready s \<and> says env s p)) \<and>
      bm_previewRevision s \<le> bm_revision s \<and>
      (bm_previewRevision s = bm_revision s \<longrightarrow>
         bm_ready s \<and> (\<exists>p. mr_shown w = Some p \<and> says env s p)))"

lemma updateRecipients_fields [simp]:
  "bm_budget (updateRecipients env s) = bm_budget s"
  "bm_revision (updateRecipients env s) = bm_revision s"
  "bm_previewRevision (updateRecipients env s) = bm_previewRevision s"
  "bm_ready (updateRecipients env s) = bm_ready s"
  "bm_loading (updateRecipients env s) = bm_loading s"
  "bm_to_doing (updateRecipients env s) = bm_to_doing s"
  "bm_to_paid (updateRecipients env s) = bm_to_paid s"
  "bm_cotisations (updateRecipients env s) = bm_cotisations s"
  "bm_recipients (updateRecipients env s) =
     recipients_of (me_collate env) (collect (bm_to_doing s) (bm_to_paid s) (bm_cotisations s))"
  by (simp_all add: updateRecipients_def Let_def)

lemma set_control_fields [simp]:
  "bm_budget (set_control e s) = bm_budget s"
  "bm_revision (set_control e s) = bm_revision s"
  "bm_previewRevision (set_control e s) = bm_previewRevision s"
  "bm_ready (set_control e s) = bm_ready s"
  "bm_loading (set_control e s) = bm_loading s"
  by (cases e; simp)+

text \<open>What the form says is untouched by the flags of its requests.\<close>

lemma says_cong:
  "bm_data t = bm_data s \<Longrightarrow> bm_to_doing t = bm_to_doing s \<Longrightarrow> bm_to_paid t = bm_to_paid s \<Longrightarrow>
   bm_template t = bm_template s \<Longrightarrow> bm_previewMember t = bm_previewMember s \<Longrightarrow>
   says env t p = says env s p"
  by (simp add: says_def mail_payload_def cong: option.case_cong json.case_cong)

definition same_message :: "mail_form \<Rightarrow> mail_form \<Rightarrow> bool" where
  "same_message t s \<longleftrightarrow>
     bm_data t = bm_data s \<and> bm_to_doing t = bm_to_doing s \<and> bm_to_paid t = bm_to_paid s \<and>
     bm_template t = bm_template s \<and> bm_previewMember t = bm_previewMember s \<and>
     bm_budget t = bm_budget s \<and> bm_revision t = bm_revision s \<and> bm_ready t = bm_ready s \<and>
     bm_loading t = bm_loading s \<and> bm_cotisations t = bm_cotisations s \<and>
     bm_recipients t = bm_recipients s"

lemma says_same: "same_message t s \<Longrightarrow> says env t p = says env s p"
  by (rule says_cong) (simp_all add: same_message_def)

lemma mail_inv_same:
  assumes "mail_inv env budget w" and "same_message t (mr_form w)"
    and "bm_previewRevision t = bm_previewRevision (mr_form w)"
  shows "mail_inv env budget (w\<lparr>mr_form := t\<rparr>)"
  using assms(1,3) assms(2)[unfolded same_message_def] says_same [OF assms(2)]
  by (auto simp: mail_inv_def Let_def listed_def split: option.splits)

lemma mail_inv_later:
  assumes "mail_inv env budget w" and "bm_revision (mr_form w) < bm_revision t"
    and "bm_budget t = bm_budget (mr_form w)" and "listed env t" and "bm_loading t \<longrightarrow> \<not> bm_ready t"
    and "bm_previewRevision t = bm_previewRevision (mr_form w)"
  shows "mail_inv env budget (w\<lparr>mr_form := t\<rparr>)"
  using assms by (auto simp: mail_inv_def Let_def split: option.splits)

lemma mail_inv_fields:
  assumes "mail_inv env budget w"
  shows "listed env (mr_form w)" and "bm_loading (mr_form w) \<longrightarrow> \<not> bm_ready (mr_form w)"
    and "0 \<le> bm_revision (mr_form w)"
  using assms by (simp_all add: mail_inv_def Let_def)

lemma mail_inv_edit:
  assumes "mail_inv env budget w"
  shows "mail_inv env budget (w\<lparr>mr_form := mail_edit env e (mr_form w)\<rparr>)"
proof (cases "bm_disabled (mr_form w)")
  case False
  then show ?thesis
    using assms mail_inv_fields [OF assms]
    by (intro mail_inv_later) (simp_all add: mail_edit_def mail_changed_def listed_def)
qed (simp add: mail_edit_def assms)

lemma mail_inv_load:
  assumes "mail_inv env budget w"
  shows "mail_inv env budget (w\<lparr>mr_form := fst (mail_load env (mr_form w))\<rparr>)"
proof (cases "bm_revision (fst (mail_load env (mr_form w))) = bm_revision (mr_form w)")
  case True
  then show ?thesis
    using assms by (intro mail_inv_same) (auto simp: mail_load_def same_message_def split: if_splits)
next
  case False
  then show ?thesis
    using assms mail_inv_fields [OF assms]
    by (intro mail_inv_later) (auto simp: mail_load_def listed_def split: if_splits)
qed

lemma mail_inv_loaded:
  assumes "mail_inv env budget w" and "bm_loading (mr_form w)"
  shows "mail_inv env budget (w\<lparr>mr_form := mail_loaded env l (mr_form w)\<rparr>)"
  using assms
  by (auto simp: mail_inv_def Let_def mail_loaded_def listed_def split: sum.splits option.splits)

lemma mail_inv_preview:
  assumes "mail_inv env budget w"
    and "mail_preview env (mr_form w) = (s, [Send (PreviewBudgetEmail i p)])"
  shows "mail_inv env budget (w\<lparr>mr_form := s, mr_asked := Some (bm_revision s, p)\<rparr>)"
proof -
  have c: "canPreview env (mr_form w)"
    using assms(2) by (auto simp: mail_preview_def split: if_splits)
  then obtain q where q: "mail_payload env (mr_form w) = Some q"
      "p = preview_payload (bm_previewMember (mr_form w)) q"
      "s = (mr_form w)\<lparr>bm_previewRevision := -1, bm_previewing := True, bm_error := None\<rparr>"
    using assms(2) by (auto simp: mail_preview_def split: option.splits)
  then have "says env (mr_form w) p" by (auto simp: says_def)
  then have "says env s p" by (subst says_cong [of s "mr_form w"]) (simp_all add: q(3))
  then show ?thesis
    using assms(1) c q(3) by (auto simp: mail_inv_def Let_def listed_def canPreview_def)
qed

lemma mail_inv_previewed:
  assumes "mail_inv env budget w" and "mr_asked w = Some (revision, p)"
  shows "mail_inv env budget \<lparr>mr_form = mail_previewed env revision r (mr_form w), mr_asked = None,
      mr_shown = (if displayed (mr_form w) revision r then Some p else mr_shown w)\<rparr>"
proof -
  let ?t = "mail_previewed env revision r (mr_form w)"
  have same: "same_message ?t (mr_form w)"
    by (auto simp: mail_previewed_def same_message_def Let_def split: sum.split)
  have rev: "bm_previewRevision ?t =
      (if displayed (mr_form w) revision r then revision else bm_previewRevision (mr_form w))"
    by (auto simp: mail_previewed_def displayed_def Let_def split: sum.split)
  show ?thesis
    using assms same [unfolded same_message_def] rev says_same [OF same]
    by (auto simp: mail_inv_def Let_def listed_def displayed_def)
qed

lemma mail_reach_inv: "mail_reach env budget w \<Longrightarrow> mail_inv env budget w"
proof (induction rule: mail_reach.induct)
  case start
  show ?case
    by (simp add: mail_inv_def Let_def new_mail_form_def listed_def recipients_of_def collect_def)
next
  case (preview w s i p)
  then show ?case by (intro mail_inv_preview)
next
  case (allowed w b)
  show ?case
    by (rule mail_inv_same [OF allowed.IH]) (simp_all add: mail_allowed_def same_message_def)
next
  case (refused w s)
  show ?case
    using refused.hyps(2)
    by (intro mail_inv_same [OF refused.IH])
      (auto simp: mail_preview_def same_message_def split: if_splits option.splits)
next
  case (submit w)
  show ?case
    by (rule mail_inv_same [OF submit.IH])
      (auto simp: mail_submit_def same_message_def split: option.split)
next
  case (submitted w c)
  show ?case
    by (rule mail_inv_same [OF submitted.IH])
      (auto simp: mail_submitted_def same_message_def split: sum.split)
qed (simp_all add: mail_inv_edit mail_inv_load mail_inv_loaded mail_inv_previewed)

lemma data_valid_payload: "data_valid env s \<Longrightarrow> \<exists>p. mail_payload env s = Some p"
  by (auto simp: data_valid_def validateTemplateValues_def mail_payload_def
      split: option.splits json.splits)

text \<open>
  C38. What is created is what was previewed. Whenever the dialog lets the user create the e-mails,
  doing so sends one request, for the budget of the dialog; template, values and both flags are those
  of the request whose answer is the preview on display, that preview was asked for one of the
  recipients listed, and the list is the one these flags give. In every other state submitting sends
  nothing.
\<close>
theorem created_as_previewed:
  assumes "mail_reach env budget w"
  defines "s \<equiv> mr_form w"
  shows "(canPrepare env s \<longrightarrow>
      (\<exists>m p. mr_shown w = Some (preview_payload m p) \<and>
        sends (snd (mail_submit env s)) = [SendBudgetEmail (nullish budget []) p] \<and>
        Some m \<in> mem_id ` rc_member ` set (bm_recipients s) \<and>
        (\<exists>doing paid. sbei_send_to_doing p = Some doing \<and> sbei_send_to_paid p = Some paid \<and>
          bm_recipients s = recipients_of (me_collate env) (collect doing paid (bm_cotisations s))))) \<and>
    (\<not> canPrepare env s \<longrightarrow> sends (snd (mail_submit env s)) = [])"
proof -
  have inv: "mail_inv env budget w" using assms(1) by (rule mail_reach_inv)
  show ?thesis
  proof (cases "canPrepare env s")
    case True
    then have c: "canPreview env s" "previewCurrent s" by (simp_all add: canPrepare_def)
    then obtain p where p: "mail_payload env s = Some p"
      using data_valid_payload by (auto simp: canPreview_def mail_valid_def)
    have "mr_shown w = Some (preview_payload (bm_previewMember s) p)"
      using inv c(2) p by (auto simp: mail_inv_def Let_def previewCurrent_def says_def s_def)
    moreover have "sends (snd (mail_submit env s)) = [SendBudgetEmail (nullish budget []) p]"
      using inv True p by (simp add: mail_submit_def mail_inv_def Let_def s_def)
    moreover have "Some (bm_previewMember s) \<in> mem_id ` rc_member ` set (bm_recipients s)"
      using c(1) by (force simp: canPreview_def mail_valid_def previewMember_valid_def list_ex_iff)
    moreover have "sbei_send_to_doing p = Some (bm_to_doing s)" "sbei_send_to_paid p = Some (bm_to_paid s)"
      using p by (auto simp: mail_payload_def split: option.splits json.splits)
    moreover have "listed env s" using mail_inv_fields(1) [OF inv] by (simp add: s_def)
    ultimately show ?thesis using True unfolding listed_def by blast
  qed (simp add: mail_submit_def)
qed

text \<open>A dialog that loads one template and one cotisation, and previews the message.\<close>

definition sample_mail_env :: mail_env where
  "sample_mail_env = \<lparr>me_number = (\<lambda>s. NaN), me_collate = (\<lambda>a b. int (length a) - int (length b)),
     me_no_address = (\<lambda>m. False)\<rparr>"

definition sample_template :: ModelsEmailTemplate where
  "sample_template = MkModelsEmailTemplate None None None None (Some ''t'') None None None None"

definition mail_chosen :: mail_form where
  "mail_chosen =
     mail_edit sample_mail_env (EditTemplate ''t'')
       (mail_loaded sample_mail_env (Inr ([sample_template], sample_cotisations))
         (fst (mail_load sample_mail_env (mail_allowed True (new_mail_form (Some ''b''))))))"

definition sample_message :: "api_error + ModelsBuiltEmail option" where
  "sample_message = Inr (Some \<lparr>bem_message = Some ''m'', bem_subject = Some ''s''\<rparr>)"

definition sample_mail :: SendBudgetEmailInput where
  "sample_mail = \<lparr>sbei_data = Some (JObj []), sbei_send_to_doing = Some False,
     sbei_send_to_paid = Some False, sbei_template_id = Some ''t''\<rparr>"

lemma chosen_facts:
  "canPreview sample_mail_env mail_chosen" "mail_payload sample_mail_env mail_chosen = Some sample_mail"
  "bm_budget mail_chosen = Some ''b''"
  by code_simp+

lemma chosen_reach:
  "mail_reach sample_mail_env (Some ''b'') \<lparr>mr_form = mail_chosen, mr_asked = None, mr_shown = None\<rparr>"
proof -
  let ?r = "mail_reach sample_mail_env (Some ''b'')"
  let ?w = "\<lambda>s. \<lparr>mr_form = s, mr_asked = None, mr_shown = None\<rparr>"
  have "?r (?w (new_mail_form (Some ''b'')))" by (rule mail_reach.start)
  from mail_reach.load [OF mail_reach.allowed [OF this, of True]]
  have l: "?r (?w (fst (mail_load sample_mail_env (mail_allowed True (new_mail_form (Some ''b''))))))"
    by simp
  have b: "bm_loading (fst (mail_load sample_mail_env (mail_allowed True (new_mail_form (Some ''b'')))))"
    by (simp add: mail_load_def mail_allowed_def new_mail_form_def)
  from mail_reach.edit [OF mail_reach.loaded [OF l, simplified, OF b]]
  show ?thesis unfolding mail_chosen_def by simp
qed

theorem created_as_previewed_witness:
  "\<exists>w m. mail_reach sample_mail_env (Some ''b'') w \<and> canPrepare sample_mail_env (mr_form w) \<and>
     mr_shown w = Some (preview_payload m sample_mail) \<and>
     sends (snd (mail_submit sample_mail_env (mr_form w))) = [SendBudgetEmail ''b'' sample_mail]"
proof -
  let ?e = sample_mail_env
  let ?s = "fst (mail_preview ?e mail_chosen)"
  let ?p = "preview_payload (bm_previewMember mail_chosen) sample_mail"
  let ?w = "\<lparr>mr_form = mail_chosen, mr_asked = None, mr_shown = None\<rparr>"
  have m: "mail_preview ?e (mr_form ?w) = (?s, [Send (PreviewBudgetEmail ''b'' ?p)])"
    by (simp add: mail_preview_def chosen_facts)
  define w where "w = \<lparr>mr_form = mail_previewed ?e (bm_revision ?s) sample_message ?s, mr_asked = None,
    mr_shown = (if displayed ?s (bm_revision ?s) sample_message then Some ?p else None)\<rparr>"
  have w: "mail_reach ?e (Some ''b'') w" "mr_form w = mail_previewed ?e (bm_revision ?s) sample_message ?s"
    using mail_reach.previewed [OF mail_reach.preview [OF chosen_reach m],
        where r = sample_message and revision = "bm_revision ?s" and p = ?p]
    by (simp_all add: w_def split del: if_split cong: if_cong)
  have c: "canPrepare ?e (mr_form w)" and p: "mail_payload ?e (mr_form w) = Some sample_mail"
    unfolding w(2) by code_simp+
  from c p have "sends (snd (mail_submit ?e (mr_form w))) = [SendBudgetEmail (nullish (bm_budget (mr_form w)) []) sample_mail]"
    by (simp add: mail_submit_def)
  with created_as_previewed [OF w(1)] w(1) c show ?thesis by auto
qed

subsection \<open>Errors\<close>

text \<open>What the user and the page can try while a creation is in flight.\<close>

datatype mail_attempt = TryEdit mail_input | TryLoad | TryPreview | TrySubmit

fun mail_try :: "mail_env \<Rightarrow> mail_attempt \<Rightarrow> mail_form \<Rightarrow> mail_form \<times> mail_notice ui_effect list" where
  "mail_try env (TryEdit e) s = (mail_edit env e s, [])"
| "mail_try env TryLoad s = mail_load env s"
| "mail_try env TryPreview s = mail_preview env s"
| "mail_try env TrySubmit s = mail_submit env s"

fun mail_tries :: "mail_env \<Rightarrow> mail_attempt list \<Rightarrow> mail_form \<Rightarrow> mail_form \<times> mail_notice ui_effect list" where
  "mail_tries env [] s = (s, [])"
| "mail_tries env (a # as) s =
     (let (s, out) = mail_try env a s; (s, out') = mail_tries env as s in (s, out @ out'))"

lemma tries_while_creating:
  "bm_creating s \<Longrightarrow> bm_disabled s \<Longrightarrow>
   \<exists>b. mail_tries env as s = (s\<lparr>bm_touched := b\<rparr>, [])"
proof (induction "as" arbitrary: s)
  case Nil
  show ?case by (intro exI [of _ "bm_touched s"]) simp
next
  case (Cons a "as")
  obtain b where a: "mail_try env a s = (s\<lparr>bm_touched := b\<rparr>, [])"
  proof (cases a)
    case TryPreview
    with Cons.prems that show ?thesis by (simp add: mail_preview_def canPreview_def)
  qed (use Cons.prems that [of "bm_touched s"] in
    \<open>simp_all add: mail_edit_def mail_load_def mail_submit_def canPrepare_def canPreview_def\<close>)
  obtain c where "mail_tries env as (s\<lparr>bm_touched := b\<rparr>) = (s\<lparr>bm_touched := b, bm_touched := c\<rparr>, [])"
    using Cons.IH [of "s\<lparr>bm_touched := b\<rparr>"] Cons.prems by auto
  with a show ?case by auto
qed

lemma canPrepare_flags [simp]:
  "canPrepare env (s\<lparr>bm_touched := b, bm_error := e\<rparr>) = canPrepare env s"
  "mail_payload env (s\<lparr>bm_touched := b, bm_error := e\<rparr>) = mail_payload env s"
  by (simp_all add: canPrepare_def canPreview_def mail_valid_def template_valid_def data_valid_def
    template_fields_def selectedTemplate_def previewMember_valid_def previewCurrent_def mail_payload_def
    cong: option.case_cong json.case_cong)

text \<open>
  C9. A creation that fails loses nothing. From a form that can be submitted, whatever the user and the
  page try while the request is in flight (edits, reloads, previews, further submissions) sends
  nothing, and cancelling does not close the dialog; when the request then fails, the dialog stays
  open with the form as it was submitted (but for the marks of touched controls) and a message for
  the error, the preview still counts, and submitting again sends the same request. The message says
  that no answer arrived exactly when the error has status 0.
\<close>
theorem failed_creation_keeps_form:
  assumes "canPrepare env s" and "mail_tries env attempts (fst (mail_submit env s)) = (t, out)"
  shows "out = [] \<and> mail_cancel t = [] \<and>
    (let (u, out') = mail_submitted env (Inl e) t
     in out' = [] \<and>
        u = s\<lparr>bm_touched := bm_touched u, bm_error := Some (describeError env e CreateEmails)\<rparr> \<and>
        canPrepare env u \<and>
        sends (snd (mail_submit env u)) = sends (snd (mail_submit env s)) \<and>
        length (sends (snd (mail_submit env s))) = 1 \<and>
        (bm_error u = Some NoAnswer \<longleftrightarrow> err_status e = 0))"
proof -
  have idle: "\<not> bm_disabled s" "\<not> bm_creating s"
    using assms(1) by (simp_all add: canPrepare_def canPreview_def mail_valid_def)
  obtain p where p: "mail_payload env s = Some p"
    using assms(1) data_valid_payload by (auto simp: canPrepare_def canPreview_def mail_valid_def)
  let ?busy = "s\<lparr>bm_creating := True, bm_disabled := True, bm_error := None\<rparr>"
  have "fst (mail_submit env s) = ?busy" using assms(1) p by (simp add: mail_submit_def)
  with tries_while_creating [of ?busy env attempts] assms(2)
  obtain b where t: "t = ?busy\<lparr>bm_touched := b\<rparr>" "out = []" by auto
  have u: "mail_submitted env (Inl e) t =
      (s\<lparr>bm_touched := b, bm_error := Some (describeError env e CreateEmails)\<rparr>, [])"
    unfolding t using idle by (cases s) (simp add: mail_submitted_def)
  have "describeError env e CreateEmails = NoAnswer \<longleftrightarrow> err_status e = 0"
    by (auto simp: describeError_def Let_def split: option.split)
  then show ?thesis
    unfolding u using assms(1) p t by (simp add: mail_cancel_def mail_submit_def)
qed

theorem failed_creation_keeps_form_witness:
  "let env = sample_mail_env;
       s = mail_previewed env 2 sample_message (fst (mail_preview env mail_chosen));
       e = \<lparr>err_message = None, err_status = 0, err_statusText = []\<rparr>;
       u = fst (mail_submitted env (Inl e) (fst (mail_tries env [TryLoad, TrySubmit] (fst (mail_submit env s)))))
   in canPrepare env u \<and> bm_error u = Some NoAnswer \<and>
      sends (snd (mail_submit env u)) = [SendBudgetEmail ''b'' sample_mail]"
proof -
  let ?e = sample_mail_env
  let ?s = "mail_previewed ?e 2 sample_message (fst (mail_preview ?e mail_chosen))"
  let ?x = "\<lparr>err_message = None, err_status = 0, err_statusText = []\<rparr> :: api_error"
  have c: "canPrepare ?e ?s" and p: "mail_payload ?e ?s = Some sample_mail" and b: "bm_budget ?s = Some ''b''"
    by code_simp+
  obtain t out where t: "mail_tries ?e [TryLoad, TrySubmit] (fst (mail_submit ?e ?s)) = (t, out)"
    by fastforce
  from c p b have "sends (snd (mail_submit ?e ?s)) = [SendBudgetEmail ''b'' sample_mail]"
    by (simp add: mail_submit_def)
  with failed_creation_keeps_form [OF c t, of ?x] t show ?thesis
    by (auto simp: Let_def split_beta)
qed

end
