(* ===== verification/Tour.thy ===== *)
theory Tour
  imports Data_Sources Auth Js_Text
begin

text \<open>
  \<open>tour/\<close>: the service that loads the guided tour of the account and its progress, the page that
  walks through the chapters, the invitation and the exercises of the examples. A request in flight is
  a ticket; a cancelled request has none, so that its answer changes nothing. The effect of the page
  runs after every event, as Angular schedules it.
\<close>

subsection \<open>\<open>TourService\<close>\<close>

record tour_service =
  ts_user :: "AuthUser option option"
  ts_account :: string
  ts_generation :: int
  ts_state :: "TourState option"
  ts_loading :: bool
  ts_error :: bool
  ts_dismissed :: bool
  ts_active :: "nat option"
  ts_next :: nat

definition new_tour :: tour_service where
  "new_tour =
     \<lparr>ts_user = None, ts_account = [], ts_generation = 0, ts_state = None, ts_loading = False,
      ts_error = False, ts_dismissed = False, ts_active = None, ts_next = 0\<rparr>"

definition step_seen :: "TourStep \<Rightarrow> bool" where
  "step_seen s \<longleftrightarrow> nullish (tsp_seen_revision s) 0 \<ge> nullish (tsp_revision s) 1"

definition tour_steps :: "tour_service \<Rightarrow> TourStep list" where
  "tour_steps s = nullish (Option.bind (ts_state s) tst_steps) []"

definition pending_steps :: "tour_service \<Rightarrow> TourStep list" where
  "pending_steps s = filter (Not \<circ> step_seen) (tour_steps s)"

definition offer :: "tour_service \<Rightarrow> bool" where
  "offer s \<longleftrightarrow> ts_state s \<noteq> None \<and> length (pending_steps s) > 0 \<and> \<not> ts_dismissed s"

definition same_account :: "AuthUser option \<Rightarrow> AuthUser option \<Rightarrow> bool" where
  "same_account a b \<longleftrightarrow>
     Option.bind a usr_id = Option.bind b usr_id \<and>
     Option.bind a usr_enabled = Option.bind b usr_enabled \<and>
     Option.bind a usr_admin = Option.bind b usr_admin \<and>
     Option.bind a usr_actions = Option.bind b usr_actions"

text \<open>A fetch replaces the one in flight and starts a new generation.\<close>

definition tour_start :: "tour_service \<Rightarrow> tour_service" where
  "tour_start s =
     s\<lparr>ts_loading := True, ts_error := False, ts_generation := ts_generation s + 1,
       ts_active := Some (ts_next s), ts_next := Suc (ts_next s)\<rparr>"

definition tour_user :: "AuthUser option \<Rightarrow> tour_service \<Rightarrow> tour_service \<times> api_call list" where
  "tour_user u s =
     (if (case ts_user s of None \<Rightarrow> False | Some v \<Rightarrow> same_account v u) then (s, [])
      else (let s = s\<lparr>ts_user := Some u, ts_state := None, ts_dismissed := False\<rparr> in
        if user_enabled u
        then (tour_start (s\<lparr>ts_account := nullish (Option.bind u usr_id) []\<rparr>), [GetTour])
        else (s\<lparr>ts_account := [], ts_error := False, ts_loading := False,
                ts_generation := ts_generation s + 1, ts_active := None\<rparr>, [])))"

definition tour_reload :: "tour_service \<Rightarrow> tour_service \<times> api_call list" where
  "tour_reload s =
     (if ts_account s = [] \<or> ts_loading s then (s, []) else (tour_start s, [GetTour]))"

definition tour_deliver ::
  "tour_service \<Rightarrow> nat \<Rightarrow> api_error + TourState option \<Rightarrow> tour_service" where
  "tour_deliver s t r =
     (if ts_active s \<noteq> Some t then s
      else (case r of
          Inl e \<Rightarrow> s\<lparr>ts_error := True, ts_state := None, ts_loading := False, ts_active := None\<rparr>
        | Inr state \<Rightarrow> s\<lparr>ts_state := state, ts_loading := False, ts_active := None\<rparr>))"

definition seen_request :: "tour_service \<Rightarrow> TourStep \<Rightarrow> ViewTourStepInput" where
  "seen_request s step =
     \<lparr>vtsi_revision = tsp_revision step, vtsi_step_id = tsp_id step,
      vtsi_version = Option.bind (ts_state s) tst_version\<rparr>"

definition tour_dismiss :: "tour_service \<Rightarrow> tour_service" where
  "tour_dismiss s = s\<lparr>ts_dismissed := True\<rparr>"

text \<open>The tour on display is the answer to the latest fetch: no answer for another account stays.\<close>

definition tour_view :: "tour_service \<Rightarrow> TourState option \<times> bool \<times> bool" where
  "tour_view s = (ts_state s, ts_error s, ts_loading s)"

definition tour_rendered :: "api_error + TourState option \<Rightarrow> TourState option \<times> bool \<times> bool" where
  "tour_rendered r = (case r of Inl e \<Rightarrow> (None, True, False) | Inr state \<Rightarrow> (state, False, False))"

definition tour_inv :: "tour_service \<Rightarrow> bool" where
  "tour_inv s \<longleftrightarrow> (ts_active s \<noteq> None \<longrightarrow> ts_loading s \<and> \<not> ts_error s)"

interpretation tour: latest_source tour_start tour_deliver ts_active ts_next tour_view tour_rendered tour_inv
  by unfold_locales
    (auto simp: tour_start_def tour_deliver_def tour_view_def tour_rendered_def tour_inv_def
      split: sum.split)

lemma tour_user_inv:
  assumes "tour_inv s"
  shows "tour_inv (fst (tour_user u s))"
  using assms
  by (auto simp: tour_user_def tour_start_def tour_inv_def Let_def split: option.splits)

lemma reload_idle:
  assumes "tour_inv s" and "snd (tour_reload s) \<noteq> []"
  shows "ts_active s = None" and "ts_active (fst (tour_reload s)) = Some (ts_next s)"
  using assms by (auto simp: tour_reload_def tour_inv_def tour_start_def split: if_splits)

subsection \<open>\<open>TourComponent\<close>\<close>

datatype tour_problem = TourChanged | ProgressNotSaved

record tour_page =
  tp_service :: tour_service
  tp_mode :: string
  tp_ids :: "string option list option"
  tp_index :: nat
  tp_finished :: bool
  tp_saving :: bool
  tp_saveError :: "tour_problem option"
  tp_generation :: int
  tp_active :: "nat option"
  tp_next :: nat

definition chapters :: "tour_page \<Rightarrow> TourStep list" where
  "chapters p =
     List.map_filter (\<lambda>i. List.find (\<lambda>s. tsp_id s = i) (tour_steps (tp_service p)))
       (nullish (tp_ids p) [])"

definition current :: "tour_page \<Rightarrow> TourStep option" where
  "current p = (if tp_index p < length (chapters p) then Some (chapters p ! tp_index p) else None)"

text \<open>The subscription to \<open>seen\<close> ends with \<open>saving\<close> off, however it ends.\<close>

definition end_saving :: "tour_page \<Rightarrow> tour_page" where
  "end_saving p = p\<lparr>tp_saving := False, tp_active := None\<rparr>"

definition resetSession :: "tour_page \<Rightarrow> tour_page" where
  "resetSession p =
     (end_saving p)\<lparr>tp_ids := None, tp_index := 0, tp_finished := False, tp_saveError := None\<rparr>"

definition tour_effect :: "tour_page \<Rightarrow> tour_page" where
  "tour_effect p =
     (let s = tp_service p;
          p = (if ts_generation s \<noteq> tp_generation p
               then resetSession (p\<lparr>tp_generation := ts_generation s\<rparr>) else p);
          p = (if ts_state s \<noteq> None \<and> \<not> ts_loading s \<and> tp_ids p = None
               then p\<lparr>tp_ids := Some (map tsp_id (if tp_mode p = ''all'' then tour_steps s else pending_steps s))\<rparr>
               else p)
      in if tp_index p \<ge> length (chapters p) then p\<lparr>tp_index := length (chapters p) - 1\<rparr> else p)"

definition new_page :: "tour_service \<Rightarrow> tour_page" where
  "new_page s =
     \<lparr>tp_service = s, tp_mode = ''updates'', tp_ids = None, tp_index = 0, tp_finished = False,
      tp_saving = False, tp_saveError = None, tp_generation = -1, tp_active = None, tp_next = 0\<rparr>"

definition page_mode :: "string option \<Rightarrow> tour_page \<Rightarrow> tour_page" where
  "page_mode m p =
     resetSession (p\<lparr>tp_mode := (if m = Some ''all'' then ''all'' else ''updates'')\<rparr>)"

definition previous :: "tour_page \<Rightarrow> tour_page" where
  "previous p =
     (if \<not> tp_saving p \<and> tp_index p > 0
      then p\<lparr>tp_index := tp_index p - 1, tp_saveError := None\<rparr> else p)"

definition advance :: "tour_page \<Rightarrow> tour_page" where
  "advance p =
     (if tp_index p + 1 < length (chapters p) then p\<lparr>tp_index := tp_index p + 1\<rparr>
      else p\<lparr>tp_finished := True\<rparr>)"

definition next_step :: "tour_page \<Rightarrow> tour_page \<times> api_call list" where
  "next_step p =
     (case current p of
        None \<Rightarrow> (p, [])
      | Some step \<Rightarrow>
          if tp_saving p then (p, [])
          else if step_seen step then (advance (p\<lparr>tp_saveError := None\<rparr>), [])
          else (p\<lparr>tp_saveError := None, tp_saving := True, tp_active := Some (tp_next p),
                  tp_next := Suc (tp_next p)\<rparr>,
                [ViewTourStep (seen_request (tp_service p) step)]))"

definition set_tour_state :: "TourState option \<Rightarrow> tour_page \<Rightarrow> tour_page" where
  "set_tour_state st p = p\<lparr>tp_service := (tp_service p)\<lparr>ts_state := st\<rparr>\<rparr>"

definition seen_answer :: "nat \<Rightarrow> api_error + TourState option \<Rightarrow> tour_page \<Rightarrow> tour_page" where
  "seen_answer t r p =
     (if tp_active p \<noteq> Some t then p
      else end_saving
        (case r of
           Inr st \<Rightarrow> advance (set_tour_state st p)
         | Inl e \<Rightarrow> p\<lparr>tp_saveError := Some (if err_status e = 409 then TourChanged else ProgressNotSaved)\<rparr>))"

text \<open>\<open>accountChanged\<close> ends a subscription to \<open>seen\<close>: a new account does, and so does a reload.\<close>

definition page_service :: "tour_service \<times> api_call list \<Rightarrow> tour_page \<Rightarrow> tour_page" where
  "page_service sc p =
     (if ts_generation (fst sc) \<noteq> ts_generation (tp_service p)
      then (end_saving p)\<lparr>tp_service := fst sc\<rparr> else p\<lparr>tp_service := fst sc\<rparr>)"

datatype tour_input =
    UserChanged "AuthUser option"
  | Fetched nat "api_error + TourState option"
  | Reload
  | Dismiss
  | Mode "string option"
  | Previous
  | Next
  | SeenAnswer nat "api_error + TourState option"

fun tour_handle :: "tour_input \<Rightarrow> tour_page \<Rightarrow> tour_page" where
  "tour_handle (UserChanged u) p = page_service (tour_user u (tp_service p)) p"
| "tour_handle (Fetched t r) p = p\<lparr>tp_service := tour_deliver (tp_service p) t r\<rparr>"
| "tour_handle Reload p = page_service (tour_reload (tp_service p)) p"
| "tour_handle Dismiss p = p\<lparr>tp_service := tour_dismiss (tp_service p)\<rparr>"
| "tour_handle (Mode m) p = page_mode m p"
| "tour_handle Previous p = previous p"
| "tour_handle Next p = fst (next_step p)"
| "tour_handle (SeenAnswer t r) p = seen_answer t r p"

definition tour_event :: "tour_input \<Rightarrow> tour_page \<Rightarrow> tour_page" where
  "tour_event e p = tour_effect (tour_handle e p)"

subsection \<open>The page and its effect\<close>

lemma chapters_cong:
  "tp_ids q = tp_ids p \<Longrightarrow> tour_steps (tp_service q) = tour_steps (tp_service p) \<Longrightarrow> chapters q = chapters p"
  by (simp add: chapters_def)

definition index_ok :: "tour_page \<Rightarrow> bool" where
  "index_ok p \<longleftrightarrow> tp_index p = 0 \<or> tp_index p < length (chapters p)"

lemma tour_effect_index: "index_ok (tour_effect p)"
proof -
  have "index_ok (if tp_index q \<ge> length (chapters q) then q\<lparr>tp_index := length (chapters q) - 1\<rparr> else q)" for q
    by (auto simp: index_ok_def chapters_def)
  then show ?thesis unfolding tour_effect_def Let_def .
qed

text \<open>After any event the page shows one of its chapters, unless it has none.\<close>

lemma tour_event_index: "index_ok (fold tour_event es (tour_effect p))"
  by (induction es arbitrary: p) (simp_all add: tour_effect_index tour_event_def)

lemma tour_effect_steady:
  assumes "ts_generation (tp_service p) = tp_generation p" and "tp_ids p = Some ids"
    and "tp_index p < length (chapters p)"
  shows "tour_effect p = p"
  using assms by (simp add: tour_effect_def Let_def)

lemma tour_effect_opens:
  assumes "ts_generation (tp_service p) = tp_generation p" and "tp_ids p = None"
    and "ts_state (tp_service p) = Some st" and "\<not> ts_loading (tp_service p)" and "tp_index p = 0"
    and "tp_mode p \<noteq> ''all''"
  shows "tour_effect p = p\<lparr>tp_ids := Some (map tsp_id (pending_steps (tp_service p)))\<rparr>"
  using assms by (auto simp: tour_effect_def Let_def)

subsection \<open>Walking through the tour\<close>

text \<open>
  The server as the code relies on it: acknowledging a step answers with the same steps in the same
  order, the step acknowledged seen, and those seen before still seen.
\<close>

definition steps_of :: "TourState \<Rightarrow> TourStep list" where
  "steps_of st = nullish (tst_steps st) []"

definition acknowledged :: "string option \<Rightarrow> TourStep \<Rightarrow> TourStep \<Rightarrow> bool" where
  "acknowledged i a b \<longleftrightarrow>
     tsp_id b = tsp_id a \<and> (step_seen a \<longrightarrow> step_seen b) \<and> (tsp_id a = i \<longrightarrow> step_seen b)"

definition acknowledges :: "(ViewTourStepInput \<Rightarrow> TourState \<Rightarrow> TourState) \<Rightarrow> bool" where
  "acknowledges answer \<longleftrightarrow>
     (\<forall>r st. list_all2 (acknowledged (vtsi_step_id r)) (steps_of st) (steps_of (answer r st)))"

text \<open>The user presses the button, and the server answers the request it sends, if it sends one.\<close>

definition press :: "(ViewTourStepInput \<Rightarrow> TourState \<Rightarrow> TourState) \<Rightarrow> tour_page \<Rightarrow> tour_page" where
  "press answer p =
     (case snd (next_step p) of
        [ViewTourStep r] \<Rightarrow>
          tour_event (SeenAnswer (tp_next p) (Inr (map_option (answer r) (ts_state (tp_service p)))))
            (tour_event Next p)
      | _ \<Rightarrow> tour_event Next p)"

text \<open>
  The state in which \<open>k\<close> chapters of the session \<open>ids\<close> are behind the user: the steps outside the
  session are seen, and so are these chapters.
\<close>

definition track :: "string option list \<Rightarrow> nat \<Rightarrow> tour_page \<Rightarrow> bool" where
  "track ids k p \<longleftrightarrow>
     ts_generation (tp_service p) = tp_generation p \<and> tp_ids p = Some ids \<and> distinct ids \<and>
     ts_state (tp_service p) \<noteq> None \<and> distinct (map tsp_id (tour_steps (tp_service p))) \<and>
     set ids \<subseteq> tsp_id ` set (tour_steps (tp_service p)) \<and>
     \<not> tp_saving p \<and> tp_active p = None \<and>
     (\<forall>s \<in> set (tour_steps (tp_service p)). tsp_id s \<notin> set (drop k ids) \<longrightarrow> step_seen s)"

definition walking :: "string option list \<Rightarrow> nat \<Rightarrow> tour_page \<Rightarrow> bool" where
  "walking ids k p \<longleftrightarrow> track ids k p \<and> tp_index p = k \<and> k < length ids \<and> \<not> tp_finished p"

lemma chapters_map:
  assumes "tp_ids p = Some ids" and "set ids \<subseteq> tsp_id ` set (tour_steps (tp_service p))"
  shows "chapters p = map (\<lambda>i. the (List.find (\<lambda>s. tsp_id s = i) (tour_steps (tp_service p)))) ids"
proof -
  have "List.map_filter f ids = map (the \<circ> f) ids" if "\<forall>i \<in> set ids. f i \<noteq> None"
    for f :: "string option \<Rightarrow> TourStep option"
    using that by (induction ids) auto
  moreover have "List.find (\<lambda>s. tsp_id s = i) (tour_steps (tp_service p)) \<noteq> None" if "i \<in> set ids" for i
    using that assms(2) by (auto simp: find_None_iff)
  ultimately show ?thesis using assms(1) by (simp add: chapters_def comp_def)
qed

lemma track_chapters:
  assumes "track ids k p"
  shows "length (chapters p) = length ids"
    and "j < length ids \<Longrightarrow> chapters p ! j \<in> set (tour_steps (tp_service p)) \<and> tsp_id (chapters p ! j) = ids ! j"
proof -
  have c: "chapters p = map (\<lambda>i. the (List.find (\<lambda>s. tsp_id s = i) (tour_steps (tp_service p)))) ids"
    using assms by (intro chapters_map) (auto simp: track_def)
  then show "length (chapters p) = length ids" by simp
  assume j: "j < length ids"
  then have "ids ! j \<in> tsp_id ` set (tour_steps (tp_service p))"
    using assms by (auto simp: track_def)
  then obtain s where f: "List.find (\<lambda>s. tsp_id s = ids ! j) (tour_steps (tp_service p)) = Some s"
    by (cases "List.find (\<lambda>s. tsp_id s = ids ! j) (tour_steps (tp_service p))") (auto simp: find_None_iff)
  then have "s \<in> set (tour_steps (tp_service p)) \<and> tsp_id s = ids ! j"
    by (auto simp: find_Some_iff)
  moreover have "chapters p ! j = s" using c j f by simp
  ultimately show "chapters p ! j \<in> set (tour_steps (tp_service p)) \<and> tsp_id (chapters p ! j) = ids ! j"
    by simp
qed

lemma track_later:
  "track ids k p \<Longrightarrow> k < length ids \<Longrightarrow> step_seen (chapters p ! k) \<Longrightarrow> track ids (Suc k) p"
proof -
  assume t: "track ids k p" and k: "k < length ids" and seen: "step_seen (chapters p ! k)"
  have d: "drop k ids = ids ! k # drop (Suc k) ids" using k by (simp add: Cons_nth_drop_Suc)
  have "s = chapters p ! k" if "s \<in> set (tour_steps (tp_service p))" "tsp_id s = ids ! k" for s
    using track_chapters(2) [OF t k] that t by (auto simp: track_def distinct_map inj_on_def)
  with seen t show ?thesis by (auto simp: track_def d)
qed

lemma track_cong:
  "track ids k p \<Longrightarrow> tp_service q = tp_service p \<Longrightarrow> tp_generation q = tp_generation p \<Longrightarrow>
   tp_ids q = tp_ids p \<Longrightarrow> tp_saving q = tp_saving p \<Longrightarrow> tp_active q = tp_active p \<Longrightarrow> track ids k q"
  by (simp add: track_def)

text \<open>What one acknowledged step or one skipped step makes of the page.\<close>

lemma advance_walks:
  assumes "track ids (Suc k) p" and "tp_index p = k" and "k < length ids" and "\<not> tp_finished p"
  defines "q \<equiv> tour_effect (advance p)"
  shows "if Suc k < length ids then walking ids (Suc k) q else track ids (Suc k) q \<and> tp_finished q"
proof -
  have l: "length (chapters p) = length ids" by (rule track_chapters(1) [OF assms(1)])
  have t: "track ids (Suc k) (advance p)"
    by (rule track_cong [OF assms(1)]) (simp_all add: advance_def)
  have "chapters (advance p) = chapters p"
    by (rule chapters_cong) (simp_all add: advance_def)
  then have q: "q = advance p"
    unfolding q_def using t assms(2,3) l
    by (intro tour_effect_steady) (auto simp: track_def advance_def)
  from t show ?thesis
    unfolding q using assms(2-4) l
    by (cases "Suc k < length ids") (simp_all add: walking_def advance_def)
qed

lemma track_answer:
  assumes "track ids k p" and "k < length ids" and "acknowledges answer"
    and "vtsi_step_id r = ids ! k" and "ts_state (tp_service p) = Some st"
  shows "track ids (Suc k) (set_tour_state (Some (answer r st)) p)"
proof -
  let ?q = "set_tour_state (Some (answer r st)) p"
  have steps: "tour_steps (tp_service p) = steps_of st" "tour_steps (tp_service ?q) = steps_of (answer r st)"
    by (simp_all add: tour_steps_def steps_of_def set_tour_state_def assms(5))
  have "list_all2 (acknowledged (vtsi_step_id r)) (steps_of st) (steps_of (answer r st))"
    using assms(3) unfolding acknowledges_def by blast
  then have l: "list_all2 (acknowledged (ids ! k)) (steps_of st) (steps_of (answer r st))"
    by (simp add: assms(4))
  have ids: "map tsp_id (steps_of (answer r st)) = map tsp_id (steps_of st)"
    using l by (induction rule: list_all2_induct) (auto simp: acknowledged_def)
  then have img: "tsp_id ` set (steps_of (answer r st)) = tsp_id ` set (steps_of st)" by (metis set_map)
  have seen: "step_seen b" if b: "b \<in> set (steps_of (answer r st))" and nb: "tsp_id b \<notin> set (drop (Suc k) ids)" for b
  proof -
    obtain i where "i < length (steps_of (answer r st))" "b = steps_of (answer r st) ! i"
      using b by (auto simp: in_set_conv_nth)
    then have "steps_of st ! i \<in> set (steps_of st)" "acknowledged (ids ! k) (steps_of st ! i) b"
      using l by (auto simp: list_all2_conv_all_nth)
    then obtain a where a: "a \<in> set (steps_of st)" "acknowledged (ids ! k) a b" by blast
    have "set (drop k ids) = insert (ids ! k) (set (drop (Suc k) ids))"
      using assms(2) by (metis Cons_nth_drop_Suc list.simps(15))
    with a nb assms(1) show ?thesis by (auto simp: acknowledged_def track_def steps)
  qed
  show ?thesis
    using assms(1) ids img seen by (auto simp: track_def steps) (simp_all add: set_tour_state_def)
qed

lemma press_walks:
  assumes w: "walking ids k p" and ack: "acknowledges answer"
  shows "if Suc k < length ids then walking ids (Suc k) (press answer p)
         else track ids (Suc k) (press answer p) \<and> tp_finished (press answer p)"
proof -
  have t: "track ids k p" and k: "tp_index p = k" "k < length ids" and f: "\<not> tp_finished p"
    using w by (simp_all add: walking_def)
  note l = track_chapters(1) [OF t]
  have c: "current p = Some (chapters p ! k)" using k l by (simp add: current_def)
  have s: "\<not> tp_saving p" "tp_active p = None" using t by (simp_all add: track_def)
  show ?thesis
  proof (cases "step_seen (chapters p ! k)")
    case True
    have "track ids (Suc k) (p\<lparr>tp_saveError := None\<rparr>)"
      by (rule track_cong [OF track_later [OF t k(2) True]]) simp_all
    moreover have "press answer p = tour_effect (advance (p\<lparr>tp_saveError := None\<rparr>))"
      using True c s by (simp add: press_def tour_event_def next_step_def)
    ultimately show ?thesis
      using advance_walks [of ids k "p\<lparr>tp_saveError := None\<rparr>"] k f by simp
  next
    case False
    let ?r = "seen_request (tp_service p) (chapters p ! k)"
    let ?q = "p\<lparr>tp_saveError := None, tp_saving := True, tp_active := Some (tp_next p),
      tp_next := Suc (tp_next p)\<rparr>"
    obtain st where st: "ts_state (tp_service p) = Some st" using t by (auto simp: track_def)
    have n: "next_step p = (?q, [ViewTourStep ?r])"
      using False c s by (simp add: next_step_def)
    have "chapters ?q = chapters p" by (rule chapters_cong) simp_all
    then have e: "tour_effect ?q = ?q"
      using t k l by (intro tour_effect_steady [of _ ids]) (simp_all add: track_def)
    let ?a = "set_tour_state (Some (answer ?r st)) p"
    have "track ids (Suc k) ?a"
      using track_answer [OF t k(2) ack _ st, of ?r] track_chapters(2) [OF t k(2)]
      by (simp add: seen_request_def)
    then have u: "track ids (Suc k) (?a\<lparr>tp_saveError := None, tp_next := Suc (tp_next p)\<rparr>)"
      by (rule track_cong) simp_all
    have "press answer p = tour_effect (end_saving (advance (set_tour_state (Some (answer ?r st)) ?q)))"
      by (simp add: press_def n tour_event_def e seen_answer_def st)
    moreover have "end_saving (advance (set_tour_state (Some (answer ?r st)) ?q)) =
        advance (?a\<lparr>tp_saveError := None, tp_next := Suc (tp_next p)\<rparr>)"
      using s by (cases p) (simp add: advance_def chapters_def end_saving_def set_tour_state_def)
    ultimately have pa: "press answer p =
        tour_effect (advance (?a\<lparr>tp_saveError := None, tp_next := Suc (tp_next p)\<rparr>))"
      by (simp only:)
    show ?thesis
      unfolding pa by (rule advance_walks [OF u]) (simp_all add: set_tour_state_def k f)
  qed
qed

definition session_opened :: "tour_page \<Rightarrow> bool" where
  "session_opened p \<longleftrightarrow> walking (map tsp_id (pending_steps (tp_service p))) 0 p"

text \<open>The answer of the latest fetch opens the session, when the ids of the steps are distinct.\<close>

lemma fetched_opens:
  assumes "ts_active (tp_service p) = Some t" and "ts_generation (tp_service p) = tp_generation p"
    and "tp_ids p = None" and "tp_index p = 0" and "tp_mode p \<noteq> ''all''"
    and "\<not> tp_finished p" and "\<not> tp_saving p" and "tp_active p = None"
    and "distinct (map tsp_id (steps_of st))" and "\<not> list_all step_seen (steps_of st)"
  shows "session_opened (tour_event (Fetched t (Inr (Some st))) p)"
proof -
  let ?p = "p\<lparr>tp_service := tour_deliver (tp_service p) t (Inr (Some st))\<rparr>"
  have e: "tour_event (Fetched t (Inr (Some st))) p = ?p\<lparr>tp_ids := Some (map tsp_id (pending_steps (tp_service ?p)))\<rparr>"
    unfolding tour_event_def tour_handle.simps
    using assms by (intro tour_effect_opens) (simp_all add: tour_deliver_def)
  have s: "tour_steps (tour_deliver (tp_service p) t (Inr (Some st))) = steps_of st"
    using assms(1) by (simp add: tour_deliver_def tour_steps_def steps_of_def)
  have ps: "pending_steps (tour_deliver (tp_service p) t (Inr (Some st))) = filter (Not \<circ> step_seen) (steps_of st)"
    by (simp add: pending_steps_def s)
  have g: "ts_generation (tour_deliver (tp_service p) t (Inr (Some st))) = tp_generation p"
    "ts_state (tour_deliver (tp_service p) t (Inr (Some st))) = Some st"
    using assms(1,2) by (simp_all add: tour_deliver_def)
  have ne: "filter (Not \<circ> step_seen) (steps_of st) \<noteq> []"
    using assms(10) by (auto simp: filter_empty_conv list_all_iff)
  show ?thesis
    unfolding session_opened_def e walking_def track_def
    using assms ne by (auto simp: s ps g distinct_map_filter)
qed

lemma presses_walk:
  assumes "walking ids 0 p" and "acknowledges answer"
  shows "k < length ids \<Longrightarrow> walking ids k ((press answer ^^ k) p)"
proof (induction k)
  case (Suc k)
  then show ?case using press_walks [OF _ assms(2), of ids k] by (auto split: if_splits)
qed (simp add: assms(1))

text \<open>
  C40. The tour ends. When a session with new steps has opened and the server acknowledges what it is
  sent, pressing the button once per new step walks through the chapters in order, one at a time, and
  then, not earlier, finishes the tour with no step left to see.
\<close>
theorem tour_completes:
  assumes "session_opened p" and "acknowledges answer"
  defines "n \<equiv> length (pending_steps (tp_service p))"
  shows "(\<forall>k<n. tp_index ((press answer ^^ k) p) = k \<and> \<not> tp_finished ((press answer ^^ k) p)) \<and>
    tp_finished ((press answer ^^ n) p) \<and> pending_steps (tp_service ((press answer ^^ n) p)) = []"
proof -
  let ?ids = "map tsp_id (pending_steps (tp_service p))"
  have w: "walking ?ids 0 p" using assms(1) by (simp add: session_opened_def)
  have n: "0 < n" "length ?ids = n" using w by (simp_all add: walking_def n_def)
  have steps: "walking ?ids k ((press answer ^^ k) p)" if "k < n" for k
    using presses_walk [OF w assms(2)] that n by simp
  let ?q = "(press answer ^^ n) p"
  obtain m where m: "n = Suc m" using n(1) by (cases n) auto
  have "walking ?ids m ((press answer ^^ m) p)" using steps m by simp
  from press_walks [OF this assms(2)] have q: "track ?ids n ?q" "tp_finished ?q"
    unfolding n(2) by (simp_all add: m)
  then have "pending_steps (tp_service ?q) = []"
    using n by (auto simp: track_def pending_steps_def filter_empty_conv)
  with q steps show ?thesis by (auto simp: walking_def)
qed

definition mark_seen :: "ViewTourStepInput \<Rightarrow> TourState \<Rightarrow> TourState" where
  "mark_seen r st =
     st\<lparr>tst_steps := map_option (map (\<lambda>s. if tsp_id s = vtsi_step_id r
          then s\<lparr>tsp_seen_revision := Some (nullish (tsp_revision s) 1)\<rparr> else s)) (tst_steps st)\<rparr>"

lemma mark_seen_acknowledges: "acknowledges mark_seen"
proof -
  have "list_all2 (acknowledged i) xs (map (\<lambda>s. if tsp_id s = i
      then s\<lparr>tsp_seen_revision := Some (nullish (tsp_revision s) 1)\<rparr> else s) xs)" for i xs
    by (induction xs) (auto simp: acknowledged_def step_seen_def)
  then show ?thesis
    by (auto simp: acknowledges_def steps_of_def mark_seen_def nullish_def split: option.split)
qed

definition sample_step :: "string \<Rightarrow> int \<Rightarrow> int \<Rightarrow> TourStep" where
  "sample_step i revision seen =
     \<lparr>tsp_capabilities = None, tsp_changes = None, tsp_description = None, tsp_id = Some i,
      tsp_revision = Some revision, tsp_seen_revision = Some seen, tsp_title = None\<rparr>"

definition sample_tour :: TourState where
  "sample_tour = \<lparr>tst_seen_version = None,
     tst_steps = Some [sample_step ''a'' 1 0, sample_step ''b'' 2 2, sample_step ''c'' 3 1],
     tst_version = Some 1\<rparr>"

definition sample_user :: AuthUser where
  "sample_user = \<lparr>usr_access_status = None, usr_actions = None, usr_admin = None, usr_created_at = None,
     usr_enabled = Some True, usr_id = Some ''u'', usr_identities = None, usr_tour_version = None,
     usr_updated_at = None, usr_username = None\<rparr>"

definition sample_page :: tour_page where
  "sample_page =
     tour_event (Fetched 0 (Inr (Some sample_tour)))
       (tour_event (UserChanged (Some sample_user)) (new_page new_tour))"

theorem tour_completes_witness:
  "tp_finished ((press mark_seen ^^ 2) sample_page) \<and>
   pending_steps (tp_service ((press mark_seen ^^ 2) sample_page)) = []"
proof -
  have "session_opened sample_page"
    unfolding sample_page_def
    by (rule fetched_opens) code_simp+
  from tour_completes [OF this mark_seen_acknowledges]
  have "tp_finished ((press mark_seen ^^ length (pending_steps (tp_service sample_page))) sample_page) \<and>
    pending_steps (tp_service ((press mark_seen ^^ length (pending_steps (tp_service sample_page))) sample_page)) = []"
    by blast
  moreover have "length (pending_steps (tp_service sample_page)) = 2" by code_simp
  ultimately show ?thesis by simp
qed

subsection \<open>The invitation and the examples\<close>

definition tour_invitation :: "string \<Rightarrow> tour_service \<Rightarrow> bool" where
  "tour_invitation url s \<longleftrightarrow> offer s \<and> take 5 url \<noteq> ''/tour''"

text \<open>
  The invitation shown on top of the pages: to an account that has followed the tour, the number of
  steps that are new for it; the text of the link goes with it.
\<close>

datatype tour_prompt = Welcome | News nat

definition tour_prompt_shown :: "string \<Rightarrow> tour_service \<Rightarrow> tour_prompt option" where
  "tour_prompt_shown url s =
     (if \<not> tour_invitation url s then None
      else Some (if nullish (Option.bind (ts_state s) tst_seen_version) 0 \<noteq> 0
                 then News (length (pending_steps s)) else Welcome))"

lemma prompt_not_on_tour: "tour_prompt_shown (''/tour'' @ rest) s = None"
  by (simp add: tour_prompt_shown_def tour_invitation_def)

record example_member =
  xm_name :: string
  xm_email :: string
  xm_lots :: "nat list"

definition example_members :: "example_member list" where
  "example_members =
     [\<lparr>xm_name = ''Camille Martin'', xm_email = ''camille@example.invalid'', xm_lots = [1, 24]\<rparr>,
      \<lparr>xm_name = ''No'' @ [CHR 0xE9] @ '' Laurent'', xm_email = ''noe@example.invalid'', xm_lots = [1]\<rparr>,
      \<lparr>xm_name = ''Louise Petit'', xm_email = ''louise@example.invalid'', xm_lots = [12]\<rparr>]"

definition example_mapClasses :: "(nat \<times> string) list" where
  "example_mapClasses =
     map (\<lambda>i. (i + 1, [''dashboard-settled'', ''dashboard-partial'', ''dashboard-unpaid'',
        ''dashboard-overpaid'', ''dashboard-no-call''] ! (i mod 5))) [0..<42]"

datatype example_problem = NotAnAmount | AmountRange

record tour_example =
  te_step :: TourStep
  te_query :: string
  te_selected :: nat
  te_amount :: string
  te_paid :: int
  te_problem :: "example_problem option"
  te_done :: bool
  te_dialog :: bool

definition example_allowed :: "tour_example \<Rightarrow> string \<Rightarrow> bool" where
  "example_allowed s action \<longleftrightarrow> action \<in> set (nullish (tsp_capabilities (te_step s)) [])"

definition selectedMembers :: "tour_example \<Rightarrow> example_member list" where
  "selectedMembers s = filter (\<lambda>m. te_selected s \<in> set (xm_lots m)) example_members"

text \<open>\<open>fold_text\<close> is \<open>normalize\<close>, the folding of accents and case, and \<open>skip_lot\<close> drops a leading \<open>lot\<close>.\<close>

definition skip_lot :: "string \<Rightarrow> string" where
  "skip_lot q =
     (if take 3 q = ''lot'' \<and> takeWhile is_space (drop 3 q) \<noteq> []
      then dropWhile is_space (drop 3 q) else q)"

definition matches :: "(string \<Rightarrow> string) \<Rightarrow> tour_example \<Rightarrow> example_member list" where
  "matches fold_text s =
     filter (\<lambda>m. str_includes
         (fold_text (xm_name m @ '' '' @ xm_email m @ '' '' @ join_str '' '' (map nat_str (xm_lots m))))
         (skip_lot (fold_text (te_query s))))
       example_members"

definition openLot :: "nat \<Rightarrow> tour_example \<Rightarrow> tour_example" where
  "openLot number s = s\<lparr>te_selected := number, te_dialog := True\<rparr>"


text \<open>
  \<open>/^\d+(?:[,.]\d{1,2})?$/\<close> and the cents it stands for. The source multiplies the nearest double
  by 100 and rounds, which is exact up to the limit and stays above it beyond.
\<close>

definition amount_cents :: "string \<Rightarrow> int option" where
  "amount_cents s =
     (let whole = takeWhile is_digit s; rest = dropWhile is_digit s;
          val = foldl (\<lambda>n c. 10 * n + (int (of_char c) - 48)) 0 in
      if whole = [] then None
      else (case rest of
          [] \<Rightarrow> Some (100 * val whole)
        | c # ds \<Rightarrow>
            if c \<in> {CHR '','', CHR ''.''} \<and> list_all is_digit ds \<and> ds \<noteq> [] \<and> length ds \<le> 2
            then Some (100 * val whole + (if length ds = 1 then 10 * val ds else val ds))
            else None))"

definition simulatePayment :: "tour_example \<Rightarrow> tour_example" where
  "simulatePayment s =
     (case amount_cents (js_trim (te_amount s)) of
        None \<Rightarrow> s\<lparr>te_problem := Some NotAnAmount\<rparr>
      | Some cents \<Rightarrow>
          if cents \<le> 0 \<or> cents > 1000000 then s\<lparr>te_problem := Some AmountRange\<rparr>
          else s\<lparr>te_problem := None, te_paid := cents, te_done := True\<rparr>)"

text \<open>Whatever is typed, the amount paid stays between nothing and 10 000 euros.\<close>

lemma simulatePayment_bounds:
  "0 \<le> te_paid s \<Longrightarrow> te_paid s \<le> 1000000 \<Longrightarrow>
     0 \<le> te_paid (simulatePayment s) \<and> te_paid (simulatePayment s) \<le> 1000000"
  by (auto simp: simulatePayment_def split: option.split)

lemma simulatePayment_accepts:
  "te_problem (simulatePayment s) = None \<longleftrightarrow>
     (\<exists>c. amount_cents (js_trim (te_amount s)) = Some c \<and> 0 < c \<and> c \<le> 1000000)"
  by (auto simp: simulatePayment_def split: option.split)

lemma sample_amounts:
  "map amount_cents [''50,00'', ''0.5'', ''12'', ''1,234'', '',5'', ''1,''] =
     [Some 5000, Some 50, Some 1200, None, None, None]"
  by code_simp

end
