(* ===== verification/Email_Templates.thy ===== *)
theory Email_Templates
  imports Template_Data Forms
begin

text \<open>
  \<open>emails/components/email-template-form\<close> and \<open>email-template-preview-form\<close>: the form of a template
  with the insertion of variables at the caret, and the preview of a template with sample or own data.
  The catalogue of variables (\<open>emails/template-variables.json\<close>) is a parameter: its texts hold
  characters beyond the model's 256 code points.
\<close>

subsection \<open>\<open>EmailTemplateFormComponent\<close>\<close>

datatype template_target = Subject | Message

datatype template_problem =
    TemplateSession
  | TemplateRights
  | TemplateUnanswered
  | TemplateNotSaved

datatype template_notice = TemplateSaved

instantiation template_target :: enum
begin

definition enum_template_target :: "template_target list" where
  "enum_template_target = [Subject, Message]"

definition enum_all_template_target :: "(template_target \<Rightarrow> bool) \<Rightarrow> bool" where
  "enum_all_template_target P \<longleftrightarrow> P Subject \<and> P Message"

definition enum_ex_template_target :: "(template_target \<Rightarrow> bool) \<Rightarrow> bool" where
  "enum_ex_template_target P \<longleftrightarrow> P Subject \<or> P Message"

instance
proof
  have all: "UNIV = {Subject, Message}" by (auto intro: template_target.exhaust)
  show "(UNIV :: template_target set) = set enum_class.enum"
    by (simp add: enum_template_target_def all)
  show "distinct (enum_class.enum :: template_target list)" by (simp add: enum_template_target_def)
  show "enum_class.enum_all P = Ball UNIV P" for P :: "template_target \<Rightarrow> bool"
    by (simp add: enum_all_template_target_def all)
  show "enum_class.enum_ex P = Bex UNIV P" for P :: "template_target \<Rightarrow> bool"
    by (simp add: enum_ex_template_target_def all)
qed

end

text \<open>The variables of the catalogue: identifier and snippet.\<close>

type_synonym catalogue = "(string \<times> string) list"

record template_form =
  tf_template :: "ModelsEmailTemplate option"
  tf_variable :: string
  tf_target :: template_target
  tf_customName :: string
  tf_label :: string
  tf_subject :: string
  tf_message :: string
  tf_dirty :: bool
  tf_touched :: bool
  tf_disabled :: bool
  tf_saving :: bool
  tf_error :: "template_problem option"
  tf_inserted :: "template_target option"
  tf_selections :: "template_target \<Rightarrow> (nat \<times> nat) option"

definition new_template_form :: "ModelsEmailTemplate option \<Rightarrow> template_form" where
  "new_template_form t =
     \<lparr>tf_template = t, tf_variable = [], tf_target = Message, tf_customName = ''date_limite'',
      tf_label = nullish (Option.bind t tpl_label) [], tf_subject = nullish (Option.bind t tpl_subject) [],
      tf_message = nullish (Option.bind t tpl_message) [], tf_dirty = False, tf_touched = False,
      tf_disabled = False, tf_saving = False, tf_error = None, tf_inserted = None,
      tf_selections = (\<lambda>f. None)\<rparr>"

definition automatic_roots :: "string list" where
  "automatic_roots = [''member'', ''budget'', ''amount'', ''cotisations'', ''expenses'']"

definition name_start :: "char \<Rightarrow> bool" where
  "name_start c \<longleftrightarrow> (let n = of_char c :: nat in (65 \<le> n \<and> n \<le> 90) \<or> (97 \<le> n \<and> n \<le> 122) \<or> n = 95)"

text \<open>\<open>/^[A-Za-z_][A-Za-z0-9_]*$/\<close>, and no name the server fills by itself.\<close>

definition customName_valid :: "template_form \<Rightarrow> bool" where
  "customName_valid s \<longleftrightarrow>
     \<not> tf_disabled s \<and>
     (case tf_customName s of
        [] \<Rightarrow> False
      | c # cs \<Rightarrow> name_start c \<and> list_all (\<lambda>d. name_start d \<or> is_digit d) cs) \<and>
     tf_customName s \<notin> set automatic_roots"

definition selectedSnippet :: "catalogue \<Rightarrow> template_form \<Rightarrow> string option" where
  "selectedSnippet cat s = map_option snd (List.find (\<lambda>v. fst v = tf_variable s) cat)"

definition canInsert :: "catalogue \<Rightarrow> template_form \<Rightarrow> bool" where
  "canInsert cat s \<longleftrightarrow>
     \<not> tf_saving s \<and>
     \<not> ((case selectedSnippet cat s of None \<Rightarrow> False | Some t \<Rightarrow> str_includes t [char_of (10 :: nat)]) \<and>
        tf_target s = Subject) \<and>
     (if tf_variable s = ''custom'' then customName_valid s else selectedSnippet cat s \<noteq> None)"

definition template_form_valid :: "template_form \<Rightarrow> bool" where
  "template_form_valid s \<longleftrightarrow>
     \<not> tf_disabled s \<and> tf_label s \<noteq> [] \<and> tf_subject s \<noteq> [] \<and> tf_message s \<noteq> []"

definition canSave :: "template_form \<Rightarrow> bool" where
  "canSave s \<longleftrightarrow> template_form_valid s \<and> tf_dirty s \<and> \<not> tf_saving s"

text \<open>The selection the browser reports for an input; an input without one reports none.\<close>

definition rememberSelection ::
  "template_target \<Rightarrow> (nat \<times> nat) option \<Rightarrow> template_form \<Rightarrow> template_form" where
  "rememberSelection field sel s =
     (case sel of None \<Rightarrow> s | Some x \<Rightarrow> s\<lparr>tf_selections := (tf_selections s)(field \<mapsto> x)\<rparr>)"

definition activateField ::
  "template_target \<Rightarrow> (nat \<times> nat) option \<Rightarrow> template_form \<Rightarrow> template_form" where
  "activateField field sel s = rememberSelection field sel (s\<lparr>tf_target := field\<rparr>)"

definition control_value :: "template_target \<Rightarrow> template_form \<Rightarrow> string" where
  "control_value f s = (case f of Subject \<Rightarrow> tf_subject s | Message \<Rightarrow> tf_message s)"

definition set_control_value :: "template_target \<Rightarrow> string \<Rightarrow> template_form \<Rightarrow> template_form" where
  "set_control_value f v s =
     (case f of Subject \<Rightarrow> s\<lparr>tf_subject := v\<rparr> | Message \<Rightarrow> s\<lparr>tf_message := v\<rparr>)"

definition insertion :: "catalogue \<Rightarrow> template_form \<Rightarrow> string" where
  "insertion cat s =
     (if tf_variable s = ''custom'' then [CHR 123, CHR 123] @ ''.'' @ tf_customName s @ [CHR 125, CHR 125]
      else nullish (selectedSnippet cat s) [])"

definition insertVariable :: "catalogue \<Rightarrow> template_form \<Rightarrow> template_form" where
  "insertVariable cat s =
     (if \<not> canInsert cat s then s
      else (let snippet = insertion cat s; field = tf_target s; value = control_value field s;
                sel = nullish (tf_selections s field) (length value, length value);
                start = min (fst sel) (length value); stop = min (snd sel) (length value);
                cursor = start + length snippet
            in (set_control_value field (take start value @ snippet @ drop stop value) s)
                 \<lparr>tf_dirty := True, tf_selections := (tf_selections s)(field \<mapsto> (cursor, cursor)),
                  tf_inserted := Some field\<rparr>))"

datatype template_input =
    TypeLabel string
  | TypeSubject string
  | TypeMessage string
  | ChooseVariable string
  | TypeName string
  | Activate template_target "(nat \<times> nat) option"
  | Insert catalogue

fun template_form_edit :: "template_input \<Rightarrow> template_form \<Rightarrow> template_form" where
  "template_form_edit (TypeLabel v) s =
     (if tf_disabled s then s else s\<lparr>tf_label := v, tf_dirty := True\<rparr>)"
| "template_form_edit (TypeSubject v) s =
     (if tf_disabled s then s else s\<lparr>tf_subject := v, tf_dirty := True\<rparr>)"
| "template_form_edit (TypeMessage v) s =
     (if tf_disabled s then s else s\<lparr>tf_message := v, tf_dirty := True\<rparr>)"
| "template_form_edit (ChooseVariable v) s = (if tf_disabled s then s else s\<lparr>tf_variable := v\<rparr>)"
| "template_form_edit (TypeName v) s = (if tf_disabled s then s else s\<lparr>tf_customName := v\<rparr>)"
| "template_form_edit (Activate f sel) s = activateField f sel s"
| "template_form_edit (Insert cat) s = insertVariable cat s"

definition template_form_cancel :: "template_form \<Rightarrow> template_notice ui_effect list" where
  "template_form_cancel s = (if tf_saving s then [] else [CloseDialog False])"

definition template_form_submit ::
  "template_form \<Rightarrow> template_form \<times> template_notice ui_effect list" where
  "template_form_submit s =
     (if \<not> canSave s then (s\<lparr>tf_touched := True\<rparr>, [])
      else (s\<lparr>tf_saving := True, tf_error := None, tf_disabled := True\<rparr>,
        [Send (case Option.bind (tf_template s) tpl_id of
             None \<Rightarrow> CreateEmailTemplate \<lparr>ceti_label = Some (tf_label s),
               ceti_message = Some (tf_message s), ceti_subject = Some (tf_subject s)\<rparr>
           | Some i \<Rightarrow>
               if i = [] then CreateEmailTemplate \<lparr>ceti_label = Some (tf_label s),
                 ceti_message = Some (tf_message s), ceti_subject = Some (tf_subject s)\<rparr>
               else UpdateEmailTemplate i \<lparr>ueti_label = Some (tf_label s),
                 ueti_message = Some (tf_message s), ueti_subject = Some (tf_subject s)\<rparr>)]))"

definition template_form_answer ::
  "api_error + ModelsEmailTemplate option \<Rightarrow> template_form \<Rightarrow>
   template_form \<times> template_notice ui_effect list" where
  "template_form_answer r s =
     (case r of
        Inr t \<Rightarrow> (s\<lparr>tf_saving := False\<rparr>, [CloseDialog True, Info TemplateSaved])
      | Inl e \<Rightarrow>
          (s\<lparr>tf_saving := False, tf_disabled := False,
             tf_error := Some (if err_status e = 401 then TemplateSession
               else if err_status e = 403 then TemplateRights
               else if err_status e = 0 then TemplateUnanswered else TemplateNotSaved)\<rparr>, []))"

lemma insertVariable_saving [simp]: "tf_saving (insertVariable cat s) = tf_saving s"
  by (simp add: insertVariable_def Let_def set_control_value_def split: template_target.split)

interpretation template_form:
  submit_guard template_form_submit template_form_answer template_form_edit sends tf_saving
proof unfold_locales
  fix s :: template_form and u
  show "tf_saving (template_form_edit u s) = tf_saving s"
    by (cases u) (auto simp: activateField_def rememberSelection_def split: option.split)
qed (auto simp: template_form_submit_def template_form_answer_def canSave_def split: sum.split)

text \<open>
  Inserting a variable replaces the selected text by the snippet and puts the caret behind it; when
  the selection is out of date it is cut to the text, so that nothing else is lost. No line break gets
  into the subject.
\<close>

lemma insertVariable_text:
  assumes "canInsert cat s" and "tf_selections s (tf_target s) = Some (a, b)" and "a \<le> b"
  defines "v \<equiv> control_value (tf_target s) s" and "t \<equiv> insertVariable cat s"
  shows "control_value (tf_target s) t = take a v @ insertion cat s @ drop b v"
    and "tf_selections t (tf_target s) =
      Some (min a (length v) + length (insertion cat s), min a (length v) + length (insertion cat s))"
    and "min a (length v) + length (insertion cat s) \<le> length (control_value (tf_target s) t)"
proof -
  show v: "control_value (tf_target s) t = take a v @ insertion cat s @ drop b v"
    using assms by (cases "tf_target s")
      (auto simp: insertVariable_def Let_def control_value_def set_control_value_def min_def)
  show "tf_selections t (tf_target s) =
      Some (min a (length v) + length (insertion cat s), min a (length v) + length (insertion cat s))"
    using assms by (simp add: insertVariable_def Let_def)
  show "min a (length v) + length (insertion cat s) \<le> length (control_value (tf_target s) t)"
    unfolding v by simp
qed

lemma insertVariable_other:
  "f \<noteq> tf_target s \<Longrightarrow> control_value f (insertVariable cat s) = control_value f s"
  by (cases f; cases "tf_target s")
    (simp_all add: insertVariable_def Let_def control_value_def set_control_value_def)

text \<open>
  A variable put between two words of the subject, and a second one: the caret follows the insertions.
  The selections of both fields are compared as functions, by the enumeration of the fields.
\<close>

definition sample_catalogue :: catalogue where
  "sample_catalogue = [(''amount'', ''{{.amount}}''), (''rows'', ''a'' @ [char_of (10 :: nat)] @ ''b'')]"

definition sample_template_form :: template_form where
  "sample_template_form = fold template_form_edit
     [TypeSubject ''Call of euros'', ChooseVariable ''amount'', Activate Subject (Some (8, 8)),
      Insert sample_catalogue, ChooseVariable ''rows'', Insert sample_catalogue,
      ChooseVariable ''custom'', TypeName ''x'', Insert sample_catalogue] (new_template_form None)"

lemma sample_insertion:
  "tf_subject sample_template_form = ''Call of {{.amount}}{{.x}}euros'' \<and>
   tf_selections sample_template_form = (\<lambda>f. if f = Subject then Some (25, 25) else None) \<and>
   tf_message sample_template_form = []"
  by code_simp

subsection \<open>\<open>EmailTemplatePreviewFormComponent\<close>\<close>

datatype trial_problem =
    TrialValues
  | TrialOutdated
  | TrialIncomplete
  | TrialSession
  | TrialRights
  | TrialGone
  | TrialExpects string
  | TrialNotRendered
  | TrialFailed

record trial_form =
  rf_template :: ModelsEmailTemplate
  rf_revision :: int
  rf_previewRevision :: int
  rf_sample :: bool
  rf_sampleData :: string
  rf_customData :: string
  rf_sample_ok :: bool
  rf_custom_ok :: bool
  rf_source_disabled :: bool
  rf_touched :: bool
  rf_previewing :: bool
  rf_error :: "trial_problem option"
  rf_result :: "ModelsBuiltEmail option"
  rf_resultSource :: "bool option"

text \<open>\<open>sample\<close> is the sample data of the catalogue, printed as JSON.\<close>

definition new_trial :: "string \<Rightarrow> ModelsEmailTemplate \<Rightarrow> trial_form" where
  "new_trial sample t =
     \<lparr>rf_template = t, rf_revision = 0, rf_previewRevision = -1, rf_sample = True,
      rf_sampleData = sample, rf_customData = [CHR 123, CHR 125], rf_sample_ok = True,
      rf_custom_ok = True, rf_source_disabled = False, rf_touched = False, rf_previewing = False,
      rf_error = None, rf_result = None, rf_resultSource = None\<rparr>"

definition activeData :: "trial_form \<Rightarrow> string" where
  "activeData s = (if rf_sample s then rf_sampleData s else rf_customData s)"

definition trial_fields :: "trial_form \<Rightarrow> template_field list option" where
  "trial_fields s =
     map_option (map (\<lambda>f. (tcf_name f, tcf_complex f)))
       (Option.bind (tpl_custom_fields (rf_template s)) tfd_fields)"

definition active_valid :: "(string \<Rightarrow> js_number) \<Rightarrow> trial_form \<Rightarrow> bool" where
  "active_valid rd s \<longleftrightarrow>
     activeData s \<noteq> [] \<and> (if rf_sample s then rf_sample_ok s else rf_custom_ok s) \<and>
     validateTemplateValues rd (activeData s) (trial_fields s) = None"

definition trial_ready :: "(string \<Rightarrow> js_number) \<Rightarrow> trial_form \<Rightarrow> bool" where
  "trial_ready rd s \<longleftrightarrow> truthy_str (tpl_id (rf_template s)) \<and> active_valid rd s \<and> \<not> rf_previewing s"

definition trial_current :: "trial_form \<Rightarrow> bool" where
  "trial_current s \<longleftrightarrow> rf_result s \<noteq> None \<and> rf_previewRevision s = rf_revision s"

definition trial_changed :: "(string \<Rightarrow> js_number) \<Rightarrow> trial_form \<Rightarrow> trial_form" where
  "trial_changed rd s =
     s\<lparr>rf_revision := rf_revision s + 1, rf_source_disabled := \<not> active_valid rd s\<rparr>"

datatype trial_input =
    TrialSource bool
  | TrialData bool string bool
  | TrialVerdict bool bool

text \<open>A verdict of the editor revalidates its control, which announces a change like an edit does.\<close>

fun trial_edit :: "(string \<Rightarrow> js_number) \<Rightarrow> trial_input \<Rightarrow> trial_form \<Rightarrow> trial_form" where
  "trial_edit rd (TrialSource b) s =
     (if rf_source_disabled s then s else trial_changed rd (s\<lparr>rf_sample := b\<rparr>))"
| "trial_edit rd (TrialData b v ok) s =
     trial_changed rd (if b then s\<lparr>rf_sampleData := v, rf_sample_ok := ok\<rparr>
                       else s\<lparr>rf_customData := v, rf_custom_ok := ok\<rparr>)"
| "trial_edit rd (TrialVerdict b ok) s =
     trial_changed rd (if b then s\<lparr>rf_sample_ok := ok\<rparr> else s\<lparr>rf_custom_ok := ok\<rparr>)"

definition trial_submit ::
  "(string \<Rightarrow> js_number) \<Rightarrow> trial_form \<Rightarrow> trial_form \<times> template_notice ui_effect list" where
  "trial_submit rd s =
     (if \<not> trial_ready rd s then (s\<lparr>rf_touched := True\<rparr>, [])
      else case json_parse rd (activeData s) of
          Some (JObj ms) \<Rightarrow>
            (s\<lparr>rf_previewing := True, rf_previewRevision := -1, rf_error := None\<rparr>,
             [Send (PreviewEmailTemplate (nullish (tpl_id (rf_template s)) []) (JObj [(''data'', JObj ms)]))])
        | _ \<Rightarrow> (s\<lparr>rf_error := Some TrialValues\<rparr>, []))"

definition trial_close :: "template_notice ui_effect list" where
  "trial_close = [CloseDialog False]"

definition trial_error :: "api_error \<Rightarrow> trial_problem" where
  "trial_error e =
     (if err_status e = 401 then TrialSession
      else if err_status e = 403 then TrialRights
      else if err_status e = 404 then TrialGone
      else (case missing_key (nullish (err_message e) []) of
          Some k \<Rightarrow> TrialExpects k
        | None \<Rightarrow> if err_status e = 400 then TrialNotRendered else TrialFailed))"

text \<open>The revision and the source are those the request was made with.\<close>

definition trial_answer ::
  "int \<Rightarrow> bool \<Rightarrow> api_error + ModelsBuiltEmail option \<Rightarrow> trial_form \<Rightarrow> trial_form" where
  "trial_answer revision source r s =
     (let s = s\<lparr>rf_previewing := False\<rparr> in
      case r of
        Inl e \<Rightarrow> s\<lparr>rf_error := Some (trial_error e)\<rparr>
      | Inr m \<Rightarrow>
          if revision \<noteq> rf_revision s then s\<lparr>rf_error := Some TrialOutdated\<rparr>
          else if Option.bind m bem_subject = None \<or> Option.bind m bem_message = None
          then s\<lparr>rf_error := Some TrialIncomplete\<rparr>
          else s\<lparr>rf_result := m, rf_resultSource := Some source, rf_previewRevision := revision\<rparr>)"

text \<open>
  A request with the answer that is still to come or on display: while it is current, it was made
  with the data the form holds.
\<close>

definition made_with :: "(string \<Rightarrow> js_number) \<Rightarrow> trial_form \<Rightarrow> json \<Rightarrow> bool" where
  "made_with rd s j \<longleftrightarrow> (\<exists>ms. json_parse rd (activeData s) = Some (JObj ms) \<and> j = JObj [(''data'', JObj ms)])"

record trial_run =
  rr_form :: trial_form
  rr_asked :: "(int \<times> bool \<times> json) option"
  rr_shown :: "json option"

inductive trial_reach :: "(string \<Rightarrow> js_number) \<Rightarrow> trial_run \<Rightarrow> bool" for rd where
  start: "trial_reach rd \<lparr>rr_form = new_trial sample t, rr_asked = None, rr_shown = None\<rparr>"
| edit: "trial_reach rd w \<Longrightarrow> trial_reach rd (w\<lparr>rr_form := trial_edit rd e (rr_form w)\<rparr>)"
| submit: "trial_reach rd w \<Longrightarrow> trial_submit rd (rr_form w) = (s, [Send (PreviewEmailTemplate i j)]) \<Longrightarrow>
    trial_reach rd (w\<lparr>rr_form := s, rr_asked := Some (rf_revision s, rf_sample s, j)\<rparr>)"
| refused: "trial_reach rd w \<Longrightarrow> trial_submit rd (rr_form w) = (s, []) \<Longrightarrow>
    trial_reach rd (w\<lparr>rr_form := s\<rparr>)"
| answer: "trial_reach rd w \<Longrightarrow> rr_asked w = Some (revision, source, j) \<Longrightarrow>
    s = trial_answer revision source r (rr_form w) \<Longrightarrow>
    trial_reach rd \<lparr>rr_form = s, rr_asked = None,
      rr_shown = (if rf_previewRevision s = revision then Some j else rr_shown w)\<rparr>"

definition trial_inv :: "(string \<Rightarrow> js_number) \<Rightarrow> trial_run \<Rightarrow> bool" where
  "trial_inv rd w \<longleftrightarrow>
     (let s = rr_form w in
      0 \<le> rf_revision s \<and> rf_previewRevision s \<le> rf_revision s \<and>
      (case rr_asked w of
         None \<Rightarrow> \<not> rf_previewing s
       | Some (n, src, j) \<Rightarrow> rf_previewing s \<and> rf_previewRevision s = -1 \<and> 0 \<le> n \<and> n \<le> rf_revision s \<and>
           (n = rf_revision s \<longrightarrow> src = rf_sample s \<and> made_with rd s j)) \<and>
      (rf_previewRevision s = rf_revision s \<longrightarrow>
         rf_resultSource s = Some (rf_sample s) \<and> (\<exists>j. rr_shown w = Some j \<and> made_with rd s j)))"

lemma made_with_cong: "activeData t = activeData s \<Longrightarrow> made_with rd t j = made_with rd s j"
  by (simp add: made_with_def)

lemma trial_inv_edit:
  assumes "trial_inv rd w"
  shows "trial_inv rd (w\<lparr>rr_form := trial_edit rd e (rr_form w)\<rparr>)"
  using assms by (cases e) (auto simp: trial_inv_def Let_def trial_changed_def split: option.splits)

lemma trial_submit_sends:
  assumes "trial_submit rd s = (t, [Send (PreviewEmailTemplate i j)])"
  shows "t = s\<lparr>rf_previewing := True, rf_previewRevision := -1, rf_error := None\<rparr>"
    and "made_with rd s j" and "\<not> rf_previewing s"
  using assms
  by (auto simp: trial_submit_def made_with_def trial_ready_def split: if_splits option.splits json.splits)

lemma trial_submit_refuses:
  assumes "trial_submit rd s = (t, [])"
  shows "\<exists>b e. t = s\<lparr>rf_touched := b, rf_error := e\<rparr>"
  using assms
  by (cases s) (auto simp: trial_submit_def split: if_splits option.splits json.splits)

lemma trial_reach_inv: "trial_reach rd w \<Longrightarrow> trial_inv rd w"
proof (induction rule: trial_reach.induct)
  case (start sample t)
  show ?case by (simp add: trial_inv_def new_trial_def)
next
  case (edit w e)
  then show ?case by (intro trial_inv_edit)
next
  case (submit w s i j)
  note t = trial_submit_sends [OF submit.hyps(2)]
  have "made_with rd s j" using t(1,2) made_with_cong [of s "rr_form w"] by (simp add: activeData_def)
  then show ?case using submit.IH t by (simp add: trial_inv_def Let_def)
next
  case (refused w s)
  obtain b e where s: "s = (rr_form w)\<lparr>rf_touched := b, rf_error := e\<rparr>"
    using trial_submit_refuses [OF refused.hyps(2)] by blast
  show ?case
    using refused.IH made_with_cong [of s "rr_form w"]
    by (auto simp: trial_inv_def Let_def s activeData_def split: option.splits)
next
  case (answer w revision source j s r)
  have act: "activeData s = activeData (rr_form w)"
    by (auto simp: answer.hyps(3) trial_answer_def Let_def activeData_def split: sum.split)
  show ?case
    using answer.IH answer.hyps(2) made_with_cong [OF act]
    by (auto simp: trial_inv_def Let_def answer.hyps(3) trial_answer_def split: sum.splits if_splits)
qed

text \<open>A preview that is announced as current shows the message for the data on the form.\<close>

lemma trial_preview_current:
  assumes "trial_reach rd w" and "trial_current (rr_form w)"
  shows "\<exists>ms. json_parse rd (activeData (rr_form w)) = Some (JObj ms) \<and>
      rr_shown w = Some (JObj [(''data'', JObj ms)]) \<and>
      rf_resultSource (rr_form w) = Some (rf_sample (rr_form w))"
  using trial_reach_inv [OF assms(1)] assms(2)
  by (auto simp: trial_inv_def Let_def trial_current_def made_with_def)

end
