(* ===== verification/Row_Lists.thy ===== *)
theory Row_Lists
  imports Budget_Details Financial_History Emails Crud_Table Api_Request
begin

text \<open>
  The pages that are a table with an editor: budgets and payments
  (\<open>budgets/components/budget-list\<close>, \<open>payment-list\<close>), lots (\<open>units/components/unit-list\<close>), templates,
  campaigns and attachments (\<open>emails/components/email-*-list\<close>). Their source is the plain one of
  \<open>Data_Sources\<close> (for campaigns the paged one); an editor or a deletion that succeeds loads it again.
  What they have in common is that a deletion is sent for confirmed rows only, each confirmation once:
  the locale \<open>confirmed_deletion\<close>.
\<close>

subsection \<open>The contract: deletion after confirmation\<close>

text \<open>
  The dialogs that are open, the rows confirmed so far and the requests sent so far. A dialog is the
  row it asks about.
\<close>

datatype 'row deletion_event = AskDeletion 'row | CloseDeletion nat bool

fun deletion_step ::
  "('row \<Rightarrow> 'e list) \<Rightarrow> ('row \<Rightarrow> bool \<Rightarrow> 'e list) \<Rightarrow> ('e list \<Rightarrow> 'c list) \<Rightarrow> ('e list \<Rightarrow> bool) \<Rightarrow>
   'row deletion_event \<Rightarrow> 'row list \<times> 'row list \<times> 'c list \<Rightarrow> 'row list \<times> 'row list \<times> 'c list" where
  "deletion_step ask reply requests asks (AskDeletion row) (dialogs, confirmed, sent) =
     (if asks (ask row) then dialogs @ [row] else dialogs, confirmed, sent @ requests (ask row))"
| "deletion_step ask reply requests asks (CloseDeletion i b) (dialogs, confirmed, sent) =
     (if length dialogs \<le> i then (dialogs, confirmed, sent)
      else (take i dialogs @ drop (Suc i) dialogs,
            if b then confirmed @ [dialogs ! i] else confirmed,
            sent @ requests (reply (dialogs ! i) b)))"

fun asked_rows :: "'row deletion_event list \<Rightarrow> 'row list" where
  "asked_rows [] = []"
| "asked_rows (AskDeletion row # evs) = row # asked_rows evs"
| "asked_rows (CloseDeletion i b # evs) = asked_rows evs"

text \<open>
  A session with a list: the rows that were confirmed and the requests that were sent.
\<close>

definition deletions ::
  "('row \<Rightarrow> 'e list) \<Rightarrow> ('row \<Rightarrow> bool \<Rightarrow> 'e list) \<Rightarrow> ('e list \<Rightarrow> 'c list) \<Rightarrow> ('e list \<Rightarrow> bool) \<Rightarrow>
   'row deletion_event list \<Rightarrow> 'row list \<times> 'c list" where
  "deletions ask reply requests asks evs =
     snd (fold (deletion_step ask reply requests asks) evs ([], [], []))"

locale confirmed_deletion =
  fixes ask :: "'row \<Rightarrow> 'e list"
    and reply :: "'row \<Rightarrow> bool \<Rightarrow> 'e list"
    and call :: "'row \<Rightarrow> 'c"
    and requests :: "'e list \<Rightarrow> 'c list"
    and asks :: "'e list \<Rightarrow> bool"
  assumes ask_silent: "requests (ask row) = []"
    and ask_asks: "asks (ask row)"
    and refused: "requests (reply row False) = []"
    and confirmed: "requests (reply row True) = [call row]"
begin

lemma sent_confirmed:
  "sent = map call conf \<Longrightarrow>
   fold (deletion_step ask reply requests asks) evs (dialogs, conf, sent) = (dialogs', conf', sent') \<Longrightarrow>
   sent' = map call conf'"
proof (induction evs arbitrary: dialogs conf sent)
  case (Cons ev evs)
  obtain d c t where step: "deletion_step ask reply requests asks ev (dialogs, conf, sent) = (d, c, t)"
    by (cases "deletion_step ask reply requests asks ev (dialogs, conf, sent)")
  have "t = map call c"
    using step Cons.prems(1) ask_silent ask_asks refused confirmed
    by (cases ev) (auto split: if_splits)
  moreover have "fold (deletion_step ask reply requests asks) evs (d, c, t) = (dialogs', conf', sent')"
    using Cons.prems(2) step by simp
  ultimately show ?case by (rule Cons.IH)
qed simp

text \<open>The rows that were confirmed are among those asked about, each at most as often.\<close>

lemma confirmed_asked:
  "fold (deletion_step ask reply requests asks) evs (dialogs, conf, sent) = (dialogs', conf', sent') \<Longrightarrow>
   mset dialogs' + mset conf' \<subseteq># mset dialogs + mset conf + mset (asked_rows evs)"
proof (induction evs arbitrary: dialogs conf sent)
  case (Cons ev evs)
  obtain d c t where step: "deletion_step ask reply requests asks ev (dialogs, conf, sent) = (d, c, t)"
    by (cases "deletion_step ask reply requests asks ev (dialogs, conf, sent)")
  have "mset d + mset c + mset (asked_rows evs) \<subseteq># mset dialogs + mset conf + mset (asked_rows (ev # evs))"
  proof (cases ev)
    case (CloseDeletion i b)
    show ?thesis
    proof (cases "i < length dialogs")
      case True
      then have "mset dialogs = add_mset (dialogs ! i) (mset (take i dialogs @ drop (Suc i) dialogs))"
        by (metis id_take_nth_drop mset_append mset.simps(2) union_mset_add_mset_right)
      with True CloseDeletion step show ?thesis by (auto split: if_splits)
    next
      case False
      with CloseDeletion step show ?thesis by auto
    qed
  qed (use step ask_asks in \<open>auto split: if_splits\<close>)
  moreover have "mset dialogs' + mset conf' \<subseteq># mset d + mset c + mset (asked_rows evs)"
    using Cons.prems step by (intro Cons.IH [of d c t]) simp
  ultimately show ?case by (rule subset_mset.order_trans [rotated])
qed simp

lemma deletes_confirmed_only:
  assumes "deletions ask reply requests asks evs = (conf, sent)"
  shows "sent = map call conf" and "mset conf \<subseteq># mset (asked_rows evs)"
proof -
  obtain dialogs where run: "fold (deletion_step ask reply requests asks) evs ([], [], []) = (dialogs, conf, sent)"
    using assms unfolding deletions_def by (metis prod.collapse)
  show "sent = map call conf" by (rule sent_confirmed [OF _ run]) simp
  have "mset dialogs + mset conf \<subseteq># mset (asked_rows evs)" using confirmed_asked [OF run] by simp
  then show "mset conf \<subseteq># mset (asked_rows evs)" by (metis mset_subset_eq_add_right subset_mset.order_trans)
qed

end

text \<open>
  A list with an editor and a deletion: it is loaded again when the editor reports a change or a row
  was deleted, and only then.
\<close>

datatype 'row list_outcome = Edited bool | Deleted 'row

fun succeeded :: "'row list_outcome \<Rightarrow> bool" where
  "succeeded (Edited b) = b"
| "succeeded (Deleted row) = True"

locale editable_list = confirmed_deletion ask reply call requests asks
  for ask :: "'row \<Rightarrow> 'e list" and reply and call :: "'row \<Rightarrow> 'c" and requests and asks +
  fixes load :: "'s \<Rightarrow> 's \<times> 'e list"
    and edited :: "bool \<Rightarrow> 's \<Rightarrow> 's \<times> 'e list"
    and deleted :: "'row \<Rightarrow> 's \<Rightarrow> 's \<times> 'e list"
  assumes edited_loads: "edited b s = (if b then load s else (s, []))"
    and deleted_loads: "fst (deleted row s) = fst (load s)"
    and deleted_fetches: "requests (snd (deleted row s)) = requests (snd (load s))"
    and no_requests: "requests [] = []"
begin

definition outcome :: "'row list_outcome \<Rightarrow> 's \<Rightarrow> 's \<times> 'e list" where
  "outcome o' s = (case o' of Edited b \<Rightarrow> edited b s | Deleted row \<Rightarrow> deleted row s)"

definition reload :: "'s \<Rightarrow> 's" where
  "reload s = fst (load s)"

lemma outcome_state: "fst (outcome o' s) = (if succeeded o' then reload s else s)"
  by (cases o') (simp_all add: outcome_def edited_loads deleted_loads reload_def)

lemma outcome_requests: "requests (snd (outcome o' s)) = (if succeeded o' then requests (snd (load s)) else [])"
proof (cases o')
  case (Edited b)
  then show ?thesis by (cases b) (simp_all add: outcome_def edited_loads no_requests)
next
  case (Deleted row)
  then show ?thesis by (simp add: outcome_def deleted_fetches)
qed

lemma loads_after_success:
  "fold (\<lambda>o' s. fst (outcome o' s)) os s = (reload ^^ length (filter succeeded os)) s"
  by (induction os arbitrary: s) (simp_all add: outcome_state funpow_swap1)

end

fun is_ask :: "'m ui_effect list \<Rightarrow> bool" where
  "is_ask [Ask m] = True"
| "is_ask _ = False"

subsection \<open>What the pages share\<close>

datatype row_list_message =
    BudgetEditor "ModelsBudgetResult option"
  | BudgetMails ModelsBudgetResult
  | PublishQuestion "string option"
  | BudgetPublished "string option"
  | BudgetNotPublished
  | BudgetQuestion "string option"
  | BudgetDeleted "string option"
  | BudgetNotDeleted
  | PaymentEditor string string "ModelsPayment option"
  | PaymentQuestion
  | PaymentDeleted
  | PaymentNotDeleted
  | UnitEditor "ModelsUnit option"
  | UnitQuestion "int option"
  | UnitDeleted "int option"
  | UnitNotDeleted
  | TemplateEditor "ModelsEmailTemplate option"
  | TemplateAttachments ModelsEmailTemplate
  | TemplatePreview ModelsEmailTemplate
  | TemplateQuestion "string option"
  | TemplateDeleted "string option"
  | TemplateNotDeleted
  | AttachmentEditor ModelsEmailTemplate
  | AttachmentQuestion "string option"
  | AttachmentDeleted "string option"
  | AttachmentNotDeleted
  | PopupsBlocked
  | CampaignQuestion "string option"
  | CampaignDeleted "string option"
  | CampaignNotDeleted

text \<open>A page with a plain source: \<open>refresh\<close> loads it.\<close>

definition list_refresh ::
  "api_call \<Rightarrow> 'row data_source \<Rightarrow> 'row data_source \<times> row_list_message ui_effect list" where
  "list_refresh fetch s = (ds_load s, [Send fetch])"

definition list_edited ::
  "api_call \<Rightarrow> bool \<Rightarrow> 'row data_source \<Rightarrow> 'row data_source \<times> row_list_message ui_effect list" where
  "list_edited fetch result s = (if result then list_refresh fetch s else (s, []))"

definition list_done ::
  "api_call \<Rightarrow> row_list_message \<Rightarrow> 'row data_source \<Rightarrow> 'row data_source \<times> row_list_message ui_effect list" where
  "list_done fetch notice s = (let (s, out) = list_refresh fetch s in (s, out @ [Info notice]))"

lemmas list_defs = list_refresh_def list_edited_def list_done_def Let_def

text \<open>
  The columns of the pages are those of \<open>Crud_Table\<close>. The formats of amounts and dates (\<open>Intl\<close>) are
  the parameters \<open>euros\<close> and \<open>date\<close>.
\<close>

definition row_route :: "string \<Rightarrow> json \<Rightarrow> string" where
  "row_route prefix row = prefix @ js_string (member_of ''id'' (Some row))"

type_synonym cell_format = "json option \<Rightarrow> json option"

subsection \<open>\<open>BudgetListComponent\<close>\<close>

definition budget_columns :: "(string \<Rightarrow> js_number) \<Rightarrow> cell_format \<Rightarrow> column list" where
  "budget_columns rd euros =
     [(new_column rd ''label'')\<lparr>co_label := ''Libell'' @ [CHR 0xE9],
        co_route := Some (row_route ''/budgets/''), co_canSort := True, co_canFilter := True\<rparr>,
      (new_column rd ''draft'')\<lparr>co_label := ''Brouillon'', co_canSort := True\<rparr>,
      (new_column rd ''amount'')\<lparr>co_label := ''Montant'', co_render := euros, co_canSort := True\<rparr>,
      (new_column rd ''paid'')\<lparr>co_label := ''R'' @ [CHR 0xE9] @ ''gl'' @ [CHR 0xE9],
        co_render := euros, co_canSort := True\<rparr>]"

datatype budget_action = PublishAction | MailsAction

definition budget_rowActions :: "auth \<Rightarrow> budget_action list" where
  "budget_rowActions a =
     (if allowed ''budget.PublishBudget'' a then [PublishAction] else []) @
     (if allowed ''budget.SendEmail'' a then [MailsAction] else [])"

definition budget_action_shown :: "ModelsBudgetResult \<Rightarrow> budget_action \<Rightarrow> bool" where
  "budget_action_shown row act =
     (case act of
        PublishAction \<Rightarrow> bur_draft row = Some True
      | MailsAction \<Rightarrow> \<not> truthy_bool (bur_draft row))"

definition budget_publish :: "ModelsBudgetResult \<Rightarrow> row_list_message ui_effect list" where
  "budget_publish row = [Ask (PublishQuestion (bur_label row))]"

definition budget_publish_closed :: "ModelsBudgetResult \<Rightarrow> bool \<Rightarrow> row_list_message ui_effect list" where
  "budget_publish_closed row confirm =
     (if confirm then [Send (PublishBudget (nullish (bur_id row) ''undefined''))] else [])"

definition budget_published ::
  "ModelsBudgetResult \<Rightarrow> ModelsBudgetResult data_source \<Rightarrow>
   ModelsBudgetResult data_source \<times> row_list_message ui_effect list" where
  "budget_published row s = list_done ListBudgets (BudgetPublished (bur_label row)) s"

definition budget_publish_error :: "api_error \<Rightarrow> row_list_message ui_effect list" where
  "budget_publish_error e = [Failure BudgetNotPublished e]"

definition budget_mails :: "ModelsBudgetResult \<Rightarrow> row_list_message ui_effect list" where
  "budget_mails row = [Form (BudgetMails row)]"

definition budget_list_refresh ::
  "ModelsBudgetResult data_source \<Rightarrow> ModelsBudgetResult data_source \<times> row_list_message ui_effect list" where
  "budget_list_refresh s = list_refresh ListBudgets s"

definition budget_list_canEdit :: "auth \<Rightarrow> ModelsBudgetResult \<Rightarrow> bool" where
  "budget_list_canEdit a row = allowed ''budget.UpdateBudget'' a"

definition budget_list_canDelete :: "auth \<Rightarrow> ModelsBudgetResult \<Rightarrow> bool" where
  "budget_list_canDelete a row =
     (if truthy_bool (bur_draft row) then allowed ''budget.DeleteBudget'' a else False)"

definition budget_list_edit :: "ModelsBudgetResult option \<Rightarrow> row_list_message ui_effect list" where
  "budget_list_edit row = [Form (BudgetEditor row)]"

definition budget_list_edited ::
  "bool \<Rightarrow> ModelsBudgetResult data_source \<Rightarrow>
   ModelsBudgetResult data_source \<times> row_list_message ui_effect list" where
  "budget_list_edited result s = list_edited ListBudgets result s"

definition budget_list_delete :: "ModelsBudgetResult \<Rightarrow> row_list_message ui_effect list" where
  "budget_list_delete row = [Ask (BudgetQuestion (bur_label row))]"

definition budget_list_delete_closed ::
  "ModelsBudgetResult \<Rightarrow> bool \<Rightarrow> row_list_message ui_effect list" where
  "budget_list_delete_closed row confirm =
     (if confirm then [Send (DeleteBudget (nullish (bur_id row) ''undefined''))] else [])"

definition budget_list_deleted ::
  "ModelsBudgetResult \<Rightarrow> ModelsBudgetResult data_source \<Rightarrow>
   ModelsBudgetResult data_source \<times> row_list_message ui_effect list" where
  "budget_list_deleted row s = list_done ListBudgets (BudgetDeleted (bur_label row)) s"

definition budget_list_error :: "api_error \<Rightarrow> row_list_message ui_effect list" where
  "budget_list_error e = [Failure BudgetNotDeleted e]"

interpretation budget_deletion:
  editable_list budget_list_delete budget_list_delete_closed
    "\<lambda>row. DeleteBudget (nullish (bur_id row) ''undefined'')" sends is_ask
    budget_list_refresh budget_list_edited budget_list_deleted
  by unfold_locales (simp_all add: budget_list_delete_def budget_list_delete_closed_def
    budget_list_refresh_def budget_list_edited_def budget_list_deleted_def list_defs)

interpretation budget_publication:
  confirmed_deletion budget_publish budget_publish_closed
    "\<lambda>row. PublishBudget (nullish (bur_id row) ''undefined'')" sends is_ask
  by unfold_locales (simp_all add: budget_publish_def budget_publish_closed_def)

text \<open>A row offers its publication or its e-mails, never both, and its deletion only with the first.\<close>

lemma budget_actions_exclusive:
  "\<not> (budget_action_shown row PublishAction \<and> budget_action_shown row MailsAction)"
  "budget_list_canDelete a row \<Longrightarrow> \<not> budget_action_shown row MailsAction"
  "budget_list_canDelete a row \<Longrightarrow> budget_action_shown row PublishAction"
  by (auto simp: budget_action_shown_def budget_list_canDelete_def truthy_bool_def split: option.splits if_splits)

subsection \<open>\<open>PaymentListComponent\<close>\<close>

datatype payment_view = Situation | PaymentsView

record payment_list =
  pl_budgetId :: string
  pl_cotisationId :: string
  pl_view :: payment_view
  pl_loadError :: bool
  pl_budget :: "ModelsBudgetResult option"
  pl_payments :: "ModelsPayment data_source option"
  pl_history :: "financial_history option"

definition new_payment_list :: "string \<Rightarrow> string \<Rightarrow> payment_list" where
  "new_payment_list budgetId cotisationId =
     \<lparr>pl_budgetId = budgetId, pl_cotisationId = cotisationId, pl_view = Situation,
      pl_loadError = False, pl_budget = None, pl_payments = None, pl_history = None\<rparr>"

definition payment_columns :: "(string \<Rightarrow> js_number) \<Rightarrow> cell_format \<Rightarrow> cell_format \<Rightarrow> column list" where
  "payment_columns rd date euros =
     [(new_column rd ''date'')\<lparr>co_label := ''Date'', co_render := date\<rparr>,
      (new_column rd ''comment'')\<lparr>co_label := ''Commentaire''\<rparr>,
      (new_column rd ''amount'')\<lparr>co_label := ''Montant'', co_render := euros\<rparr>,
      (new_column rd ''user.username'')\<lparr>co_label := ''Enregistr'' @ [CHR 0xE9] @ '' par''\<rparr>]"

definition setPaymentView :: "payment_view \<Rightarrow> payment_list \<Rightarrow> payment_list" where
  "setPaymentView view s =
     (if (case pl_history s of None \<Rightarrow> False | Some h \<Rightarrow> fh_busy h) then s else s\<lparr>pl_view := view\<rparr>)"

definition loadBudget :: "payment_list \<Rightarrow> row_list_message ui_effect list" where
  "loadBudget s = [Send (GetBudget (pl_budgetId s))]"

definition loadBudget_answer ::
  "api_error + ModelsBudgetResult option \<Rightarrow> payment_list \<Rightarrow> payment_list" where
  "loadBudget_answer r s =
     (case r of
        Inl e \<Rightarrow> s\<lparr>pl_loadError := True\<rparr>
      | Inr b \<Rightarrow>
          s\<lparr>pl_loadError := False, pl_budget := b,
            pl_payments := (case Option.bind b bur_id of None \<Rightarrow> None | Some i \<Rightarrow> Some new_source)\<rparr>)"

definition payment_rows_call :: "payment_list \<Rightarrow> api_call" where
  "payment_rows_call s =
     payments_fetch (nullish (Option.bind (pl_budget s) bur_id) []) (pl_cotisationId s)"

definition payment_list_refresh :: "payment_list \<Rightarrow> payment_list \<times> row_list_message ui_effect list" where
  "payment_list_refresh s =
     (s\<lparr>pl_history := map_option fh_load (pl_history s),
        pl_payments := map_option ds_load (pl_payments s)\<rparr>,
      (case pl_history s of None \<Rightarrow> [] | Some h \<Rightarrow> map Send (sends (fh_load_calls h))) @
      (case pl_payments s of None \<Rightarrow> [] | Some ds \<Rightarrow> [Send (payment_rows_call s)]))"

definition payment_edit ::
  "ModelsPayment option \<Rightarrow> payment_list \<Rightarrow> row_list_message ui_effect list" where
  "payment_edit payment s = [Form (PaymentEditor (pl_budgetId s) (pl_cotisationId s) payment)]"

definition payment_edited :: "bool \<Rightarrow> payment_list \<Rightarrow> payment_list \<times> row_list_message ui_effect list" where
  "payment_edited result s = (if result then payment_list_refresh s else (s, []))"

definition payment_canEdit :: "auth \<Rightarrow> ModelsPayment \<Rightarrow> bool" where
  "payment_canEdit a row = allowed ''budget.UpdatePayment'' a"

definition payment_canDelete :: "auth \<Rightarrow> ModelsPayment \<Rightarrow> bool" where
  "payment_canDelete a row = allowed ''budget.DeletePayment'' a"

definition payment_delete :: "ModelsPayment \<Rightarrow> row_list_message ui_effect list" where
  "payment_delete row = [Ask PaymentQuestion]"

definition payment_delete_closed ::
  "payment_list \<Rightarrow> ModelsPayment \<Rightarrow> bool \<Rightarrow> row_list_message ui_effect list" where
  "payment_delete_closed s row confirm =
     (if confirm then [Send (DeletePayment (pl_budgetId s) (pl_cotisationId s)
                        (nullish (pay_id row) ''undefined''))] else [])"

definition payment_deleted :: "payment_list \<Rightarrow> payment_list \<times> row_list_message ui_effect list" where
  "payment_deleted s = (let (s, out) = payment_list_refresh s in (s, out @ [Info PaymentDeleted]))"

definition payment_delete_error :: "api_error \<Rightarrow> row_list_message ui_effect list" where
  "payment_delete_error e = [Failure PaymentNotDeleted e]"

interpretation payment_deletion:
  editable_list payment_delete "payment_delete_closed d"
    "\<lambda>row. DeletePayment (pl_budgetId d) (pl_cotisationId d) (nullish (pay_id row) ''undefined'')"
    sends is_ask payment_list_refresh payment_edited "\<lambda>row. payment_deleted" for d
  by unfold_locales (simp_all add: payment_delete_def payment_delete_closed_def payment_edited_def
    payment_deleted_def split_beta Let_def)

text \<open>
  While an operation of the ledger is in flight the view stays; a payment that was saved or deleted
  renews both the ledger and the payments.
\<close>

lemma setPaymentView_busy: "pl_history s = Some h \<Longrightarrow> fh_busy h \<Longrightarrow> setPaymentView v s = s"
  by (simp add: setPaymentView_def)

lemma payment_refresh_calls:
  assumes "pl_history s = Some h" and "fh_alive h" and "pl_payments s \<noteq> None"
  shows "sends (snd (payment_list_refresh s)) =
    [ListCotisations (fh_budgetId h), ListFinancialEntries (fh_budgetId h) (fh_cotisationId h),
     payment_rows_call s]"
  using assms by (auto simp: payment_list_refresh_def fh_load_calls_def)

subsection \<open>\<open>UnitListComponent\<close>\<close>

definition unit_columns :: "(string \<Rightarrow> js_number) \<Rightarrow> column list" where
  "unit_columns rd =
     [(new_column rd ''number'')\<lparr>co_label := ''Num'' @ [CHR 0xE9] @ ''ro'', co_canSort := True,
        co_defaultSort := True, co_canFilter := True\<rparr>,
      (new_column rd ''share'')\<lparr>co_label := ''Parts'', co_canSort := True\<rparr>,
      (new_column rd ''address'')\<lparr>co_label := ''Adresse'', co_canFilter := True\<rparr>]"

definition units_fetch :: api_call where
  "units_fetch = ListUnits"

definition unit_list_refresh ::
  "ModelsUnit data_source \<Rightarrow> ModelsUnit data_source \<times> row_list_message ui_effect list" where
  "unit_list_refresh s = list_refresh units_fetch s"

definition unit_list_rights :: "auth \<Rightarrow> bool \<times> bool \<times> bool" where
  "unit_list_rights a =
     (allowed ''unit.CreateUnit'' a, allowed ''unit.UpdateUnit'' a, allowed ''unit.DeleteUnit'' a)"

definition unit_list_edit :: "ModelsUnit option \<Rightarrow> row_list_message ui_effect list" where
  "unit_list_edit row = [Form (UnitEditor row)]"

definition unit_list_edited ::
  "bool \<Rightarrow> ModelsUnit data_source \<Rightarrow> ModelsUnit data_source \<times> row_list_message ui_effect list" where
  "unit_list_edited result s = list_edited units_fetch result s"

definition unit_list_delete :: "ModelsUnit \<Rightarrow> row_list_message ui_effect list" where
  "unit_list_delete row = [Ask (UnitQuestion (unt_number row))]"

definition unit_list_delete_closed :: "ModelsUnit \<Rightarrow> bool \<Rightarrow> row_list_message ui_effect list" where
  "unit_list_delete_closed row confirm =
     (if confirm then [Send (DeleteUnit (nullish (unt_id row) ''undefined''))] else [])"

definition unit_list_deleted ::
  "ModelsUnit \<Rightarrow> ModelsUnit data_source \<Rightarrow> ModelsUnit data_source \<times> row_list_message ui_effect list" where
  "unit_list_deleted row s = list_done units_fetch (UnitDeleted (unt_number row)) s"

definition unit_list_error :: "api_error \<Rightarrow> row_list_message ui_effect list" where
  "unit_list_error e = [Failure UnitNotDeleted e]"

interpretation unit_deletion:
  editable_list unit_list_delete unit_list_delete_closed
    "\<lambda>row. DeleteUnit (nullish (unt_id row) ''undefined'')" sends is_ask
    unit_list_refresh unit_list_edited unit_list_deleted
  by unfold_locales (simp_all add: unit_list_delete_def unit_list_delete_closed_def
    unit_list_refresh_def unit_list_edited_def unit_list_deleted_def list_defs)

subsection \<open>\<open>EmailTemplateListComponent\<close>\<close>

definition templates_fetch :: api_call where
  "templates_fetch = ListEmailTemplates"

definition template_list_refresh ::
  "ModelsEmailTemplate data_source \<Rightarrow> ModelsEmailTemplate data_source \<times> row_list_message ui_effect list" where
  "template_list_refresh s = list_refresh templates_fetch s"

definition template_list_rights :: "auth \<Rightarrow> bool \<times> bool \<times> bool" where
  "template_list_rights a =
     (allowed ''email.CreateEmailTemplate'' a, allowed ''email.UpdateEmailTemplate'' a,
      allowed ''email.DeleteEmailTemplate'' a)"

definition template_attachments :: "ModelsEmailTemplate \<Rightarrow> row_list_message ui_effect list" where
  "template_attachments row = [Form (TemplateAttachments row)]"

text \<open>The list is loaded again whatever the dialog of the attachments closes with.\<close>

definition template_attachments_closed ::
  "ModelsEmailTemplate data_source \<Rightarrow> ModelsEmailTemplate data_source \<times> row_list_message ui_effect list" where
  "template_attachments_closed s = template_list_refresh s"

definition template_preview :: "ModelsEmailTemplate \<Rightarrow> row_list_message ui_effect list" where
  "template_preview row = [Form (TemplatePreview row)]"

definition attachments_count :: "json \<Rightarrow> json option" where
  "attachments_count row =
     (case member_of ''length'' (member_of ''attachments'' (Some row)) of
        None \<Rightarrow> Some (JNum Zero)
      | Some v \<Rightarrow> Some v)"

definition template_columns :: "(string \<Rightarrow> js_number) \<Rightarrow> column list" where
  "template_columns rd =
     [(new_column rd ''label'')\<lparr>co_label := ''Libell'' @ [CHR 0xE9], co_canSort := True,
        co_canFilter := True\<rparr>,
      (new_column rd ''subject'')\<lparr>co_label := ''Objet'', co_canSort := True, co_canFilter := True\<rparr>,
      (custom_column rd ''attachments'' attachments_count)
        \<lparr>co_label := ''Pi'' @ [CHR 0xE8] @ ''ces jointes'', co_canSort := True\<rparr>,
      (new_column rd ''message'')\<lparr>co_hidden := True, co_canFilter := True\<rparr>]"

definition template_list_edit :: "ModelsEmailTemplate option \<Rightarrow> row_list_message ui_effect list" where
  "template_list_edit row = [Form (TemplateEditor row)]"

definition template_list_edited ::
  "bool \<Rightarrow> ModelsEmailTemplate data_source \<Rightarrow>
   ModelsEmailTemplate data_source \<times> row_list_message ui_effect list" where
  "template_list_edited result s = list_edited templates_fetch result s"

definition template_list_delete :: "ModelsEmailTemplate \<Rightarrow> row_list_message ui_effect list" where
  "template_list_delete row = [Ask (TemplateQuestion (tpl_label row))]"

definition template_list_delete_closed ::
  "ModelsEmailTemplate \<Rightarrow> bool \<Rightarrow> row_list_message ui_effect list" where
  "template_list_delete_closed row confirm =
     (if confirm then [Send (DeleteEmailTemplate (nullish (tpl_id row) ''undefined''))] else [])"

definition template_list_deleted ::
  "ModelsEmailTemplate \<Rightarrow> ModelsEmailTemplate data_source \<Rightarrow>
   ModelsEmailTemplate data_source \<times> row_list_message ui_effect list" where
  "template_list_deleted row s = list_done templates_fetch (TemplateDeleted (tpl_label row)) s"

definition template_list_error :: "api_error \<Rightarrow> row_list_message ui_effect list" where
  "template_list_error e = [Failure TemplateNotDeleted e]"

interpretation template_deletion:
  editable_list template_list_delete template_list_delete_closed
    "\<lambda>row. DeleteEmailTemplate (nullish (tpl_id row) ''undefined'')" sends is_ask
    template_list_refresh template_list_edited template_list_deleted
  by unfold_locales (simp_all add: template_list_delete_def template_list_delete_closed_def
    template_list_refresh_def template_list_edited_def template_list_deleted_def list_defs)

subsection \<open>\<open>EmailAttachmentListComponent\<close>\<close>

definition attachments_fetch :: "ModelsEmailTemplate \<Rightarrow> api_call" where
  "attachments_fetch t = ListEmailAttachments (nullish (tpl_id t) ''undefined'')"

definition attachment_columns :: "(string \<Rightarrow> js_number) \<Rightarrow> column list" where
  "attachment_columns rd =
     [(new_column rd ''name'')\<lparr>co_label := ''Nom'', co_canSort := True, co_canFilter := True\<rparr>,
      (new_column rd ''inline'')\<lparr>co_label := ''Int'' @ [CHR 0xE9] @ ''gr'' @ [CHR 0xE9] @ ''e au message'',
        co_canSort := True\<rparr>,
      (new_column rd ''size'')\<lparr>co_label := ''Taille'', co_canSort := True\<rparr>,
      (new_column rd ''content_type'')\<lparr>co_label := ''Type de fichier'', co_canSort := True,
        co_canFilter := True\<rparr>]"

definition attachment_list_refresh ::
  "ModelsEmailTemplate \<Rightarrow> ModelsAttachment data_source \<Rightarrow>
   ModelsAttachment data_source \<times> row_list_message ui_effect list" where
  "attachment_list_refresh t s = list_refresh (attachments_fetch t) s"

definition attachment_list_rights :: "auth \<Rightarrow> bool \<times> bool" where
  "attachment_list_rights a = (allowed ''email.AddAttachment'' a, allowed ''email.RemoveAttachment'' a)"

definition attachment_list_edit :: "ModelsEmailTemplate \<Rightarrow> row_list_message ui_effect list" where
  "attachment_list_edit t = [Form (AttachmentEditor t)]"

definition attachment_list_edited ::
  "ModelsEmailTemplate \<Rightarrow> bool \<Rightarrow> ModelsAttachment data_source \<Rightarrow>
   ModelsAttachment data_source \<times> row_list_message ui_effect list" where
  "attachment_list_edited t result s = list_edited (attachments_fetch t) result s"

text \<open>
  A download is a request for the bytes of the file at an address of its own. \<open>windowOpened\<close>: whether the
  browser windowOpened a window on the downloaded file.
\<close>

definition attachment_download :: "ModelsEmailTemplate \<Rightarrow> ModelsAttachment \<Rightarrow> string" where
  "attachment_download t row =
     getEmailAttachment (nullish (tpl_id t) ''undefined'') (nullish (att_id row) ''undefined'')"

definition attachment_downloaded :: "bool \<Rightarrow> row_list_message ui_effect list" where
  "attachment_downloaded windowOpened = (if windowOpened then [] else [Info PopupsBlocked])"

definition attachment_list_delete :: "ModelsAttachment \<Rightarrow> row_list_message ui_effect list" where
  "attachment_list_delete row = [Ask (AttachmentQuestion (att_name row))]"

definition attachment_list_delete_closed ::
  "ModelsEmailTemplate \<Rightarrow> ModelsAttachment \<Rightarrow> bool \<Rightarrow> row_list_message ui_effect list" where
  "attachment_list_delete_closed t row confirm =
     (if confirm then [Send (DeleteEmailAttachment (nullish (tpl_id t) ''undefined'')
                        (nullish (att_id row) ''undefined''))] else [])"

definition attachment_list_deleted ::
  "ModelsEmailTemplate \<Rightarrow> ModelsAttachment \<Rightarrow> ModelsAttachment data_source \<Rightarrow>
   ModelsAttachment data_source \<times> row_list_message ui_effect list" where
  "attachment_list_deleted t row s = list_done (attachments_fetch t) (AttachmentDeleted (att_name row)) s"

definition attachment_list_error :: "api_error \<Rightarrow> row_list_message ui_effect list" where
  "attachment_list_error e = [Failure AttachmentNotDeleted e]"

definition attachment_list_close :: "row_list_message ui_effect list" where
  "attachment_list_close = [CloseDialog False]"

interpretation attachment_deletion:
  editable_list attachment_list_delete "attachment_list_delete_closed t"
    "\<lambda>row. DeleteEmailAttachment (nullish (tpl_id t) ''undefined'') (nullish (att_id row) ''undefined'')"
    sends is_ask
    "attachment_list_refresh t" "attachment_list_edited t" "attachment_list_deleted t" for t
  by unfold_locales (simp_all add: attachment_list_delete_def attachment_list_delete_closed_def
    attachment_list_refresh_def attachment_list_edited_def attachment_list_deleted_def list_defs)

subsection \<open>\<open>EmailCampaignListComponent\<close>\<close>

text \<open>The numbers of e-mails by state, those that are not 0, in the order of the list.\<close>

definition campaign_counts :: "(string \<Rightarrow> js_number) \<Rightarrow> json option \<Rightarrow> string" where
  "campaign_counts rd counts =
     (if \<not> truthy (member_of ''total'' counts) then ''Aucun e-mail''
      else join_str '' / ''
        (map (\<lambda>(v, label). js_string v @ '' '' @ label)
          (filter (\<lambda>(v, label). number_less Zero (to_number rd v))
            [(member_of ''successful'' counts,
              if strict_equal (member_of ''successful'' counts) (Some (JNum (Dec False 1 1)))
              then ''envoy'' @ [CHR 0xE9] else ''envoy'' @ [CHR 0xE9] @ ''s''),
             (member_of ''waiting'' counts, ''en attente''),
             (member_of ''sending'' counts, ''en cours''),
             (member_of ''error'' counts, ''en erreur''),
             (member_of ''unknown'' counts, [CHR 0xE0] @ '' v'' @ [CHR 0xE9] @ ''rifier'')])))"

definition campaign_columns :: "(string \<Rightarrow> js_number) \<Rightarrow> cell_format \<Rightarrow> column list" where
  "campaign_columns rd date =
     [(new_column rd ''title'')\<lparr>co_label := ''Titre'', co_canSort := True, co_canFilter := True,
        co_route := Some (row_route ''/emails/campaigns/'')\<rparr>,
      (new_column rd ''created_at'')\<lparr>co_label := ''Date'', co_canSort := True, co_render := date\<rparr>,
      (new_column rd ''counts'')\<lparr>co_label := ''E-mails'',
        co_render := (\<lambda>v. Some (JStr (campaign_counts rd v)))\<rparr>]"

definition campaign_list_refresh ::
  "ModelsEmailCampaignSummary paged_source \<Rightarrow>
   ModelsEmailCampaignSummary paged_source \<times> row_list_message ui_effect list" where
  "campaign_list_refresh s =
     (pg_load campaigns_fetchPage 0 s, if ds_closed s then [] else [Send (campaigns_fetchPage s)])"

definition campaign_canDelete :: "auth \<Rightarrow> ModelsEmailCampaignSummary \<Rightarrow> bool" where
  "campaign_canDelete a row = allowed ''email.DeleteEmailCampaign'' a"

definition campaign_delete :: "ModelsEmailCampaignSummary \<Rightarrow> row_list_message ui_effect list" where
  "campaign_delete row = [Ask (CampaignQuestion (csm_title row))]"

definition campaign_delete_closed ::
  "ModelsEmailCampaignSummary \<Rightarrow> bool \<Rightarrow> row_list_message ui_effect list" where
  "campaign_delete_closed row confirm =
     (if confirm then [Send (DeleteEmailCampaign (nullish (csm_id row) ''undefined''))] else [])"

definition campaign_deleted ::
  "ModelsEmailCampaignSummary \<Rightarrow> ModelsEmailCampaignSummary paged_source \<Rightarrow>
   ModelsEmailCampaignSummary paged_source \<times> row_list_message ui_effect list" where
  "campaign_deleted row s =
     (let (s, out) = campaign_list_refresh s in (s, out @ [Info (CampaignDeleted (csm_title row))]))"

definition campaign_delete_error :: "api_error \<Rightarrow> row_list_message ui_effect list" where
  "campaign_delete_error e = [Failure CampaignNotDeleted e]"

interpretation campaign_deletion:
  confirmed_deletion campaign_delete campaign_delete_closed
    "\<lambda>row. DeleteEmailCampaign (nullish (csm_id row) ''undefined'')" sends is_ask
  by unfold_locales (simp_all add: campaign_delete_def campaign_delete_closed_def)

lemma sample_counts:
  "campaign_counts rd (Some (JObj [(''total'', JNum (Dec False 3 1)), (''successful'', JNum (Dec False 1 1)),
     (''waiting'', JNum (Dec False 2 1)), (''sending'', JNum Zero)])) =
   ''1 envoy'' @ [CHR 0xE9] @ '' / 2 en attente''"
  by code_simp

text \<open>The contract in the form of the property: one case distinction instead of an equation.\<close>

lemma deletions_case:
  assumes "\<And>rows calls. deletions ask reply sends is_ask evs = (rows, calls) \<Longrightarrow> P rows calls"
  shows "case deletions ask reply sends is_ask evs of (rows, calls) \<Rightarrow> P rows calls"
  using assms by (simp split: prod.split)

text \<open>
  C34. Nothing is deleted or published without its confirmation. In every session with the lists of
  budgets, payments, lots, templates, attachments and campaigns, whatever dialogs are opened, closed,
  confirmed or refused in any order, the requests sent are exactly one for each confirmation, for the
  confirmed row and in the order of the confirmations, and no row is confirmed more often than the
  user was asked about it.
\<close>
theorem rows_deleted_after_confirmation:
  "(case deletions budget_list_delete budget_list_delete_closed sends is_ask es\<^sub>1 of (rows, calls) \<Rightarrow>
      calls = map (\<lambda>row. DeleteBudget (nullish (bur_id row) ''undefined'')) rows \<and>
      mset rows \<subseteq># mset (asked_rows es\<^sub>1)) \<and>
   (case deletions budget_publish budget_publish_closed sends is_ask es\<^sub>2 of (rows, calls) \<Rightarrow>
      calls = map (\<lambda>row. PublishBudget (nullish (bur_id row) ''undefined'')) rows \<and>
      mset rows \<subseteq># mset (asked_rows es\<^sub>2)) \<and>
   (case deletions payment_delete (payment_delete_closed d) sends is_ask es\<^sub>3 of (rows, calls) \<Rightarrow>
      calls = map (\<lambda>row. DeletePayment (pl_budgetId d) (pl_cotisationId d) (nullish (pay_id row) ''undefined'')) rows \<and>
      mset rows \<subseteq># mset (asked_rows es\<^sub>3)) \<and>
   (case deletions unit_list_delete unit_list_delete_closed sends is_ask es\<^sub>4 of (rows, calls) \<Rightarrow>
      calls = map (\<lambda>row. DeleteUnit (nullish (unt_id row) ''undefined'')) rows \<and>
      mset rows \<subseteq># mset (asked_rows es\<^sub>4)) \<and>
   (case deletions template_list_delete template_list_delete_closed sends is_ask es\<^sub>5 of (rows, calls) \<Rightarrow>
      calls = map (\<lambda>row. DeleteEmailTemplate (nullish (tpl_id row) ''undefined'')) rows \<and>
      mset rows \<subseteq># mset (asked_rows es\<^sub>5)) \<and>
   (case deletions attachment_list_delete (attachment_list_delete_closed t) sends is_ask es\<^sub>6 of (rows, calls) \<Rightarrow>
      calls = map (\<lambda>row. DeleteEmailAttachment (nullish (tpl_id t) ''undefined'') (nullish (att_id row) ''undefined'')) rows \<and>
      mset rows \<subseteq># mset (asked_rows es\<^sub>6)) \<and>
   (case deletions campaign_delete campaign_delete_closed sends is_ask es\<^sub>7 of (rows, calls) \<Rightarrow>
      calls = map (\<lambda>row. DeleteEmailCampaign (nullish (csm_id row) ''undefined'')) rows \<and>
      mset rows \<subseteq># mset (asked_rows es\<^sub>7))"
  by (intro conjI; rule deletions_case; intro conjI)
    (erule budget_deletion.deletes_confirmed_only
     | erule budget_publication.deletes_confirmed_only
     | erule payment_deletion.deletes_confirmed_only
     | erule unit_deletion.deletes_confirmed_only
     | erule template_deletion.deletes_confirmed_only
     | erule attachment_deletion.deletes_confirmed_only
     | erule campaign_deletion.deletes_confirmed_only)+

end
