(* ===== verification/Interactive_Map.thy ===== *)
theory Interactive_Map
  imports Js_Text Sorting_Js
begin

text \<open>
  \<open>shared/components/interactive-map\<close>: the lots drawn in an SVG as a group of buttons with one tab
  stop, moved by the arrow keys in the order of the numbers. The elements are a store: a list in
  document order, an element being its position; \<open>unitElements\<close> refers to them. The browser is
  modelled as far as the code relies on it: class lists, attributes, the focused element, and that
  only an element with a \<open>tabindex\<close> takes the focus.
\<close>

subsection \<open>Elements\<close>

record unit_element =
  ue_id :: string
  ue_classes :: "string list"
  ue_role :: "string option"
  ue_focusable :: "string option"
  ue_ariaLabel :: "string option"
  ue_current :: bool
  ue_tabindex :: "int option"
  ue_bound :: bool
  ue_labels :: "string list list"

definition new_unit :: "string \<Rightarrow> string list list \<Rightarrow> unit_element" where
  "new_unit i labels =
     \<lparr>ue_id = i, ue_classes = [], ue_role = None, ue_focusable = None, ue_ariaLabel = None,
      ue_current = False, ue_tabindex = None, ue_bound = False, ue_labels = labels\<rparr>"

text \<open>\<open>classList\<close>: an ordered set of tokens.\<close>

definition class_add :: "string \<Rightarrow> string list \<Rightarrow> string list" where
  "class_add c cs = (if c \<in> set cs then cs else cs @ [c])"

definition class_remove :: "string \<Rightarrow> string list \<Rightarrow> string list" where
  "class_remove c cs = filter (\<lambda>d. d \<noteq> c) cs"

definition class_toggle :: "string \<Rightarrow> bool \<Rightarrow> string list \<Rightarrow> string list" where
  "class_toggle c b cs = (if b then class_add c cs else class_remove c cs)"

text \<open>\<open>split(/\s+/).filter(Boolean)\<close>.\<close>

definition class_tokens :: "string \<Rightarrow> string list" where
  "class_tokens s =
     filter (\<lambda>t. t \<noteq> []) (split_char CHR '' '' (map (\<lambda>c. if is_space c then CHR '' '' else c) s))"

text \<open>The number of an element whose identifier is \<open>unit-\<close> and digits, as those of the SVG are.\<close>

definition unit_number :: "string \<Rightarrow> int" where
  "unit_number i =
     (let t = drop 5 i; t = (if starts_with t ''0'' then drop 1 t else t)
      in foldl (\<lambda>n c. 10 * n + (of_char c - 48)) 0 t)"

definition lot_id :: "nat \<Rightarrow> string" where
  "lot_id n = ''unit-'' @ (if n < 10 then ''0'' else []) @ nat_str n"

text \<open>The lots of the SVG in document order, each with a label.\<close>

definition svg_units :: "unit_element list" where
  "svg_units = map (\<lambda>n. new_unit (lot_id n) [[]]) (rev [1..<43])"

abbreviation ue_number :: "unit_element \<Rightarrow> int" where
  "ue_number e \<equiv> unit_number (ue_id e)"

subsection \<open>The component\<close>

record interactive_map =
  im_elements :: "unit_element list"
  im_units :: "(int \<times> nat) list"
  im_ready :: bool
  im_interactive :: bool
  im_showLabels :: bool
  im_hoverClass :: string
  im_width :: "number option"
  im_height :: "number option"
  im_svgWidth :: "number option"
  im_svgHeight :: "number option"
  im_classes :: "int \<Rightarrow> string option"
  im_applied :: "int \<Rightarrow> string list option"
  im_highlighted :: "int list"
  im_selected :: "int option"
  im_active :: "int option"
  im_focus :: "nat option"

definition new_map :: "unit_element list \<Rightarrow> interactive_map" where
  "new_map els =
     \<lparr>im_elements = els, im_units = [], im_ready = False, im_interactive = True,
      im_showLabels = True, im_hoverClass = [], im_width = None, im_height = None,
      im_svgWidth = None, im_svgHeight = None, im_classes = Map.empty, im_applied = Map.empty,
      im_highlighted = [], im_selected = None, im_active = None, im_focus = None\<rparr>"

definition foreachUnits :: "(int \<Rightarrow> unit_element \<Rightarrow> unit_element) \<Rightarrow> interactive_map \<Rightarrow> interactive_map" where
  "foreachUnits f s = s\<lparr>im_elements := map (\<lambda>e. f (ue_number e) e) (im_elements s)\<rparr>"

text \<open>\<open>this.unitElements.forEach\<close>: the elements the list refers to, one after the other.\<close>

definition update_units ::
  "(int \<Rightarrow> unit_element \<Rightarrow> unit_element) \<Rightarrow> interactive_map \<Rightarrow> interactive_map" where
  "update_units f s =
     s\<lparr>im_elements := fold (\<lambda>(n, p) els. els[p := f n (els ! p)]) (im_units s) (im_elements s)\<rparr>"

definition setSelection :: "interactive_map \<Rightarrow> interactive_map" where
  "setSelection s =
     foreachUnits (\<lambda>n e. e\<lparr>
         ue_classes := class_toggle ''unit-selected'' (im_interactive s \<and> im_selected s = Some n)
           (class_toggle ''unit-highlighted'' (im_interactive s \<and> n \<in> set (im_highlighted s))
             (ue_classes e)),
         ue_current := (im_interactive s \<and> im_selected s = Some n)\<rparr>) s"

definition active_or_first :: "interactive_map \<Rightarrow> int option" where
  "active_or_first s =
     (if list_ex (\<lambda>(n, p). im_active s = Some n) (im_units s) then im_active s
      else case im_units s of [] \<Rightarrow> None | u # us \<Rightarrow> Some (fst u))"

definition setTabStops :: "interactive_map \<Rightarrow> interactive_map" where
  "setTabStops s =
     (if \<not> im_interactive s then update_units (\<lambda>n e. e\<lparr>ue_tabindex := None\<rparr>) s
      else let s = s\<lparr>im_active := active_or_first s\<rparr>
           in update_units (\<lambda>n e. e\<lparr>ue_tabindex := Some (if im_active s = Some n then 0 else -1)\<rparr>) s)"

definition lot_text :: "bool \<Rightarrow> int \<Rightarrow> string" where
  "lot_text b n = (if b then ''Consulter le lot '' else ''Lot '') @ int_str n"

definition updateInteraction :: "interactive_map \<Rightarrow> interactive_map" where
  "updateInteraction s =
     (let b = im_interactive s; hover = im_hoverClass s;
          t = update_units (\<lambda>n e. e\<lparr>
            ue_role := (if b then Some ''button'' else None),
            ue_focusable := (if b then None else Some ''false''),
            ue_bound := b,
            ue_ariaLabel := Some (lot_text b n),
            ue_classes := (if \<not> b \<and> hover \<noteq> [] then class_remove hover (ue_classes e)
                           else ue_classes e)\<rparr>) s;
          t = (if \<not> b \<and> im_focus s \<in> Some ` snd ` set (im_units s) then t\<lparr>im_focus := None\<rparr> else t)
      in setTabStops (setSelection t))"

fun apply_classes ::
  "(int \<Rightarrow> string option) \<Rightarrow> (int \<Rightarrow> string list option) \<Rightarrow> unit_element list \<Rightarrow>
   unit_element list \<times> (int \<Rightarrow> string list option)" where
  "apply_classes classes applied [] = ([], applied)"
| "apply_classes classes applied (e # es) =
     (let n = ue_number e; toks = class_tokens (nullish (classes n) []);
          cs = fold class_remove (nullish (applied n) []) (ue_classes e);
          (es', applied') = apply_classes classes (applied(n \<mapsto> toks)) es
      in (e\<lparr>ue_classes := fold class_add toks cs\<rparr> # es', applied'))"

definition setUnitClasses :: "(int \<Rightarrow> string option) \<Rightarrow> interactive_map \<Rightarrow> interactive_map" where
  "setUnitClasses classes s =
     (let (els, applied) = apply_classes classes (im_applied s) (im_elements s)
      in s\<lparr>im_elements := els, im_applied := applied\<rparr>)"

definition setShowLabels :: "bool \<Rightarrow> interactive_map \<Rightarrow> interactive_map" where
  "setShowLabels v s =
     foreachUnits (\<lambda>n e. e\<lparr>ue_labels := map (class_toggle ''hidden'' (\<not> v)) (ue_labels e)\<rparr>) s"

subsection \<open>Inputs\<close>

text \<open>
  \<open>scale v a b\<close> is the number \<open>v * a / b\<close> as the language rounds it; 1871 by 1459.47 are the sides of
  the drawing.
\<close>

type_synonym scaling = "number \<Rightarrow> number \<Rightarrow> number \<Rightarrow> number"

definition svg_width :: number where "svg_width = 1871"

definition svg_height :: number where "svg_height = 145947 / 100"

definition set_interactive :: "bool \<Rightarrow> interactive_map \<Rightarrow> interactive_map" where
  "set_interactive v s =
     (let s = s\<lparr>im_interactive := v\<rparr> in if im_ready s then updateInteraction s else s)"

definition set_highlightedUnits :: "int list option \<Rightarrow> interactive_map \<Rightarrow> interactive_map" where
  "set_highlightedUnits us s =
     (let s = s\<lparr>im_highlighted := nullish us []\<rparr> in if im_ready s then setSelection s else s)"

definition set_selectedUnit :: "int option \<Rightarrow> interactive_map \<Rightarrow> interactive_map" where
  "set_selectedUnit n s =
     (let s = s\<lparr>im_selected := n, im_active := (if n = None then im_active s else n)\<rparr>
      in if im_ready s then setTabStops (setSelection s) else s)"

definition setWidth :: "number \<Rightarrow> interactive_map \<Rightarrow> interactive_map" where
  "setWidth v s = s\<lparr>im_svgWidth := Some v\<rparr>"

definition setHeight :: "number \<Rightarrow> interactive_map \<Rightarrow> interactive_map" where
  "setHeight v s = s\<lparr>im_svgHeight := Some v\<rparr>"

definition set_width :: "scaling \<Rightarrow> number \<Rightarrow> interactive_map \<Rightarrow> interactive_map" where
  "set_width scale v s =
     (let s = s\<lparr>im_width := Some v,
            im_height := (if im_height s = None then Some (scale v svg_height svg_width) else im_height s)\<rparr>
      in if im_ready s then setWidth v s else s)"

definition set_height :: "scaling \<Rightarrow> number \<Rightarrow> interactive_map \<Rightarrow> interactive_map" where
  "set_height scale v s =
     (let s = s\<lparr>im_height := Some v,
            im_width := (if im_width s = None then Some (scale v svg_width svg_height) else im_width s)\<rparr>
      in if im_ready s then setHeight v s else s)"

definition set_unitClasses :: "(int \<Rightarrow> string option) \<Rightarrow> interactive_map \<Rightarrow> interactive_map" where
  "set_unitClasses classes s =
     (let s = s\<lparr>im_classes := classes\<rparr> in if im_ready s then setUnitClasses classes s else s)"

definition set_showLabels :: "bool \<Rightarrow> interactive_map \<Rightarrow> interactive_map" where
  "set_showLabels v s =
     (let s = s\<lparr>im_showLabels := v\<rparr> in if im_ready s then setShowLabels v s else s)"

definition unit_cmp :: "int \<times> nat \<Rightarrow> int \<times> nat \<Rightarrow> int" where
  "unit_cmp a b = fst a - fst b"

definition numbered :: "unit_element list \<Rightarrow> (int \<times> nat) list" where
  "numbered els = map (\<lambda>i. (ue_number (els ! i), i)) [0..<length els]"

definition map_afterViewInit :: "scaling \<Rightarrow> interactive_map \<Rightarrow> interactive_map" where
  "map_afterViewInit scale s =
     (let s = s\<lparr>im_ready := True\<rparr>;
          s = setWidth (nullish (im_width s) 1000) s;
          s = setHeight (nullish (im_height s) (scale 1000 svg_height svg_width)) s;
          s = setUnitClasses (im_classes s) s;
          s = setShowLabels (im_showLabels s) s;
          s = s\<lparr>im_units := js_sort unit_cmp (im_units s @ numbered (im_elements s))\<rparr>
      in updateInteraction s)"

subsection \<open>Pointer, focus and keys\<close>

datatype map_effect = UnitClick int | PreventDefault

definition update_element :: "nat \<Rightarrow> (unit_element \<Rightarrow> unit_element) \<Rightarrow> interactive_map \<Rightarrow> interactive_map" where
  "update_element p f s = s\<lparr>im_elements := (im_elements s)[p := f (im_elements s ! p)]\<rparr>"

definition map_mouseenter :: "nat \<Rightarrow> interactive_map \<Rightarrow> interactive_map" where
  "map_mouseenter p s =
     (if im_interactive s \<and> im_hoverClass s \<noteq> []
      then update_element p (\<lambda>e. e\<lparr>ue_classes := class_add (im_hoverClass s) (ue_classes e)\<rparr>) s else s)"

definition map_mouseleave :: "nat \<Rightarrow> interactive_map \<Rightarrow> interactive_map" where
  "map_mouseleave p s =
     (if im_hoverClass s \<noteq> []
      then update_element p (\<lambda>e. e\<lparr>ue_classes := class_remove (im_hoverClass s) (ue_classes e)\<rparr>) s else s)"

definition map_click :: "int \<Rightarrow> interactive_map \<Rightarrow> map_effect list" where
  "map_click n s = (if im_interactive s then [UnitClick n] else [])"

definition map_focus :: "int \<Rightarrow> interactive_map \<Rightarrow> interactive_map" where
  "map_focus n s = (if \<not> im_interactive s then s else setTabStops (s\<lparr>im_active := Some n\<rparr>))"

text \<open>
  The focus arrives at an element, by \<open>focus()\<close>, the tabulator or the pointer: its handler runs when
  it is bound and the element was not focused before.
\<close>

definition focus_element :: "nat \<Rightarrow> interactive_map \<Rightarrow> interactive_map" where
  "focus_element p s =
     (let e = im_elements s ! p
      in if im_focus s = Some p \<or> ue_tabindex e = None then s
         else let s = s\<lparr>im_focus := Some p\<rparr>
              in if ue_bound e then map_focus (ue_number e) s else s)"

definition key_target :: "string \<Rightarrow> int \<Rightarrow> int \<Rightarrow> int option" where
  "key_target key index n =
     (if key = ''ArrowRight'' \<or> key = ''ArrowDown'' then Some (min (index + 1) (n - 1))
      else if key = ''ArrowLeft'' \<or> key = ''ArrowUp'' then Some (max (index - 1) 0)
      else if key = ''Home'' then Some 0
      else if key = ''End'' then Some (n - 1) else None)"

definition map_keydown :: "int \<Rightarrow> string \<Rightarrow> bool \<Rightarrow> interactive_map \<Rightarrow> interactive_map \<times> map_effect list" where
  "map_keydown n key rpt s =
     (if \<not> im_interactive s then (s, [])
      else if key = ''Enter'' \<or> key = '' '' then (s, PreventDefault # (if rpt then [] else [UnitClick n]))
      else let index = find_index (\<lambda>u. fst u = n) (im_units s)
           in case key_target key index (int (length (im_units s))) of
                None \<Rightarrow> (s, [])
              | Some k \<Rightarrow>
                  (if 0 \<le> k \<and> k < int (length (im_units s))
                   then focus_element (snd (im_units s ! nat k)) s else s, [PreventDefault]))"

datatype map_event =
    MouseEnter nat
  | MouseLeave nat
  | MouseClick nat
  | FocusOn nat
  | FocusLost
  | Key nat string bool

text \<open>An event reaches the handler of its element when one is bound.\<close>

definition handled :: "nat \<Rightarrow> interactive_map \<Rightarrow> bool" where
  "handled p s \<longleftrightarrow> p < length (im_elements s) \<and> ue_bound (im_elements s ! p)"

fun map_event_step :: "map_event \<Rightarrow> interactive_map \<Rightarrow> interactive_map \<times> map_effect list" where
  "map_event_step (MouseEnter p) s = (if handled p s then map_mouseenter p s else s, [])"
| "map_event_step (MouseLeave p) s = (if handled p s then map_mouseleave p s else s, [])"
| "map_event_step (MouseClick p) s =
     (s, if handled p s then map_click (ue_number (im_elements s ! p)) s else [])"
| "map_event_step (FocusOn p) s = (if p < length (im_elements s) then focus_element p s else s, [])"
| "map_event_step FocusLost s = (s\<lparr>im_focus := None\<rparr>, [])"
| "map_event_step (Key p key rpt) s =
     (if handled p s then map_keydown (ue_number (im_elements s ! p)) key rpt s else (s, []))"

datatype map_input =
    Interactive bool
  | Highlighted "int list option"
  | Selected "int option"
  | Width number
  | Height number
  | Classes "int \<Rightarrow> string option"
  | ShowLabels bool
  | HoverClass string

fun map_input_step :: "scaling \<Rightarrow> map_input \<Rightarrow> interactive_map \<Rightarrow> interactive_map" where
  "map_input_step scale (Interactive v) s = set_interactive v s"
| "map_input_step scale (Highlighted us) s = set_highlightedUnits us s"
| "map_input_step scale (Selected n) s = set_selectedUnit n s"
| "map_input_step scale (Width v) s = set_width scale v s"
| "map_input_step scale (Height v) s = set_height scale v s"
| "map_input_step scale (Classes c) s = set_unitClasses c s"
| "map_input_step scale (ShowLabels v) s = set_showLabels v s"
| "map_input_step scale (HoverClass c) s = s\<lparr>im_hoverClass := c\<rparr>"

text \<open>
  The life of the component: inputs at any time, the view once, events when it is there.
\<close>

inductive map_reach :: "scaling \<Rightarrow> unit_element list \<Rightarrow> interactive_map \<Rightarrow> bool"
  for scale and els where
  created: "map_reach scale els (new_map els)"
| input: "map_reach scale els s \<Longrightarrow> map_reach scale els (map_input_step scale i s)"
| view: "map_reach scale els s \<Longrightarrow> \<not> im_ready s \<Longrightarrow> map_reach scale els (map_afterViewInit scale s)"
| event: "map_reach scale els s \<Longrightarrow> im_ready s \<Longrightarrow> map_reach scale els (fst (map_event_step ev s))"

subsection \<open>The order of the lots\<close>

interpretation unit_order: comparator unit_cmp
  by unfold_locales (auto simp: unit_cmp_def)

lemma numbered_ids: "map ue_id els = map ue_id els' \<Longrightarrow> numbered els = numbered els'"
  unfolding numbered_def by (auto dest: map_eq_imp_length_eq intro!: map_cong) (metis length_map nth_map)

lemma set_numbered: "set (numbered els) = {(ue_number (els ! i), i) | i. i < length els}"
  by (auto simp: numbered_def)

lemma numbered_Nil [simp]: "numbered els = [] \<longleftrightarrow> els = []"
  by (simp add: numbered_def)

lemma mset_distinct: "mset xs = mset ys \<Longrightarrow> distinct xs = distinct ys"
  by (metis mset_eq_imp_distinct_iff)

lemma map_numbered:
  "map snd (numbered els) = [0..<length els]"
  "map fst (numbered els) = map ue_number els"
  by (auto simp: numbered_def intro: nth_equalityI)

lemma units_order:
  assumes "us = js_sort unit_cmp (numbered els)"
  shows "set us = set (numbered els)" and "distinct (map snd us)"
    and "distinct (map fst us) = distinct (map ue_number els)"
    and "sorted_wrt (\<lambda>a b. fst a \<le> fst b) us" and "length us = length els"
proof -
  show "set us = set (numbered els)" "length us = length els"
    by (simp_all add: assms numbered_def)
  have "mset (map snd us) = mset [0..<length els]" "mset (map fst us) = mset (map ue_number els)"
    by (simp_all only: assms mset_map mset_js_sort map_numbered [symmetric])
  from this [THEN mset_distinct] show "distinct (map snd us)"
    "distinct (map fst us) = distinct (map ue_number els)"
    by simp_all
  show "sorted_wrt (\<lambda>a b. fst a \<le> fst b) us"
    using unit_order.sorted [of "numbered els"] by (simp add: assms unit_cmp_def)
qed

lemma fold_update_length: "length (fold (\<lambda>(n, p) els. els[p := f n (els ! p)]) us els) = length els"
  by (induction us arbitrary: els) auto

lemma fold_update_nth:
  "distinct (map snd us) \<Longrightarrow> i < length els \<Longrightarrow>
   ((n, i) \<in> set us \<longrightarrow> fold (\<lambda>(n, p) els. els[p := f n (els ! p)]) us els ! i = f n (els ! i)) \<and>
   (i \<notin> snd ` set us \<longrightarrow> fold (\<lambda>(n, p) els. els[p := f n (els ! p)]) us els ! i = els ! i)"
proof (induction us arbitrary: els)
  case (Cons u us)
  obtain m q where u: "u = (m, q)" by (cases u)
  with Cons.prems have d: "distinct (map snd us)" "q \<notin> snd ` set us" by auto
  note ih = Cons.IH [of "els[q := f m (els ! q)]"]
  show ?case
  proof (cases "i = q")
    case True
    with u d Cons.prems ih show ?thesis by (auto simp: image_iff)
  next
    case False
    with u d Cons.prems ih show ?thesis by auto
  qed
qed simp

text \<open>Going through \<open>unitElements\<close> is going through the elements of the drawing.\<close>

definition units_ok :: "interactive_map \<Rightarrow> bool" where
  "units_ok s \<longleftrightarrow> distinct (map snd (im_units s)) \<and> set (im_units s) = set (numbered (im_elements s))"

lemma update_units_all: "units_ok s \<Longrightarrow> update_units f s = foreachUnits f s"
proof -
  assume ok: "units_ok s"
  let ?g = "fold (\<lambda>(n, p) els. els[p := f n (els ! p)]) (im_units s) (im_elements s)"
  have "?g = map (\<lambda>e. f (ue_number e) e) (im_elements s)"
  proof (rule nth_equalityI)
    fix i assume "i < length ?g"
    then have i: "i < length (im_elements s)" by (simp add: fold_update_length)
    then have "(ue_number (im_elements s ! i), i) \<in> set (im_units s)"
      using ok by (auto simp: units_ok_def set_numbered)
    then show "?g ! i = map (\<lambda>e. f (ue_number e) e) (im_elements s) ! i"
      using ok i fold_update_nth [of "im_units s" i "im_elements s"] by (auto simp: units_ok_def)
  qed (simp add: fold_update_length)
  then show ?thesis by (simp add: update_units_def foreachUnits_def)
qed

lemma units_ok_cong:
  "im_units s = im_units t \<Longrightarrow> map ue_id (im_elements s) = map ue_id (im_elements t) \<Longrightarrow>
   units_ok s = units_ok t"
  by (simp add: units_ok_def numbered_ids [of "im_elements s" "im_elements t"])

subsection \<open>The invariant\<close>

definition element_ok :: "interactive_map \<Rightarrow> unit_element \<Rightarrow> bool" where
  "element_ok s e \<longleftrightarrow>
     ue_bound e = im_interactive s \<and>
     ue_role e = (if im_interactive s then Some ''button'' else None) \<and>
     ue_focusable e = (if im_interactive s then None else Some ''false'') \<and>
     ue_current e = (im_interactive s \<and> im_selected s = Some (ue_number e)) \<and>
     ue_tabindex e = (if \<not> im_interactive s then None
       else Some (if im_active s = Some (ue_number e) then 0 else -1))"

definition active_ok :: "interactive_map \<Rightarrow> bool" where
  "active_ok s \<longleftrightarrow>
     (im_interactive s \<and> im_elements s \<noteq> [] \<longrightarrow> im_active s \<in> Some ` ue_number ` set (im_elements s))"

definition focus_ok :: "interactive_map \<Rightarrow> bool" where
  "focus_ok s \<longleftrightarrow> (\<forall>p. im_focus s = Some p \<longrightarrow> im_interactive s \<and> p < length (im_elements s))"

definition map_ok :: "interactive_map \<Rightarrow> bool" where
  "map_ok s \<longleftrightarrow> (\<forall>e \<in> set (im_elements s). element_ok s e) \<and> active_ok s \<and> focus_ok s"

definition map_inv :: "unit_element list \<Rightarrow> interactive_map \<Rightarrow> bool" where
  "map_inv els s \<longleftrightarrow>
     map ue_id (im_elements s) = map ue_id els \<and>
     (if im_ready s then im_units s = js_sort unit_cmp (numbered els) \<and> map_ok s
      else im_units s = [] \<and> im_focus s = None)"

lemma foreachUnits_simps [simp]:
  "im_units (foreachUnits f s) = im_units s" "im_ready (foreachUnits f s) = im_ready s"
  "im_interactive (foreachUnits f s) = im_interactive s" "im_active (foreachUnits f s) = im_active s"
  "im_selected (foreachUnits f s) = im_selected s" "im_focus (foreachUnits f s) = im_focus s"
  "im_hoverClass (foreachUnits f s) = im_hoverClass s"
  "im_elements (foreachUnits f s) = map (\<lambda>e. f (ue_number e) e) (im_elements s)"
  by (simp_all add: foreachUnits_def)

lemma inv_units: "map_inv els s \<Longrightarrow> im_ready s \<Longrightarrow> units_ok s"
  using units_order [of "im_units s" els] numbered_ids [of els "im_elements s"]
  by (simp add: map_inv_def units_ok_def)

text \<open>\<open>setTabStops\<close> with the units of the drawing: every tabindex is set anew.\<close>

lemma active_or_first_in:
  assumes "units_ok s" and "im_elements s \<noteq> []"
  shows "active_or_first s \<in> Some ` ue_number ` set (im_elements s)"
proof -
  have "fst ` set (im_units s) = set (map fst (numbered (im_elements s)))"
    using assms(1) by (simp add: units_ok_def)
  then have units: "fst ` set (im_units s) = ue_number ` set (im_elements s)"
    by (simp add: map_numbered)
  then have "im_units s \<noteq> []" using assms(2) by auto
  then obtain u us where us: "im_units s = u # us" by (meson neq_Nil_conv)
  show ?thesis
  proof (cases "list_ex (\<lambda>(n, p). im_active s = Some n) (im_units s)")
    case True
    then obtain n where "im_active s = Some n" "n \<in> fst ` set (im_units s)"
      by (force simp: list_ex_iff)
    with True units show ?thesis by (simp add: active_or_first_def)
  next
    case False
    then have "active_or_first s = Some (fst u)" using us by (simp add: active_or_first_def)
    moreover have "fst u \<in> fst ` set (im_units s)" using us by simp
    ultimately show ?thesis using units by simp
  qed
qed

lemma setTabStops_simps [simp]:
  "im_units (setTabStops s) = im_units s" "im_ready (setTabStops s) = im_ready s"
  "im_interactive (setTabStops s) = im_interactive s" "im_selected (setTabStops s) = im_selected s"
  "im_focus (setTabStops s) = im_focus s"
  by (simp_all add: setTabStops_def update_units_def Let_def)

lemma setTabStops_all:
  assumes "units_ok s"
  shows "im_elements (setTabStops s) = map (\<lambda>e. e\<lparr>ue_tabindex := if \<not> im_interactive s then None
      else Some (if im_active (setTabStops s) = Some (ue_number e) then 0 else -1)\<rparr>) (im_elements s)"
    and "im_active (setTabStops s) = (if im_interactive s then active_or_first s else im_active s)"
proof -
  have "units_ok (s\<lparr>im_active := a\<rparr>)" for a using assms by (simp add: units_ok_def)
  then show "im_active (setTabStops s) = (if im_interactive s then active_or_first s else im_active s)"
    by (simp add: setTabStops_def update_units_def Let_def)
  show "im_elements (setTabStops s) = map (\<lambda>e. e\<lparr>ue_tabindex := if \<not> im_interactive s then None
      else Some (if im_active (setTabStops s) = Some (ue_number e) then 0 else -1)\<rparr>) (im_elements s)"
    using \<open>units_ok (s\<lparr>im_active := _\<rparr>)\<close> assms
    by (simp add: setTabStops_def update_units_all Let_def)
qed

text \<open>What an operation has to leave to \<open>setTabStops\<close>: everything but the tab stops.\<close>

definition almost_ok :: "interactive_map \<Rightarrow> unit_element \<Rightarrow> bool" where
  "almost_ok s e \<longleftrightarrow> element_ok s (e\<lparr>ue_tabindex := (if \<not> im_interactive s then None
       else Some (if im_active s = Some (ue_number e) then 0 else -1))\<rparr>)"

lemma setTabStops_ok:
  assumes "units_ok s" and "\<forall>e \<in> set (im_elements s). almost_ok s e" and "focus_ok s"
  shows "map_ok (setTabStops s)"
proof -
  have "im_interactive s \<longrightarrow> im_elements s \<noteq> [] \<longrightarrow>
      im_active (setTabStops s) \<in> Some ` ue_number ` set (im_elements s)"
    using active_or_first_in [OF assms(1)] setTabStops_all(2) [OF assms(1)] by auto
  then have "active_ok (setTabStops s)"
    by (auto simp: active_ok_def setTabStops_all(1) [OF assms(1)] image_image)
  moreover have "focus_ok (setTabStops s)"
    using assms(3) by (simp add: focus_ok_def setTabStops_all(1) [OF assms(1)])
  moreover have "\<forall>e \<in> set (im_elements (setTabStops s)). element_ok (setTabStops s) e"
    using assms(2) by (auto simp: setTabStops_all(1) [OF assms(1)] almost_ok_def element_ok_def)
  ultimately show ?thesis by (simp add: map_ok_def)
qed

lemma setTabStops_ids: "units_ok s \<Longrightarrow> map ue_id (im_elements (setTabStops s)) = map ue_id (im_elements s)"
  by (simp add: setTabStops_all)

text \<open>An operation that touches only class lists and labels keeps the invariant.\<close>

definition alike :: "unit_element \<Rightarrow> unit_element \<Rightarrow> bool" where
  "alike e e' \<longleftrightarrow> ue_id e' = ue_id e \<and> ue_bound e' = ue_bound e \<and> ue_role e' = ue_role e \<and>
     ue_focusable e' = ue_focusable e \<and> ue_current e' = ue_current e \<and> ue_tabindex e' = ue_tabindex e"

lemma alike_simps [simp]:
  "alike e e" "alike e (e\<lparr>ue_classes := c\<rparr>)" "alike e (e\<lparr>ue_labels := l\<rparr>)"
  by (simp_all add: alike_def)

lemma alike_ok: "alike e e' \<Longrightarrow> element_ok s e' = element_ok s e"
  by (simp add: alike_def element_ok_def)

lemma alike_ids: "list_all2 alike es es' \<Longrightarrow> map ue_id es' = map ue_id es"
  by (induction es es' rule: list_all2_induct) (auto simp: alike_def)

lemma alike_elements:
  "list_all2 alike es es' \<Longrightarrow> \<forall>e \<in> set es. element_ok s e \<Longrightarrow> \<forall>e \<in> set es'. element_ok s e"
  by (induction es es' rule: list_all2_induct) (simp_all add: alike_ok)

lemma alike_map: "(\<And>e. alike e (f e)) \<Longrightarrow> list_all2 alike es (map f es)"
  by (induction es) auto

lemma alike_update: "alike (es ! p) e' \<Longrightarrow> list_all2 alike es (es[p := e'])"
proof (rule list_all2_all_nthI)
  fix i
  assume "alike (es ! p) e'" and "i < length es"
  then show "alike (es ! i) (es[p := e'] ! i)" by (cases "i = p") simp_all
qed simp

lemma apply_classes_alike: "list_all2 alike es (fst (apply_classes classes applied es))"
proof (induction es arbitrary: applied)
  case (Cons e es)
  obtain es' m where step: "apply_classes classes
      (applied(ue_number e \<mapsto> class_tokens (nullish (classes (ue_number e)) []))) es = (es', m)"
    by (cases "apply_classes classes
      (applied(ue_number e \<mapsto> class_tokens (nullish (classes (ue_number e)) []))) es")
  with Cons.IH have "list_all2 alike es es'" by (metis fst_conv)
  then show ?case using step by (simp add: Let_def)
qed simp

lemma map_inv_alike:
  assumes "map_inv els s" and "list_all2 alike (im_elements s) (im_elements t)"
    and "im_units t = im_units s" and "im_ready t = im_ready s" and "im_interactive t = im_interactive s"
    and "im_selected t = im_selected s" and "im_active t = im_active s" and "im_focus t = im_focus s"
  shows "map_inv els t"
proof -
  have ids: "map ue_id (im_elements t) = map ue_id (im_elements s)" using assms(2) by (rule alike_ids)
  then have len: "length (im_elements t) = length (im_elements s)" by (rule map_eq_imp_length_eq)
  have "map_ok t" if "map_ok s"
  proof -
    have eq: "element_ok t e = element_ok s e" for e using assms(5-7) by (simp add: element_ok_def)
    have "\<forall>e \<in> set (im_elements t). element_ok t e"
      using alike_elements [OF assms(2), of s] that unfolding eq map_ok_def by blast
    moreover have "ue_number ` set (im_elements t) = ue_number ` set (im_elements s)"
      using arg_cong [OF ids, of "\<lambda>is. unit_number ` set is"] by (simp add: image_image)
    ultimately show ?thesis
      using that len assms(5-8) by (auto simp: map_ok_def active_ok_def focus_ok_def)
  qed
  with assms ids show ?thesis by (simp add: map_inv_def)
qed

text \<open>\<open>updateInteraction\<close> and \<open>setSelection\<close>.\<close>

lemma setSelection_ok:
  assumes "\<forall>e \<in> set (im_elements s). element_ok (s\<lparr>im_selected := n\<rparr>) e" and "active_ok s" and "focus_ok s"
  shows "map_ok (setSelection s)"
  using assms by (auto simp: map_ok_def setSelection_def element_ok_def active_ok_def focus_ok_def image_image)

lemma setSelection_almost:
  assumes "\<forall>e \<in> set (im_elements s). ue_bound e = im_interactive s \<and>
     ue_role e = (if im_interactive s then Some ''button'' else None) \<and>
     ue_focusable e = (if im_interactive s then None else Some ''false'')"
  shows "\<forall>e \<in> set (im_elements (setSelection s)). almost_ok (setSelection s) e"
  using assms by (auto simp: setSelection_def almost_ok_def element_ok_def)

lemma setSelection_simps [simp]:
  "im_units (setSelection s) = im_units s" "im_ready (setSelection s) = im_ready s"
  "im_interactive (setSelection s) = im_interactive s" "im_active (setSelection s) = im_active s"
  "im_selected (setSelection s) = im_selected s" "im_focus (setSelection s) = im_focus s"
  "map ue_id (im_elements (setSelection s)) = map ue_id (im_elements s)"
  "length (im_elements (setSelection s)) = length (im_elements s)"
  by (simp_all add: setSelection_def)

lemma setSelection_units [simp]: "units_ok (setSelection s) = units_ok s"
  by (rule units_ok_cong) simp_all

lemma updateInteraction_inv:
  assumes "units_ok s" and "map ue_id (im_elements s) = map ue_id els"
    and "im_units s = js_sort unit_cmp (numbered els)" and "im_ready s"
    and "\<And>p. im_focus s = Some p \<Longrightarrow> p < length (im_elements s)"
  shows "map_inv els (updateInteraction s)"
proof -
  let ?b = "im_interactive s"
  let ?f = "\<lambda>n e. e\<lparr>ue_role := (if ?b then Some ''button'' else None),
    ue_focusable := (if ?b then None else Some ''false''), ue_bound := ?b,
    ue_ariaLabel := Some (lot_text ?b n),
    ue_classes := (if \<not> ?b \<and> im_hoverClass s \<noteq> [] then class_remove (im_hoverClass s) (ue_classes e)
                   else ue_classes e)\<rparr>"
  define t where "t = (let t = foreachUnits ?f s
    in if \<not> ?b \<and> im_focus s \<in> Some ` snd ` set (im_units s) then t\<lparr>im_focus := None\<rparr> else t)"
  have result: "updateInteraction s = setTabStops (setSelection t)"
    using assms(1) by (simp add: updateInteraction_def update_units_all t_def Let_def)
  have ids: "map ue_id (im_elements t) = map ue_id (im_elements s)"
    and same: "im_units t = im_units s" "im_ready t = im_ready s" "im_interactive t = ?b"
    by (auto simp: t_def Let_def)
  have units: "units_ok t"
    using units_ok_cong [of t s] assms(1) ids same(1) by simp
  have elements: "\<forall>e \<in> set (im_elements t). ue_bound e = im_interactive t \<and>
     ue_role e = (if im_interactive t then Some ''button'' else None) \<and>
     ue_focusable e = (if im_interactive t then None else Some ''false'')"
    by (auto simp: t_def Let_def)
  have "snd ` set (im_units s) = {..<length (im_elements s)}"
    using assms(1) by (auto simp: units_ok_def set_numbered image_iff)
  then have "focus_ok t" using assms(5) by (auto simp: t_def Let_def focus_ok_def)
  then have "focus_ok (setSelection t)" by (simp add: focus_ok_def)
  then have "map_ok (setTabStops (setSelection t))"
    using setTabStops_ok [of "setSelection t"] setSelection_almost [OF elements] units by simp
  then show ?thesis
    using assms ids same units setTabStops_ids [of "setSelection t"] by (simp add: map_inv_def result)
qed

lemma ok_almost: "element_ok s e \<Longrightarrow> almost_ok (s\<lparr>im_active := a\<rparr>) e"
  by (simp add: element_ok_def almost_ok_def)

lemma retabbed_inv:
  assumes "map_inv els s" and "im_ready s" and "im_elements t = im_elements s"
    and "im_units t = im_units s" and "im_ready t" and "im_interactive t = im_interactive s"
    and "im_selected t = im_selected s" and "focus_ok t"
  shows "map_inv els (setTabStops t)"
proof -
  have "units_ok t"
    using inv_units [OF assms(1,2)] units_ok_cong [of t s] assms(3,4) by simp
  moreover have "\<forall>e \<in> set (im_elements t). almost_ok t e"
    using assms by (auto simp: map_inv_def map_ok_def element_ok_def almost_ok_def)
  ultimately show ?thesis
    using assms setTabStops_ok [of t] setTabStops_ids [of t] by (simp add: map_inv_def)
qed

lemma set_selectedUnit_inv:
  assumes "map_inv els s" and "im_ready s"
  shows "map_inv els (setTabStops (setSelection (s\<lparr>im_selected := n, im_active := a\<rparr>)))"
proof -
  let ?t = "setSelection (s\<lparr>im_selected := n, im_active := a\<rparr>)"
  have "\<forall>e \<in> set (im_elements ?t). almost_ok ?t e"
    using assms by (intro setSelection_almost) (simp add: map_inv_def map_ok_def element_ok_def)
  moreover have "units_ok ?t"
    using inv_units [OF assms] units_ok_cong [of "s\<lparr>im_selected := n, im_active := a\<rparr>" s] by simp
  moreover have "focus_ok ?t"
    using assms by (simp add: map_inv_def map_ok_def focus_ok_def)
  ultimately have "map_ok (setTabStops ?t)" "map ue_id (im_elements (setTabStops ?t)) = map ue_id (im_elements ?t)"
    by (simp_all add: setTabStops_ok setTabStops_ids)
  then show ?thesis using assms by (simp add: map_inv_def)
qed

lemma setSelection_inv:
  assumes "map_inv els s" and "im_ready s"
  shows "map_inv els (setSelection (s\<lparr>im_highlighted := us\<rparr>))"
proof -
  let ?t = "s\<lparr>im_highlighted := us\<rparr>"
  have "map_ok (setSelection ?t)"
    by (rule setSelection_ok [where n = "im_selected s"])
      (use assms in \<open>simp_all add: map_inv_def map_ok_def element_ok_def active_ok_def focus_ok_def\<close>)
  then show ?thesis using assms by (simp add: map_inv_def)
qed

lemma setUnitClasses_inv: "map_inv els s \<Longrightarrow> map_inv els (setUnitClasses c s)"
  by (erule map_inv_alike)
    (simp_all add: setUnitClasses_def split_beta apply_classes_alike)

lemma setShowLabels_inv: "map_inv els s \<Longrightarrow> map_inv els (setShowLabels v s)"
  by (erule map_inv_alike) (simp_all add: setShowLabels_def alike_map)

lemma map_fields_inv:
  assumes "map_inv els s" and "im_elements t = im_elements s"
    and "im_units t = im_units s" and "im_ready t = im_ready s" and "im_interactive t = im_interactive s"
    and "im_selected t = im_selected s" and "im_active t = im_active s" and "im_focus t = im_focus s"
  shows "map_inv els t"
  using assms by (intro map_inv_alike [OF assms(1)]) (simp_all add: list.rel_refl)

lemma unready_inv:
  assumes "map_inv els s" and "\<not> im_ready s" and "im_elements t = im_elements s"
    and "im_units t = im_units s" and "im_ready t = im_ready s" and "im_focus t = im_focus s"
  shows "map_inv els t"
  using assms by (simp add: map_inv_def)

lemma set_interactive_inv:
  assumes "map_inv els s"
  shows "map_inv els (set_interactive v s)"
proof (cases "im_ready s")
  case True
  have "units_ok (s\<lparr>im_interactive := v\<rparr>)"
    using inv_units [OF assms True] by (simp add: units_ok_def)
  then have "map_inv els (updateInteraction (s\<lparr>im_interactive := v\<rparr>))"
    by (rule updateInteraction_inv) (use assms True in \<open>auto simp: map_inv_def map_ok_def focus_ok_def\<close>)
  with True show ?thesis by (simp add: set_interactive_def)
next
  case False
  with assms show ?thesis by (simp add: set_interactive_def map_inv_def)
qed

lemma map_input_inv:
  assumes "map_inv els s"
  shows "map_inv els (map_input_step scale i s)"
proof (cases "im_ready s")
  case True
  note fields = map_fields_inv [OF assms]
  show ?thesis
  proof (cases i)
    case (Classes c)
    have "map_inv els (s\<lparr>im_classes := c\<rparr>)" by (rule fields) simp_all
    with Classes True show ?thesis by (simp add: set_unitClasses_def Let_def setUnitClasses_inv)
  next
    case (ShowLabels v)
    have "map_inv els (s\<lparr>im_showLabels := v\<rparr>)" by (rule fields) simp_all
    with ShowLabels True show ?thesis by (simp add: set_showLabels_def Let_def setShowLabels_inv)
  next
    case (Width v)
    then show ?thesis by (auto simp: set_width_def setWidth_def Let_def intro: fields)
  next
    case (Height v)
    then show ?thesis by (auto simp: set_height_def setHeight_def Let_def intro: fields)
  next
    case (HoverClass c)
    then show ?thesis by (auto intro: fields)
  qed (use assms True in \<open>simp_all add: set_interactive_inv set_highlightedUnits_def set_selectedUnit_def
    Let_def setSelection_inv set_selectedUnit_inv\<close>)
next
  case False
  with assms show ?thesis
    by (cases i) (auto simp: set_interactive_inv set_highlightedUnits_def set_selectedUnit_def set_width_def
      set_height_def set_unitClasses_def set_showLabels_def Let_def intro: unready_inv)
qed

lemma map_afterViewInit_inv:
  assumes "map_inv els s" and "\<not> im_ready s"
  shows "map_inv els (map_afterViewInit scale s)"
proof -
  define t where "t = setShowLabels (im_showLabels s) (setUnitClasses (im_classes s)
    (s\<lparr>im_ready := True, im_svgWidth := Some (nullish (im_width s) 1000),
       im_svgHeight := Some (nullish (im_height s) (scale 1000 svg_height svg_width))\<rparr>))"
  have ids: "map ue_id (im_elements t) = map ue_id els"
    using assms alike_ids [OF apply_classes_alike, of "im_classes s" "im_applied s" "im_elements s"]
    by (simp add: t_def setShowLabels_def setUnitClasses_def split_beta comp_def map_inv_def)
  have same: "im_units t = []" "im_ready t" "im_focus t = None"
    using assms by (simp_all add: t_def setShowLabels_def setUnitClasses_def split_beta map_inv_def)
  let ?u = "t\<lparr>im_units := js_sort unit_cmp (numbered (im_elements t))\<rparr>"
  have num: "numbered (im_elements t) = numbered els" using ids by (rule numbered_ids)
  have "map_afterViewInit scale s = updateInteraction ?u"
    using same(1) assms by (simp add: map_afterViewInit_def Let_def setWidth_def setHeight_def t_def
      setShowLabels_def setUnitClasses_def split_beta map_inv_def)
  moreover have "units_ok ?u"
    using units_order [OF refl, of els] num by (simp add: units_ok_def)
  ultimately show ?thesis
    using ids same num updateInteraction_inv [of ?u els] by simp
qed

lemma map_focus_inv:
  assumes "map_inv els s" and "im_ready s" and "p < length (im_elements s)" and "im_interactive s"
  shows "map_inv els (map_focus n (s\<lparr>im_focus := Some p\<rparr>))"
  using assms unfolding map_focus_def
  by (auto intro!: retabbed_inv [OF assms(1,2)] simp: focus_ok_def)

lemma focus_element_inv:
  assumes "map_inv els s" and "im_ready s" and "p < length (im_elements s)"
  shows "map_inv els (focus_element p s)"
proof -
  have ok: "element_ok s (im_elements s ! p)" using assms by (simp add: map_inv_def map_ok_def)
  then show ?thesis
    using assms map_focus_inv [OF assms, of "ue_number (im_elements s ! p)"]
    by (auto simp: focus_element_def Let_def element_ok_def split: if_splits)
qed

lemma units_position:
  assumes "map_inv els s" and "im_ready s" and "k < length (im_units s)"
  shows "snd (im_units s ! k) < length (im_elements s)"
proof -
  have "im_units s ! k \<in> set (numbered (im_elements s))"
    using inv_units [OF assms(1,2)] nth_mem [OF assms(3)] by (simp add: units_ok_def)
  then show ?thesis by (auto simp: numbered_def)
qed

lemma map_keydown_inv:
  assumes "map_inv els s" and "im_ready s"
  shows "map_inv els (fst (map_keydown n key r s))"
  using assms units_position [OF assms] focus_element_inv [OF assms]
  by (auto simp: map_keydown_def Let_def split: option.split)

lemma update_classes_inv:
  "map_inv els s \<Longrightarrow> map_inv els (update_element p (\<lambda>e. e\<lparr>ue_classes := f (ue_classes e)\<rparr>) s)"
  by (erule map_inv_alike) (simp_all add: update_element_def alike_update)

lemma focus_lost_inv: "map_inv els s \<Longrightarrow> map_inv els (s\<lparr>im_focus := None\<rparr>)"
  by (auto simp: map_inv_def map_ok_def element_ok_def active_ok_def focus_ok_def)

lemma map_event_inv:
  assumes "map_inv els s" and "im_ready s"
  shows "map_inv els (fst (map_event_step ev s))"
  using assms update_classes_inv [OF assms(1)] map_keydown_inv [OF assms] focus_element_inv [OF assms]
    focus_lost_inv [OF assms(1)]
  by (cases ev) (auto simp: map_mouseenter_def map_mouseleave_def)

lemma map_reach_inv: "map_reach scale els s \<Longrightarrow> map_inv els s"
proof (induction rule: map_reach.induct)
  case created
  show ?case by (simp add: map_inv_def new_map_def)
qed (simp_all add: map_input_inv map_afterViewInit_inv map_event_inv)

subsection \<open>Tab stops and keys\<close>

lemma find_index_nth:
  "distinct (map f us) \<Longrightarrow> k < length us \<Longrightarrow> find_index (\<lambda>u. f u = f (us ! k)) us = int k"
proof (induction us arbitrary: k)
  case (Cons u us)
  then show ?case by (cases k) auto
qed simp

lemma one_stop:
  "distinct (map f es) \<Longrightarrow> e \<in> set es \<Longrightarrow> filter (\<lambda>d. f d = f e) es = [e]"
proof (induction es)
  case (Cons a es)
  then show ?case
    by (cases "a = e") (auto simp: filter_empty_conv image_iff)
qed simp

lemma strictly_sorted:
  fixes f :: "'a \<Rightarrow> int"
  shows "sorted_wrt (\<lambda>a b. f a \<le> f b) xs \<Longrightarrow> distinct (map f xs) \<Longrightarrow> sorted_wrt (\<lambda>a b. f a < f b) xs"
  by (induction xs) (auto simp: order.strict_iff_order image_iff)

lemma tab_stops:
  assumes "map_ok s" and "distinct (map ue_number (im_elements s))"
  shows "length (filter (\<lambda>e. ue_tabindex e = Some 0) (im_elements s)) =
    (if im_interactive s \<and> im_elements s \<noteq> [] then 1 else 0)"
proof (cases "im_interactive s \<and> im_elements s \<noteq> []")
  case True
  with assms obtain e where e: "e \<in> set (im_elements s)" "im_active s = Some (ue_number e)"
    by (auto simp: map_ok_def active_ok_def)
  have "filter (\<lambda>d. ue_tabindex d = Some 0) (im_elements s) =
      filter (\<lambda>d. ue_number d = ue_number e) (im_elements s)"
    using assms True e by (intro filter_cong) (auto simp: map_ok_def element_ok_def)
  also have "\<dots> = [e]" using assms(2) e(1) by (rule one_stop)
  finally show ?thesis using True by simp
next
  case False
  with assms show ?thesis by (auto simp: map_ok_def element_ok_def)
qed

lemma focus_element_arrives:
  assumes "map_ok s" and "im_interactive s" and "p < length (im_elements s)"
  shows "im_focus (focus_element p s) = Some p"
proof -
  have "element_ok s (im_elements s ! p)" using assms by (simp add: map_ok_def)
  then show ?thesis using assms(2) by (simp add: focus_element_def element_ok_def map_focus_def Let_def)
qed

text \<open>A key on the lot of rank \<open>k\<close> that is one of the moves brings the focus to the lot of rank \<open>j\<close>.\<close>

lemma key_moves:
  assumes inv: "map_inv els s" and "im_ready s" "im_interactive s" and "distinct (map ue_number els)"
    and "k < length els" and "key_target key (int k) (int (length els)) = Some (int j)" and "j < length els"
    and "key \<noteq> ''Enter''" and "key \<noteq> '' ''"
  shows "im_focus (fst (map_event_step (Key (snd (im_units s ! k)) key r) s)) = Some (snd (im_units s ! j))"
proof -
  have us: "im_units s = js_sort unit_cmp (numbered els)" and ok: "map_ok s"
    using assms by (simp_all add: map_inv_def)
  note order = units_order [OF us]
  have pos: "snd (im_units s ! i) < length (im_elements s)" if "i < length els" for i
    using units_position [OF inv assms(2)] that order(5) by simp
  have "im_units s ! k \<in> set (numbered (im_elements s))"
    using inv_units [OF inv assms(2)] assms(5) order(5) by (metis nth_mem units_ok_def)
  then have num: "ue_number (im_elements s ! snd (im_units s ! k)) = fst (im_units s ! k)"
    by (auto simp: numbered_def)
  have index: "find_index (\<lambda>u. fst u = fst (im_units s ! k)) (im_units s) = int k"
    using find_index_nth [of fst "im_units s" k] order(3,5) assms(4,5) by simp
  have "element_ok s (im_elements s ! snd (im_units s ! k))"
    using ok pos [OF assms(5)] by (simp add: map_ok_def)
  then have "handled (snd (im_units s ! k)) s"
    using pos [OF assms(5)] assms(3) by (simp add: handled_def element_ok_def)
  then have "fst (map_event_step (Key (snd (im_units s ! k)) key r) s) =
      focus_element (snd (im_units s ! j)) s"
    using assms(3,6-9) by (simp add: num index map_keydown_def Let_def order(5))
  with focus_element_arrives [OF ok assms(3) pos [OF assms(7)]] show ?thesis by simp
qed

lemma key_ranks:
  fixes r :: bool
  assumes "map_inv els s" and "im_ready s" "im_interactive s" and "distinct (map ue_number els)"
    and "k < length els"
  defines "focus \<equiv> \<lambda>key. im_focus (fst (map_event_step (Key (snd (im_units s ! k)) key r) s))"
    and "lot \<equiv> \<lambda>j. Some (snd (im_units s ! j))"
  shows "focus ''ArrowRight'' = lot (min (k + 1) (length els - 1))"
    and "focus ''ArrowDown'' = lot (min (k + 1) (length els - 1))"
    and "focus ''ArrowLeft'' = lot (k - 1)" and "focus ''ArrowUp'' = lot (k - 1)"
    and "focus ''Home'' = lot 0" and "focus ''End'' = lot (length els - 1)"
  unfolding focus_def lot_def
  by (rule key_moves [OF assms(1-5)]; use assms(5) in \<open>auto simp: key_target_def of_nat_diff min_def max_def\<close>)+

lemma static_events:
  assumes "map_ok s" and "\<not> im_interactive s"
  shows "im_focus s = None" and "snd (map_event_step ev s) = []"
proof -
  show "im_focus s = None" using assms by (auto simp: map_ok_def focus_ok_def)
  have "\<not> handled p s" for p
    using assms by (auto simp: map_ok_def element_ok_def handled_def)
  then show "snd (map_event_step ev s) = []" by (cases ev) simp_all
qed

lemma map_afterViewInit_simps [simp]:
  "im_ready (map_afterViewInit scale s)"
  "im_interactive (map_afterViewInit scale s) = im_interactive s"
  by (simp_all add: map_afterViewInit_def updateInteraction_def update_units_def setWidth_def setHeight_def
    setShowLabels_def setUnitClasses_def split_beta Let_def)

lemma svg_numbers: "map ue_number svg_units = rev (map int [1..<43])"
  by code_simp

text \<open>
  C20. The tab stops and the moves of the focus stay within the lots. In every reachable state of a
  drawing whose lots have distinct numbers, the map has exactly one tab stop when it is interactive
  (and has a lot), none when it is static; the lots it walks through are all lots in the order of
  their numbers; from the lot of rank k the right and down arrows go to the next one and stop at the
  last, the left and up arrows to the one before and stop at the first, Home and End to the ends; a
  static map reacts to no event.
\<close>
theorem map_focus_bounded:
  assumes "map_reach scale els s" and "im_ready s" and "distinct (map ue_number els)"
  shows "length (filter (\<lambda>e. ue_tabindex e = Some 0) (im_elements s)) =
      (if im_interactive s \<and> els \<noteq> [] then 1 else 0) \<and>
    set (im_units s) = {(ue_number (els ! i), i) | i. i < length els} \<and>
    sorted_wrt (\<lambda>a b. fst a < fst b) (im_units s) \<and>
    (im_interactive s \<longrightarrow> (\<forall>k < length els. \<forall>r.
      let focus = (\<lambda>key. im_focus (fst (map_event_step (Key (snd (im_units s ! k)) key r) s)));
          lot = (\<lambda>j. Some (snd (im_units s ! j)))
      in focus ''ArrowRight'' = lot (min (k + 1) (length els - 1)) \<and>
         focus ''ArrowDown'' = lot (min (k + 1) (length els - 1)) \<and>
         focus ''ArrowLeft'' = lot (k - 1) \<and> focus ''ArrowUp'' = lot (k - 1) \<and>
         focus ''Home'' = lot 0 \<and> focus ''End'' = lot (length els - 1))) \<and>
    (\<not> im_interactive s \<longrightarrow> im_focus s = None \<and> (\<forall>ev. snd (map_event_step ev s) = []))"
proof -
  have inv: "map_inv els s" using assms(1) by (rule map_reach_inv)
  with assms(2) have ok: "map_ok s" and ids: "map ue_id (im_elements s) = map ue_id els"
    and us: "im_units s = js_sort unit_cmp (numbered els)"
    by (simp_all add: map_inv_def)
  note order = units_order [OF us]
  have numbers: "map ue_number (im_elements s) = map ue_number els"
    using arg_cong [OF ids, of "map unit_number"] by (simp add: comp_def)
  have none: "im_elements s = [] \<longleftrightarrow> els = []" using map_eq_imp_length_eq [OF ids] by auto
  have stops: "length (filter (\<lambda>e. ue_tabindex e = Some 0) (im_elements s)) =
      (if im_interactive s \<and> els \<noteq> [] then 1 else 0)"
    using tab_stops [OF ok] assms(3) by (simp only: numbers none)
  have sorted: "sorted_wrt (\<lambda>a b. fst a < fst b) (im_units s)"
    using order(3,4) assms(3) by (simp add: strictly_sorted)
  show ?thesis
    using stops sorted order(1) key_ranks [OF inv assms(2) _ assms(3)] static_events [OF ok]
    by (simp add: set_numbered Let_def del: map_event_step.simps)
qed

theorem map_focus_bounded_witness:
  "let s = map_afterViewInit (\<lambda>v a b. v * a / b) (new_map svg_units)
   in length (filter (\<lambda>e. ue_tabindex e = Some 0) (im_elements s)) = 1 \<and>
      im_focus (fst (map_event_step (Key (snd (im_units s ! 0)) ''ArrowRight'' False) s)) =
        Some (snd (im_units s ! 1))"
proof -
  let ?s = "map_afterViewInit (\<lambda>v a b. v * a / b) (new_map svg_units)"
  have reach: "map_reach (\<lambda>v a b. v * a / b) svg_units ?s"
    by (intro map_reach.view map_reach.created) (simp add: new_map_def)
  have units: "distinct (map ue_number svg_units)" "length svg_units = 42" "svg_units \<noteq> []"
    by (simp_all add: svg_numbers distinct_map) (simp_all add: svg_units_def)
  have active: "im_interactive ?s" by (simp add: new_map_def)
  show ?thesis
    using map_focus_bounded [OF reach _ units(1)] units(2,3) active
    by (auto simp: Let_def simp del: map_event_step.simps)
qed

subsection \<open>Classes\<close>

text \<open>
  New classes for the lots replace exactly those the map had applied; what else an element carries
  (selection, highlight, hover) stays, unless it is named by the old or the new classes.
\<close>

lemma set_fold_class_remove: "set (fold class_remove cs ds) = set ds - set cs"
  by (induction cs arbitrary: ds) (auto simp: class_remove_def)

lemma set_fold_class_add: "set (fold class_add cs ds) = set ds \<union> set cs"
  by (induction cs arbitrary: ds) (auto simp: class_add_def)

lemma apply_classes_sets:
  "distinct (map ue_number es) \<Longrightarrow>
   map (\<lambda>e. set (ue_classes e)) (fst (apply_classes classes applied es)) =
   map (\<lambda>e. (set (ue_classes e) - set (nullish (applied (ue_number e)) [])) \<union>
      set (class_tokens (nullish (classes (ue_number e)) []))) es"
proof (induction es arbitrary: applied)
  case (Cons e es)
  let ?m = "applied(ue_number e \<mapsto> class_tokens (nullish (classes (ue_number e)) []))"
  have "map (\<lambda>e. set (ue_classes e)) (fst (apply_classes classes ?m es)) =
      map (\<lambda>e. (set (ue_classes e) - set (nullish (applied (ue_number e)) [])) \<union>
        set (class_tokens (nullish (classes (ue_number e)) []))) es"
    using Cons by (auto simp: image_iff)
  then show ?case
    by (simp add: Let_def split_beta set_fold_class_add set_fold_class_remove)
qed simp

lemma applied_classes:
  "snd (apply_classes classes applied es) n =
   (if n \<in> ue_number ` set es then Some (class_tokens (nullish (classes n) [])) else applied n)"
  by (induction es arbitrary: applied) (auto simp: Let_def split_beta)

end
