(* ===== verification/Inputs.thy ===== *)
theory Inputs
  imports Crud_Table
begin

text \<open>
  \<open>shared/components/multi-select\<close> and \<open>shared/components/file-upload\<close>: the choice of several options
  by chips with an autocomplete, and the choice of a file. Options are objects of JSON values.
\<close>

subsection \<open>\<open>MultiSelectComponent\<close>\<close>

type_synonym display_function = "json \<Rightarrow> json option"

text \<open>An attribute or a function.\<close>

definition display_of :: "string + display_function \<Rightarrow> display_function" where
  "display_of d = (case d of Inl name \<Rightarrow> (\<lambda>option. member_of name (Some option)) | Inr f \<Rightarrow> f)"

record multi_select =
  ms_value :: string
  ms_display :: "display_function option"
  ms_selectedDisplay :: "display_function option"
  ms_filterFunction :: "(string \<Rightarrow> json \<Rightarrow> bool) option"
  ms_selected :: "json list"
  ms_filter :: "string option"
  ms_options :: "json list"
  ms_alive :: bool

definition new_multi_select :: multi_select where
  "new_multi_select =
     \<lparr>ms_value = ''id'', ms_display = None, ms_selectedDisplay = None, ms_filterFunction = None,
      ms_selected = [], ms_filter = None, ms_options = [], ms_alive = False\<rparr>"

definition option_value :: "multi_select \<Rightarrow> json \<Rightarrow> json option" where
  "option_value s option = member_of (ms_value s) (Some option)"

text \<open>
  The filter unless another is given: the value or the displayed text holds what was typed. It reads
  the attributes at the time it runs.
\<close>

definition default_filter :: "multi_select \<Rightarrow> string \<Rightarrow> json \<Rightarrow> bool" where
  "default_filter s pattern option \<longleftrightarrow>
     (js_string (option_value s option) \<noteq> [] \<and> str_includes (js_string (option_value s option)) pattern) \<or>
     (case ms_display s of
        None \<Rightarrow> False
      | Some f \<Rightarrow> truthy (f option) \<and> str_includes (js_string (f option)) pattern)"

definition filter_of :: "multi_select \<Rightarrow> string \<Rightarrow> json \<Rightarrow> bool" where
  "filter_of s = (case ms_filterFunction s of None \<Rightarrow> default_filter s | Some f \<Rightarrow> f)"

text \<open>The chips, each with its value and its text.\<close>

definition chips :: "multi_select \<Rightarrow> (json option \<times> json option) list" where
  "chips s =
     (if ms_value s = [] then []
      else case (ms_selectedDisplay s, ms_display s) of
          (Some f, _) \<Rightarrow> map (\<lambda>option. (option_value s option, f option)) (ms_selected s)
        | (None, Some f) \<Rightarrow> map (\<lambda>option. (option_value s option, f option)) (ms_selected s)
        | (None, None) \<Rightarrow> [])"

definition offered :: "multi_select \<Rightarrow> json list" where
  "offered s =
     filter (\<lambda>option. case ms_filter s of None \<Rightarrow> True | Some pattern \<Rightarrow> filter_of s pattern option)
       (filter (\<lambda>option. filter (\<lambda>selected.
            strict_equal (option_value s selected) (option_value s option)) (ms_selected s) = [])
          (ms_options s))"

definition options_shown :: "multi_select \<Rightarrow> (json option \<times> json option) list" where
  "options_shown s =
     (if ms_value s = [] then []
      else case ms_display s of
          None \<Rightarrow> []
        | Some f \<Rightarrow> map (\<lambda>option. (option_value s option, f option)) (offered s))"

text \<open>\<open>selectedChange\<close> repeats every value of the selection from \<open>ngOnInit\<close> to \<open>ngOnDestroy\<close>.\<close>

definition select_next :: "json list \<Rightarrow> multi_select \<Rightarrow> multi_select \<times> json list list" where
  "select_next selected s = (s\<lparr>ms_selected := selected\<rparr>, if ms_alive s then [selected] else [])"

definition multi_select_init :: "multi_select \<Rightarrow> multi_select \<times> json list list" where
  "multi_select_init s = (s\<lparr>ms_alive := True\<rparr>, [ms_selected s])"

definition multi_select_destroy :: "multi_select \<Rightarrow> multi_select" where
  "multi_select_destroy s = s\<lparr>ms_alive := False\<rparr>"

definition select_option :: "json option \<Rightarrow> multi_select \<Rightarrow> multi_select \<times> json list list" where
  "select_option v s =
     (let (s, out) = (case filter (\<lambda>option. strict_equal (option_value s option) v) (ms_options s) of
            [] \<Rightarrow> (s, [])
          | option # _ \<Rightarrow> select_next (ms_selected s @ [option]) s)
      in (s\<lparr>ms_filter := Some []\<rparr>, out))"

definition deselect_option :: "json option \<Rightarrow> multi_select \<Rightarrow> multi_select \<times> json list list" where
  "deselect_option v s =
     select_next (filter (\<lambda>option. \<not> strict_equal (option_value s option) v) (ms_selected s)) s"

datatype select_input =
    ValueName string
  | Display "string + display_function"
  | SelectedDisplay "string + display_function"
  | FilterFunction "string \<Rightarrow> json \<Rightarrow> bool"
  | SelectedRows "json list"
  | OptionRows "json list option"
  | TypeFilter string
  | Choose "json option"
  | RemoveChip "json option"

fun select_step :: "select_input \<Rightarrow> multi_select \<Rightarrow> multi_select \<times> json list list" where
  "select_step (ValueName v) s = (s\<lparr>ms_value := v\<rparr>, [])"
| "select_step (Display d) s = (s\<lparr>ms_display := Some (display_of d)\<rparr>, [])"
| "select_step (SelectedDisplay d) s = (s\<lparr>ms_selectedDisplay := Some (display_of d)\<rparr>, [])"
| "select_step (FilterFunction f) s = (s\<lparr>ms_filterFunction := Some f\<rparr>, [])"
| "select_step (SelectedRows rows) s = select_next rows s"
| "select_step (OptionRows rows) s = (s\<lparr>ms_options := nullish rows []\<rparr>, [])"
| "select_step (TypeFilter t) s = (s\<lparr>ms_filter := Some t\<rparr>, [])"
| "select_step (Choose v) s = select_option v s"
| "select_step (RemoveChip v) s = deselect_option v s"

text \<open>An option is offered or selected, never both; one that is chosen is selected, one that is
  removed is not, and then it is offered again.\<close>

lemma offered_not_selected:
  "option \<in> set (offered s) \<Longrightarrow> row \<in> set (ms_selected s) \<Longrightarrow>
   \<not> strict_equal (option_value s row) (option_value s option)"
  by (auto simp: offered_def filter_empty_conv)

lemma strict_equal_sym: "strict_equal a b \<Longrightarrow> strict_equal b a"
  by (induction a b rule: strict_equal.induct) auto

lemma select_option_value [simp]: "option_value (fst (select_option v s)) = option_value s"
  by (auto simp: select_option_def select_next_def option_value_def fun_eq_iff split: list.split)

lemma chosen_selected:
  assumes "option \<in> set (offered s)" and "strict_equal (option_value s option) v"
  shows "\<exists>row \<in> set (ms_selected (fst (select_option v s))). strict_equal (option_value s row) v"
proof -
  have "option \<in> set (filter (\<lambda>option. strict_equal (option_value s option) v) (ms_options s))"
    using assms by (auto simp: offered_def)
  then obtain row rest where f: "filter (\<lambda>option. strict_equal (option_value s option) v) (ms_options s) = row # rest"
    by (cases "filter (\<lambda>option. strict_equal (option_value s option) v) (ms_options s)") auto
  then have "strict_equal (option_value s row) v" by (metis (mono_tags) filter_eq_ConsD)
  then show ?thesis by (simp add: select_option_def f select_next_def)
qed

lemma removed_unselected:
  "row \<in> set (ms_selected (fst (deselect_option v s))) \<Longrightarrow> \<not> strict_equal (option_value s row) v"
  by (simp add: deselect_option_def select_next_def)

text \<open>Selected rows stay distinct by value as long as only offered options are chosen.\<close>

definition selection_distinct :: "multi_select \<Rightarrow> bool" where
  "selection_distinct s \<longleftrightarrow>
     sorted_wrt (\<lambda>a b. \<not> strict_equal (option_value s a) (option_value s b)) (ms_selected s)"

lemma strict_equal_trans: "strict_equal a b \<Longrightarrow> strict_equal b c \<Longrightarrow> strict_equal a c"
  by (induction a b rule: strict_equal.induct; cases c) (auto elim: strict_equal.elims)

lemma select_option_distinct:
  assumes "selection_distinct s" and "option \<in> set (offered s)" and "strict_equal (option_value s option) v"
  shows "selection_distinct (fst (select_option v s))"
proof -
  obtain row rest where f: "filter (\<lambda>option. strict_equal (option_value s option) v) (ms_options s) = row # rest"
    using assms(2,3) by (cases "filter (\<lambda>option. strict_equal (option_value s option) v) (ms_options s)")
      (auto simp: offered_def filter_empty_conv)
  then have row: "strict_equal (option_value s row) v" by (metis (mono_tags) filter_eq_ConsD)
  have "\<not> strict_equal (option_value s a) (option_value s row)" if "a \<in> set (ms_selected s)" for a
    using offered_not_selected [OF assms(2) that] assms(3) row strict_equal_sym strict_equal_trans by blast
  then have "sorted_wrt (\<lambda>a b. \<not> strict_equal (option_value s a) (option_value s b)) (ms_selected s @ [row])"
    using assms(1) by (simp add: sorted_wrt_append selection_distinct_def)
  moreover have "ms_selected (fst (select_option v s)) = ms_selected s @ [row]"
    by (simp add: select_option_def f select_next_def)
  ultimately show ?thesis by (simp add: selection_distinct_def)
qed

lemma deselect_option_distinct: "selection_distinct s \<Longrightarrow> selection_distinct (fst (deselect_option v s))"
  by (simp add: selection_distinct_def deselect_option_def select_next_def option_value_def sorted_wrt_filter)

subsection \<open>\<open>FileUploadComponent\<close>\<close>

text \<open>A file of the browser is a value of a type of its own. The event holds the file list, if any.\<close>

record 'f file_upload =
  fu_file :: "'f option"
  fu_emitted :: "'f option option"

definition new_file_upload :: "'f file_upload" where
  "new_file_upload = \<lparr>fu_file = None, fu_emitted = None\<rparr>"

definition filename :: "('f \<Rightarrow> string) \<Rightarrow> 'f file_upload \<Rightarrow> string option" where
  "filename name_of s = map_option name_of (fu_file s)"

text \<open>\<open>distinctUntilChanged\<close>: a value equal to the last one emitted is not emitted.\<close>

definition file_emit :: "'f file_upload \<Rightarrow> 'f file_upload \<times> 'f option list" where
  "file_emit s =
     (if fu_emitted s = Some (fu_file s) then (s, [])
      else (s\<lparr>fu_emitted := Some (fu_file s)\<rparr>, [fu_file s]))"

definition file_upload_init :: "'f file_upload \<Rightarrow> 'f file_upload \<times> 'f option list" where
  "file_upload_init s = file_emit s"

definition uploadFileSelected :: "'f list option \<Rightarrow> 'f file_upload \<Rightarrow> 'f file_upload \<times> 'f option list" where
  "uploadFileSelected files s =
     file_emit (s\<lparr>fu_file := (case files of Some (f # fs) \<Rightarrow> Some f | _ \<Rightarrow> None)\<rparr>)"

lemma file_emitted: "fu_emitted (fst (uploadFileSelected files s)) = Some (fu_file (fst (uploadFileSelected files s)))"
  by (simp add: uploadFileSelected_def file_emit_def)

lemma file_repeated:
  "snd (uploadFileSelected files (fst (uploadFileSelected files s))) = []"
  by (simp add: uploadFileSelected_def file_emit_def)

end
