(* ===== verification/Page_Frame.thy ===== *)
theory Page_Frame
  imports Auth Forms
begin

text \<open>
  \<open>core/components/page\<close> and \<open>core/services/theme.service.ts\<close>: the frame of the application with its
  links and the screen of a visitor without access, and the choice of the theme.
\<close>

subsection \<open>\<open>ThemeService\<close>\<close>

datatype theme_preference = System | Light | Dark

fun preference_text :: "theme_preference \<Rightarrow> string" where
  "preference_text System = ''system''"
| "preference_text Light = ''light''"
| "preference_text Dark = ''dark''"

text \<open>
  The storage of the browser: whether reading and writing work (each may throw, and a page may have
  none), and what it holds under \<open>asl-theme\<close>.
\<close>

record theme_storage =
  ts_readable :: bool
  ts_writable :: bool
  ts_item :: "string option"

record theme_service =
  th_systemDark :: bool
  th_choice :: theme_preference
  th_dataset :: "(theme_preference \<times> theme_preference) option"

definition readPreference :: "theme_storage \<Rightarrow> theme_preference" where
  "readPreference store =
     (if \<not> ts_readable store then System
      else if ts_item store = Some ''light'' then Light
      else if ts_item store = Some ''dark'' then Dark else System)"

definition resolved :: "theme_service \<Rightarrow> theme_preference" where
  "resolved s =
     (if th_choice s = System then if th_systemDark s then Dark else Light else th_choice s)"

definition theme_apply :: "theme_service \<Rightarrow> theme_service" where
  "theme_apply s = s\<lparr>th_dataset := Some (resolved s, th_choice s)\<rparr>"

text \<open>\<open>media\<close>: the answer of the media query, when the browser has one.\<close>

definition new_theme :: "bool option \<Rightarrow> theme_storage \<Rightarrow> theme_service" where
  "new_theme media store =
     theme_apply \<lparr>th_systemDark = nullish media False, th_choice = readPreference store, th_dataset = None\<rparr>"

definition system_changed :: "bool \<Rightarrow> theme_service \<Rightarrow> theme_service" where
  "system_changed matches s = theme_apply (s\<lparr>th_systemDark := matches\<rparr>)"

definition setPreference ::
  "theme_preference \<Rightarrow> theme_service \<times> theme_storage \<Rightarrow> theme_service \<times> theme_storage" where
  "setPreference p x =
     (case x of (s, store) \<Rightarrow>
        (theme_apply (s\<lparr>th_choice := p\<rparr>),
         if ts_writable store then store\<lparr>ts_item := Some (preference_text p)\<rparr> else store))"

text \<open>The attributes of the document follow the state; a choice that was stored is read back.\<close>

definition theme_ok :: "theme_service \<Rightarrow> bool" where
  "theme_ok s \<longleftrightarrow> th_dataset s = Some (resolved s, th_choice s) \<and> resolved s \<noteq> System"

lemma resolved_apply [simp]: "resolved (theme_apply s) = resolved s"
  by (simp add: resolved_def theme_apply_def)

lemma theme_kept:
  "theme_ok (new_theme media store)"
  "theme_ok (system_changed b s)"
  "theme_ok (fst (setPreference p x))"
  by (auto simp: theme_ok_def new_theme_def system_changed_def setPreference_def theme_apply_def
    resolved_def split: prod.split)

lemma preference_roundtrip:
  assumes "ts_readable store" and "ts_writable store"
  shows "th_choice (new_theme media (snd (setPreference p (s, store)))) = p"
  using assms by (cases p) (simp_all add: setPreference_def new_theme_def theme_apply_def readPreference_def)

subsection \<open>\<open>PageComponent\<close>\<close>

record page_link =
  ln_label :: string
  ln_icon :: string
  ln_path :: string
  ln_allowed :: "auth \<Rightarrow> bool"

definition page_links :: "page_link list" where
  "page_links =
     [\<lparr>ln_label = ''Accueil'', ln_icon = ''dashboard'', ln_path = ''/dashboard'', ln_allowed = active\<rparr>,
      \<lparr>ln_label = ''Budgets'', ln_icon = ''account_balance_wallet'', ln_path = ''/budgets'',
        ln_allowed = active\<rparr>,
      \<lparr>ln_label = ''Lots'', ln_icon = ''map'', ln_path = ''/units'', ln_allowed = active\<rparr>,
      \<lparr>ln_label = ''Membres'', ln_icon = ''groups'', ln_path = ''/members'', ln_allowed = active\<rparr>,
      \<lparr>ln_label = ''E-mails'', ln_icon = ''mail'', ln_path = ''/emails'', ln_allowed = active\<rparr>,
      \<lparr>ln_label = ''Utilisateurs'', ln_icon = ''manage_accounts'', ln_path = ''/users'',
        ln_allowed = administrator\<rparr>,
      \<lparr>ln_label = ''Listes de diffusion'', ln_icon = ''contact_mail'', ln_path = ''/mailing-lists'',
        ln_allowed = administrator\<rparr>]"

definition links_shown :: "auth \<Rightarrow> page_link list" where
  "links_shown a = filter (\<lambda>l. ln_allowed l a) page_links"

record page_frame =
  pg_menuOpen :: bool
  pg_checking :: bool

definition new_page_frame :: page_frame where
  "new_page_frame = \<lparr>pg_menuOpen = False, pg_checking = False\<rparr>"

definition closeMobileMenu :: "bool \<Rightarrow> page_frame \<Rightarrow> page_frame" where
  "closeMobileMenu handset s = (if handset then s\<lparr>pg_menuOpen := False\<rparr> else s)"

datatype access_title = AccountPending | AccessRefused | AccessDisabled

definition accessTitle :: "string option \<Rightarrow> access_title" where
  "accessTitle status =
     (if status = Some ''pending'' then AccountPending
      else if status = Some ''rejected'' then AccessRefused else AccessDisabled)"

datatype access_text = ReviewPending | ContactOffice | AskReactivation

definition accessMessage :: "string option \<Rightarrow> access_text" where
  "accessMessage status =
     (if status = Some ''pending'' then ReviewPending
      else if status = Some ''rejected'' then ContactOffice else AskReactivation)"

definition loginLabel :: "string option \<Rightarrow> string" where
  "loginLabel label =
     (let provider = map_option js_trim label
      in if truthy_str provider \<and> provider \<noteq> Some ''Se connecter''
         then ''Continuer avec '' @ nullish provider [] else ''Se connecter'')"

text \<open>The page and the session it refreshes.\<close>

type_synonym framed = "page_frame \<times> auth"

definition refreshAccess :: "framed \<Rightarrow> framed \<times> auth_effect list" where
  "refreshAccess x =
     (case x of (s, a) \<Rightarrow>
        if pg_checking s then (x, [])
        else (let (a, out) = refresh a in ((s\<lparr>pg_checking := True\<rparr>, a), out)))"

text \<open>
  The end of the refresh: under the server session the answer to its request, which the service
  handles before the page. Under the transitional provider the page only learns that the request of
  a token is over; the token itself comes to the service as a change (\<open>googleTokenChanged\<close>).
\<close>

definition access_answer :: "api_error + AuthUser option \<Rightarrow> framed \<Rightarrow> framed \<times> auth_effect list" where
  "access_answer r x =
     (case x of (s, a) \<Rightarrow>
        let (a, out) = (if mode_is ''oidc'' a
              then (case r of Inl e \<Rightarrow> session_error e a | Inr user \<Rightarrow> session_next user a)
              else (a, []))
        in ((s\<lparr>pg_checking := False\<rparr>, a), out))"

datatype page_input = ToggleMenu | CloseMenu bool

fun page_edit :: "page_input \<Rightarrow> framed \<Rightarrow> framed" where
  "page_edit ToggleMenu (s, a) = (s\<lparr>pg_menuOpen := \<not> pg_menuOpen s\<rparr>, a)"
| "page_edit (CloseMenu b) (s, a) = (closeMobileMenu b s, a)"

definition page_logout :: "framed \<Rightarrow> framed \<times> auth_effect list" where
  "page_logout x = (case x of (s, a) \<Rightarrow> let (a, out) = logout a in ((s, a), out))"

definition page_login :: "browser \<Rightarrow> framed \<Rightarrow> framed \<times> auth_effect list" where
  "page_login br x = (case x of (s, a) \<Rightarrow> let (a, out) = login br a in ((s, a), out))"

definition page_init :: "bool \<Rightarrow> framed \<Rightarrow> framed \<times> auth_effect list" where
  "page_init authError x = (case x of (s, a) \<Rightarrow> let (a, out) = init authError a in ((s, a), out))"

definition access_requests :: "auth_effect list \<Rightarrow> auth_effect list" where
  "access_requests out = filter (\<lambda>e. e = Call GetCurrentUser \<or> e = GoogleRequestToken) out"

interpretation access_check:
  submit_guard refreshAccess access_answer page_edit access_requests "\<lambda>x. pg_checking (fst x)"
proof unfold_locales
  fix x :: framed and u
  show "pg_checking (fst (page_edit u x)) = pg_checking (fst x)"
    by (cases x; cases u) (simp_all add: closeMobileMenu_def)
qed (auto simp: refreshAccess_def access_answer_def access_requests_def refresh_def loadSession_def
  session_next_def session_error_def clearUser_def Let_def split: prod.split sum.split)

text \<open>
  Links: an active account that is no administrator sees the five pages of the association; nobody
  without an active account sees one.
\<close>

lemma links_of_member:
  "active a \<Longrightarrow> \<not> administrator a \<Longrightarrow>
   map ln_path (links_shown a) = [''/dashboard'', ''/budgets'', ''/units'', ''/members'', ''/emails'']"
  by (simp add: links_shown_def page_links_def)

lemma no_links: "\<not> active a \<Longrightarrow> \<not> administrator a \<Longrightarrow> links_shown a = []"
  by (simp add: links_shown_def page_links_def)

end
