(* ===== verification/Table_Actions.thy ===== *)
theory Table_Actions
  imports Crud_Table
begin

text \<open>
  The rest of \<open>shared/components/crud-table\<close>: the actions of the toolbar and of a row, the rights given
  as a constant or as a stream, the columns that a page projects into the table, the label of the
  search.
\<close>

subsection \<open>Actions\<close>

record 'e toolbar_action =
  ta_icon :: string
  ta_tooltip :: string
  ta_func :: "'e list"
  ta_loading :: "bool option"
  ta_loadingTooltip :: "string option"

record ('r, 'e) table_row_action =
  ra_icon :: string
  ra_tooltip :: string
  ra_label :: string
  ra_func :: "'r \<Rightarrow> 'e list"
  ra_show :: "'r \<Rightarrow> bool"
  ra_disabled :: "'r \<Rightarrow> bool"

definition new_table_action :: "string \<Rightarrow> string \<Rightarrow> string \<Rightarrow> ('r \<Rightarrow> 'e list) \<Rightarrow> ('r, 'e) table_row_action" where
  "new_table_action icon tooltip label func =
     \<lparr>ra_icon = icon, ra_tooltip = tooltip, ra_label = label, ra_func = func,
      ra_show = (\<lambda>row. True), ra_disabled = (\<lambda>row. False)\<rparr>"

definition set_rowActions :: "('r, 'e) table_row_action list option \<Rightarrow> crud_table \<Rightarrow> crud_table" where
  "set_rowActions actions s = s\<lparr>ct_rowActions := length (nullish actions [])\<rparr>"

text \<open>No row action, no edition and no deletion: the table has no column of actions.\<close>

lemma actions_column:
  "ct_canEdit s = Allow False \<Longrightarrow> ct_canDelete s = Allow False \<Longrightarrow>
   showActions (set_rowActions actions s) \<longleftrightarrow> nullish actions [] \<noteq> []"
  by (simp add: showActions_def set_rowActions_def)

subsection \<open>Rights\<close>

text \<open>
  \<open>canSelect\<close> and \<open>canCreate\<close>: a constant is written at once, a stream is subscribed until the table
  is destroyed. A stream is a number; \<open>rg_streams\<close> are the subscriptions.
\<close>

datatype right_source = Constant bool | Stream nat

record right_input =
  rg_value :: bool
  rg_streams :: "nat list"
  rg_destroyed :: bool

definition new_right :: right_input where
  "new_right = \<lparr>rg_value = False, rg_streams = [], rg_destroyed = False\<rparr>"

definition right_set :: "right_source \<Rightarrow> right_input \<Rightarrow> right_input" where
  "right_set src r =
     (case src of
        Constant b \<Rightarrow> r\<lparr>rg_value := b\<rparr>
      | Stream k \<Rightarrow> if rg_destroyed r then r else r\<lparr>rg_streams := rg_streams r @ [k]\<rparr>)"

definition right_emit :: "nat \<Rightarrow> bool \<Rightarrow> right_input \<Rightarrow> right_input" where
  "right_emit k b r = (if k \<in> set (rg_streams r) then r\<lparr>rg_value := b\<rparr> else r)"

definition right_destroy :: "right_input \<Rightarrow> right_input" where
  "right_destroy r = r\<lparr>rg_streams := [], rg_destroyed := True\<rparr>"

lemma right_follows_stream:
  "right_emit k b (right_set (Stream k) r) =
     (if rg_destroyed r then right_emit k b r else (right_set (Stream k) r)\<lparr>rg_value := b\<rparr>)"
  by (simp add: right_emit_def right_set_def)

text \<open>
  A stream that the page has replaced by a constant still decides: nothing ends its subscription
  before the table is destroyed.
\<close>

lemma replaced_stream_decides:
  "rg_value (right_emit 1 True (right_set (Constant False) (right_set (Stream 1) new_right)))"
  by (simp add: right_emit_def right_set_def new_right_def)

lemma destroyed_right_stays: "rg_value (right_emit k b (right_destroy r)) = rg_value r"
  by (simp add: right_emit_def right_destroy_def)

subsection \<open>Projected columns\<close>

text \<open>
  The columns of the template by name with their cells, those the page projects, and the names of the
  projected ones that no column of the template has. The first column of a name takes the cell.
\<close>

record 'c column_defs =
  cf_defaults :: "(string \<times> 'c) list"
  cf_added :: "(string \<times> 'c) list"

fun replace_cell :: "string \<Rightarrow> 'c \<Rightarrow> (string \<times> 'c) list \<Rightarrow> (string \<times> 'c) list" where
  "replace_cell n c [] = []"
| "replace_cell n c ((m, d) # ds) = (if m = n then (m, c) # ds else (m, d) # replace_cell n c ds)"

definition project_column :: "string \<times> 'c \<Rightarrow> 'c column_defs \<Rightarrow> 'c column_defs" where
  "project_column col s =
     (if fst col \<in> fst ` set (cf_defaults s)
      then s\<lparr>cf_defaults := replace_cell (fst col) (snd col) (cf_defaults s)\<rparr>
      else s\<lparr>cf_added := cf_added s @ [col]\<rparr>)"

definition project_columns :: "(string \<times> 'c) list option \<Rightarrow> 'c column_defs \<Rightarrow> 'c column_defs" where
  "project_columns cols s = fold project_column (nullish cols []) s"

definition projected_table :: "'c column_defs \<Rightarrow> crud_table \<Rightarrow> crud_table" where
  "projected_table defs s = s\<lparr>ct_custom := map fst (cf_added defs)\<rparr>"

definition columnsCount :: "crud_table \<Rightarrow> nat" where
  "columnsCount s = length (visible_columns s)"

lemma replace_cell_names [simp]: "map fst (replace_cell n c ds) = map fst ds"
  by (induction n c ds rule: replace_cell.induct) auto

lemma replace_cell_get:
  "map_of (replace_cell n c ds) m = (if m = n \<and> n \<in> set (map fst ds) then Some c else map_of ds m)"
  by (induction n c ds rule: replace_cell.induct) (auto simp del: set_map)

lemma project_names:
  "map fst (cf_defaults (fold project_column cols s)) = map fst (cf_defaults s)"
proof (induction cols arbitrary: s)
  case (Cons col cols)
  have "map fst (cf_defaults (project_column col s)) = map fst (cf_defaults s)"
    by (simp add: project_column_def)
  with Cons show ?case by simp
qed simp

text \<open>
  Every projected column is shown: with its own cell in the place of the column of its name, or after
  the columns of the table. No column is shown twice.
\<close>

lemma project_added:
  "set (cf_added (fold project_column cols s)) =
     set (cf_added s) \<union> {col \<in> set cols. fst col \<notin> fst ` set (cf_defaults s)}"
proof (induction cols arbitrary: s)
  case (Cons col cols)
  have "fst ` set (cf_defaults (project_column col s)) = fst ` set (cf_defaults s)"
    using project_names [of "[col]" s] by (metis fold_simps set_map)
  with Cons [of "project_column col s"] show ?case
    by (auto simp: project_column_def)
qed simp

lemma projected_shown:
  assumes "col \<in> set cols" and "map fst (cf_defaults s) = map co_name (filter (Not \<circ> co_hidden) (ct_columns t))"
  shows "fst col \<in> set (visible_columns (projected_table (project_columns (Some cols) s) t))"
proof (cases "fst col \<in> fst ` set (cf_defaults s)")
  case True
  then have "fst col \<in> set (map co_name (filter (Not \<circ> co_hidden) (ct_columns t)))"
    unfolding assms(2) [symmetric] by simp
  then show ?thesis by (auto simp: visible_columns_def projected_table_def)
next
  case False
  with assms(1) have "col \<in> set (cf_added (fold project_column cols s))" by (simp add: project_added)
  then show ?thesis by (auto simp: visible_columns_def projected_table_def project_columns_def)
qed

lemma columns_once: "distinct (visible_columns s)"
  by (simp add: visible_columns_def)

subsection \<open>The label of the search\<close>

definition search_label :: "column list option \<Rightarrow> string" where
  "search_label columns = join_str '' / '' (map co_label (nullish columns []))"

definition search_columns :: "column list option \<Rightarrow> crud_table \<Rightarrow> column list" where
  "search_columns own s = nullish own (filter co_canFilter (ct_columns s))"

end
