(* ===== verification/Dialogs.thy ===== *)
theory Dialogs
  imports Ui Json
begin

text \<open>
  \<open>shared/services/notifications.service.ts\<close> and \<open>notification-dialog\<close>: what the service opens a
  dialog with. Options are an object: an association list in the order of insertion.
\<close>

datatype notification_level = InfoLevel | ErrorLevel

fun level_text :: "notification_level \<Rightarrow> string" where
  "level_text InfoLevel = ''info''"
| "level_text ErrorLevel = ''error''"

record notification_data =
  nd_title :: string
  nd_message :: string
  nd_level :: notification_level
  nd_detail :: "json option"

record confirm_data =
  cf_class :: "string option"
  cf_title :: string
  cf_confirmLabel :: "string option"
  cf_message :: string
  cf_force :: "bool option"

datatype 'c dialog = FormDialog 'c | NotificationDialog notification_data | ConfirmDialog confirm_data

type_synonym dialog_options = "(string \<times> json) list"

definition assign_options :: "dialog_options \<Rightarrow> dialog_options \<Rightarrow> dialog_options" where
  "assign_options target source = fold (\<lambda>(k, v) m. omap_set k v m) source target"

definition form_options :: dialog_options where
  "form_options = [(''disableClose'', JBool True), (''width'', JStr ''100%'')]"

definition show_dialog :: "'c \<Rightarrow> dialog_options option \<Rightarrow> 'c dialog \<times> dialog_options" where
  "show_dialog component params = (FormDialog component, assign_options form_options (nullish params []))"

definition showForm :: "'c \<Rightarrow> dialog_options option \<Rightarrow> 'c dialog \<times> dialog_options" where
  "showForm component params = (FormDialog component, assign_options form_options (nullish params []))"

definition showDialog :: "notification_data \<Rightarrow> 'c dialog \<times> dialog_options" where
  "showDialog params = (NotificationDialog params, [(''disableClose'', JBool True)])"

definition showConfirm :: "confirm_data \<Rightarrow> 'c dialog \<times> dialog_options" where
  "showConfirm params = (ConfirmDialog params, [(''disableClose'', JBool True)])"

text \<open>The dialog of a confirmation as \<open>Ui\<close> models it: with a box exactly when one is asked for.\<close>

definition confirm_of :: "confirm_data \<Rightarrow> confirm_dialog" where
  "confirm_of d = \<lparr>cd_class = cf_class d, cd_force = cf_force d\<rparr>"

text \<open>
  What the caller gives wins over the defaults; what it does not give is the default. So no dialog is
  closed from outside its component unless its caller asks for that.
\<close>

lemma assign_options_get:
  "map_of (assign_options target source) k =
     (case map_of (rev source) k of None \<Rightarrow> map_of target k | Some v \<Rightarrow> Some v)"
proof (induction source rule: rev_induct)
  case Nil
  show ?case by (simp add: assign_options_def)
next
  case (snoc kv source)
  then show ?case by (cases kv) (simp add: assign_options_def)
qed

lemma dialogs_stay_open:
  assumes "''disableClose'' \<notin> set (map fst (nullish params []))"
  shows "map_of (snd (showForm c params)) ''disableClose'' = Some (JBool True)"
proof -
  have "map_of (rev (nullish params [])) ''disableClose'' = None"
    using assms by (simp add: map_of_eq_None_iff)
  then show ?thesis by (simp add: showForm_def assign_options_get form_options_def)
qed

lemma plain_confirm_answers:
  "cf_force d = None \<Longrightarrow>
   \<not> confirm_truthy (confirm_cancel (confirm_of d)) \<and> confirm_truthy (confirm_confirm (confirm_of d) b)"
  by (simp add: confirm_of_def plain_dialog_answers)

text \<open>
  The dialog of the payments of a call: its options, and its size, which follows the width of the
  screen (\<open>narrow\<close>: at most 600 pixels).
\<close>

definition cotisation_width :: string where
  "cotisation_width = ''min(76rem, calc(100vw - 2rem))''"

definition cotisation_height :: string where
  "cotisation_height = ''min(56rem, calc(100dvh - 2rem))''"

definition cotisation_dialog_options :: dialog_options where
  "cotisation_dialog_options =
     [(''width'', JStr cotisation_width), (''height'', JStr cotisation_height),
      (''maxWidth'', JStr ''100vw''), (''maxHeight'', JStr ''100dvh''),
      (''panelClass'', JStr ''cotisation-dialog''), (''autoFocus'', JStr ''first-heading'')]"

definition payment_dialog_size :: "bool \<Rightarrow> string \<times> string" where
  "payment_dialog_size narrow =
     (if narrow then ''100vw'' else cotisation_width, if narrow then ''100dvh'' else cotisation_height)"

lemma cotisation_dialog:
  "map_of (snd (show_dialog c (Some cotisation_dialog_options))) ''disableClose'' = Some (JBool True)"
  "map_of (snd (show_dialog c (Some cotisation_dialog_options))) ''width'' = Some (JStr cotisation_width)"
  by (simp_all add: show_dialog_def assign_options_get form_options_def cotisation_dialog_options_def)

end
