(* ===== verification/Directory_Columns.thy ===== *)
theory Directory_Columns
  imports Row_Lists Members
begin

text \<open>
  The columns of the directory of members (\<open>members/components/member-list\<close>) and of the e-mails of a
  campaign (\<open>emails/components/email-list\<close>), over the columns of \<open>Crud_Table\<close>. \<open>coll\<close> is
  \<open>localeCompare\<close> for French with \<open>sensitivity: base\<close>.
\<close>

subsection \<open>Members\<close>

text \<open>\<open>String(a ?? '')\<close>.\<close>

definition cell_text :: "json option \<Rightarrow> string" where
  "cell_text a = (case a of None \<Rightarrow> [] | Some j \<Rightarrow> if j = JNull then [] else str_of j)"

definition compare_text :: "(string \<Rightarrow> string \<Rightarrow> int) \<Rightarrow> json option \<Rightarrow> json option \<Rightarrow> int" where
  "compare_text coll a b = coll (cell_text a) (cell_text b)"

definition cell_lots :: "json option \<Rightarrow> json list" where
  "cell_lots v = (case v of Some (JArr us) \<Rightarrow> us | _ \<Rightarrow> [])"

text \<open>\<open>unit.number ?? 0\<close>.\<close>

definition lot_or_zero :: "json \<Rightarrow> json" where
  "lot_or_zero u =
     (case member_of ''number'' (Some u) of
        None \<Rightarrow> JNum Zero | Some j \<Rightarrow> if j = JNull then JNum Zero else j)"

text \<open>\<open>Math.min\<close>.\<close>

definition min_number :: "js_number \<Rightarrow> js_number \<Rightarrow> js_number" where
  "min_number a b = (if a = NaN \<or> b = NaN then NaN else if number_less b a then b else a)"

definition first_lot :: "(string \<Rightarrow> js_number) \<Rightarrow> json option \<Rightarrow> js_number" where
  "first_lot rd v =
     foldl min_number (Infinite False) (map (\<lambda>u. to_number rd (Some (lot_or_zero u))) (cell_lots v))"

definition compare_lots :: "(string \<Rightarrow> js_number) \<Rightarrow> json option \<Rightarrow> json option \<Rightarrow> int" where
  "compare_lots rd a b =
     (let first = JNum (first_lot rd a); second = JNum (first_lot rd b)
      in if strict_equal (Some first) (Some second) then 0
         else if number_less (first_lot rd a) (first_lot rd b) then -1 else 1)"

definition lots_text :: "json option \<Rightarrow> string" where
  "lots_text v = join_str '', '' (map (\<lambda>u. cell_text (member_of ''number'' (Some u))) (cell_lots v))"

definition lots_filter :: "json option \<Rightarrow> string \<Rightarrow> bool" where
  "lots_filter v pattern \<longleftrightarrow>
     pattern = [] \<or> list_ex (\<lambda>u. str_includes (str_of (lot_or_zero u)) pattern) (cell_lots v)"

definition member_columns ::
  "(string \<Rightarrow> js_number) \<Rightarrow> (string \<Rightarrow> string \<Rightarrow> int) \<Rightarrow> column list" where
  "member_columns rd coll =
     [(new_column rd ''first_name'')\<lparr>co_label := ''Pr'' @ [CHR 0xE9] @ ''nom'', co_canSort := True,
        co_sort := compare_text coll\<rparr>,
      (new_column rd ''last_name'')\<lparr>co_label := ''Nom'', co_canSort := True, co_defaultSort := True,
        co_sort := compare_text coll\<rparr>,
      (new_column rd ''address'')\<lparr>co_label := ''Adresse''\<rparr>,
      (new_column rd ''phone_number'')\<lparr>co_label := ''T'' @ [CHR 0xE9] @ ''l'' @ [CHR 0xE9] @ ''phone''\<rparr>,
      (new_column rd ''email'')\<lparr>co_label := ''E-mail''\<rparr>,
      (new_column rd ''units'')\<lparr>co_label := ''Lots'', co_render := (\<lambda>v. Some (JStr (lots_text v))),
        co_canSort := True, co_sort := compare_lots rd, co_filter := lots_filter\<rparr>]"

definition member_rowLabel :: "ModelsMember \<Rightarrow> string" where
  "member_rowLabel m = join_str '' '' (map the (filter truthy_str [mem_first_name m, mem_last_name m]))"

definition member_rights :: "auth \<Rightarrow> bool \<times> bool \<times> bool" where
  "member_rights a =
     (allowed ''member.CreateMember'' a, allowed ''member.UpdateMember'' a,
      allowed ''member.DeleteMember'' a)"

text \<open>
  The columns of names order the rows consistently whenever the locale does, so that the table shows
  the members sorted by name; no column filters, the directory has a search of its own.
\<close>

lemma names_order:
  assumes "collation coll"
  shows "orders (member_columns rd coll ! 0) V" and "orders (member_columns rd coll ! 1) V"
proof -
  have "collation (compare_text coll)"
    using collation_vimage [OF assms, of cell_text] by (simp add: compare_text_def [abs_def])
  then show "orders (member_columns rd coll ! 0) V" "orders (member_columns rd coll ! 1) V"
    by (auto simp: orders_def member_columns_def)
qed

text \<open>The column of the lots is ordered by the least number, a member without lot comes last.\<close>

lemma no_lot_last:
  "cell_lots b = [] \<Longrightarrow> first_lot rd a \<noteq> NaN \<Longrightarrow> first_lot rd a \<noteq> Infinite False \<Longrightarrow>
   compare_lots rd a b = -1 \<and> compare_lots rd b a = 1"
  by (cases "first_lot rd a") (auto simp: compare_lots_def Let_def first_lot_def [of rd b])

lemma members_no_filter: "\<not> list_ex co_canFilter (member_columns rd coll)"
  by (simp add: member_columns_def new_column_def)

lemma member_label_name: "member_rowLabel m \<noteq> [] \<Longrightarrow> member_rowLabel m = memberName m"
  by (simp add: member_rowLabel_def memberName_def Let_def)

subsection \<open>E-mails\<close>

definition email_columns :: "(string \<Rightarrow> js_number) \<Rightarrow> cell_format \<Rightarrow> column list" where
  "email_columns rd date =
     [(new_column rd ''subject'')\<lparr>co_label := ''Objet'',
        co_render := defaultValueRenderer (Some (JStr ''Objet indisponible''))\<rparr>,
      (new_column rd ''to'')\<lparr>co_label := ''Destinataire'', co_canSort := True, co_canFilter := True\<rparr>,
      (new_column rd ''created_at'')\<lparr>co_label := ''Pr'' @ [CHR 0xE9] @ ''par'' @ [CHR 0xE9] @ '' le'',
        co_canSort := True, co_render := date\<rparr>,
      (new_column rd ''state'')\<lparr>co_label := [CHR 0xC9] @ ''tat'', co_canSort := True\<rparr>,
      (new_column rd ''message'')\<lparr>co_label := []\<rparr>]"

end
