(* ===== verification/Routes.thy ===== *)
theory Routes
  imports Page_Frame Row_Lists
begin

text \<open>
  The routes of the application (\<open>app-routing.module.ts\<close>, the routes and modules of the pages): which
  guard stands before which page, and where the links lead. The router of Angular takes the first
  route that matches the whole address, a parameter matching one segment; a route without a page
  passes what remains of the address to its children, which are those of the module it loads.
\<close>

datatype guard = Is_authenticated | Is_administrator

datatype page =
    Tour_page
  | Dashboard_page
  | Budget_list_page
  | Budget_details_page
  | Unit_list_page
  | Member_list_page
  | Campaign_list_page
  | Template_list_page
  | Email_list_page
  | User_list_page
  | Mailings_page

datatype route =
    To_page string "guard list" page
  | Redirect_to string string
  | Group string "guard list" "route list"

subsection \<open>The tables\<close>

definition dashboard_routes :: "route list" where
  "dashboard_routes = [To_page [] [Is_authenticated] Dashboard_page]"

definition budgets_routes :: "route list" where
  "budgets_routes =
     [Group [] [Is_authenticated] [To_page [] [] Budget_list_page, To_page '':id'' [] Budget_details_page]]"

definition units_routes :: "route list" where
  "units_routes = [Group [] [Is_authenticated] [To_page [] [] Unit_list_page]]"

definition members_routes :: "route list" where
  "members_routes = [Group [] [Is_authenticated] [To_page [] [] Member_list_page]]"

definition emails_routes :: "route list" where
  "emails_routes =
     [Group [] [Is_authenticated]
        [Redirect_to [] ''campaigns'', To_page ''campaigns'' [] Campaign_list_page,
         To_page ''templates'' [] Template_list_page],
      To_page ''campaigns/:id'' [Is_authenticated] Email_list_page]"

definition users_routes :: "route list" where
  "users_routes = [Group [] [Is_administrator] [To_page [] [] User_list_page]]"

definition mailings_routes :: "route list" where
  "mailings_routes = [To_page [] [Is_administrator] Mailings_page]"

definition core_routes :: "route list" where
  "core_routes = []"

definition app_routes :: "route list" where
  "app_routes =
     [To_page ''tour'' [Is_authenticated] Tour_page,
      Redirect_to [] ''/dashboard'',
      Group ''dashboard'' [] dashboard_routes,
      Group ''budgets'' [] budgets_routes,
      Group ''units'' [] units_routes,
      Group ''members'' [] members_routes,
      Group ''emails'' [] emails_routes,
      Group ''users'' [] users_routes,
      Group ''mailing-lists'' [] mailings_routes]"

text \<open>
  The modules that \<open>AppModule\<close> imports register their routes in that order. It also imports the
  module of the users, whose routes so stand a second time at the root, after the others.
\<close>

definition all_routes :: "route list" where
  "all_routes = core_routes @ app_routes @ users_routes"

subsection \<open>Addresses\<close>

definition segments :: "string \<Rightarrow> string list" where
  "segments path = filter (\<lambda>s. s \<noteq> []) (split_char CHR ''/'' path)"

datatype destination = Page page | Elsewhere "string list"

type_synonym declared_route = "string list \<times> guard list \<times> destination"

text \<open>A target without a leading slash is relative to the parent of its route.\<close>

fun route_entries :: "string list \<Rightarrow> guard list \<Rightarrow> route \<Rightarrow> declared_route list" where
  "route_entries pre gs (To_page path guards p) = [(pre @ segments path, gs @ guards, Page p)]"
| "route_entries pre gs (Redirect_to path target) =
     [(pre @ segments path, gs,
       Elsewhere (if starts_with target ''/'' then segments target else pre @ segments target))]"
| "route_entries pre gs (Group path guards rs) =
     concat (map (route_entries (pre @ segments path) (gs @ guards)) rs)"

definition declared_routes :: "declared_route list" where
  "declared_routes = concat (map (route_entries [] []) all_routes)"

definition segment_matches :: "string \<Rightarrow> string \<Rightarrow> bool" where
  "segment_matches pattern segment \<longleftrightarrow> starts_with pattern '':'' \<or> pattern = segment"

definition address_matches :: "string list \<Rightarrow> string list \<Rightarrow> bool" where
  "address_matches pattern address \<longleftrightarrow> list_all2 segment_matches pattern address"

definition route_at :: "string list \<Rightarrow> (guard list \<times> destination) option" where
  "route_at address = map_option snd (List.find (\<lambda>r. address_matches (fst r) address) declared_routes)"

text \<open>A redirection is followed once: no target is redirected again.\<close>

definition page_at :: "string list \<Rightarrow> (guard list \<times> page) option" where
  "page_at address =
     (case route_at address of
        Some (gs, Page p) \<Rightarrow> Some (gs, p)
      | Some (_, Elsewhere target) \<Rightarrow>
          (case route_at target of Some (gs, Page p) \<Rightarrow> Some (gs, p) | _ \<Rightarrow> None)
      | None \<Rightarrow> None)"

subsection \<open>Guards\<close>

fun run_guard :: "guard \<Rightarrow> auth list \<Rightarrow> string \<Rightarrow> auth \<Rightarrow> (bool \<times> auth) option" where
  "run_guard Is_authenticated states path s = isAuthenticated states path s"
| "run_guard Is_administrator states path s = isAdministrator states path s"

text \<open>The guards of a page, from the outermost route inwards; the first refusal decides.\<close>

fun run_guards :: "guard list \<Rightarrow> auth list \<Rightarrow> string \<Rightarrow> auth \<Rightarrow> (bool \<times> auth) option" where
  "run_guards [] states path s = Some (True, s)"
| "run_guards (g # gs) states path s =
     (case run_guard g states path s of
        Some (True, t) \<Rightarrow> run_guards gs states path t
      | r \<Rightarrow> r)"

definition page_required :: "page \<Rightarrow> auth \<Rightarrow> bool" where
  "page_required p a = (if p \<in> {User_list_page, Mailings_page} then administrator a else active a)"

subsection \<open>Links\<close>

text \<open>The links of the page of e-mails, which everyone may follow.\<close>

definition emails_links :: "page_link list" where
  "emails_links =
     [\<lparr>ln_label = ''Campagnes'', ln_icon = ''list'', ln_path = ''/emails/campaigns'', ln_allowed = (\<lambda>_. True)\<rparr>,
      \<lparr>ln_label = ''Mod'' @ [CHR 0xE8] @ ''les'', ln_icon = ''cog'', ln_path = ''/emails/templates'',
       ln_allowed = (\<lambda>_. True)\<rparr>]"

lemma declared_table:
  "declared_routes =
     [([''tour''], [Is_authenticated], Page Tour_page),
      ([], [], Elsewhere [''dashboard'']),
      ([''dashboard''], [Is_authenticated], Page Dashboard_page),
      ([''budgets''], [Is_authenticated], Page Budget_list_page),
      ([''budgets'', '':id''], [Is_authenticated], Page Budget_details_page),
      ([''units''], [Is_authenticated], Page Unit_list_page),
      ([''members''], [Is_authenticated], Page Member_list_page),
      ([''emails''], [Is_authenticated], Elsewhere [''emails'', ''campaigns'']),
      ([''emails'', ''campaigns''], [Is_authenticated], Page Campaign_list_page),
      ([''emails'', ''templates''], [Is_authenticated], Page Template_list_page),
      ([''emails'', ''campaigns'', '':id''], [Is_authenticated], Page Email_list_page),
      ([''users''], [Is_administrator], Page User_list_page),
      ([''mailing-lists''], [Is_administrator], Page Mailings_page),
      ([], [Is_administrator], Page User_list_page)]"
  by code_simp

lemma route_at_declared:
  "route_at address = Some r \<Longrightarrow> \<exists>pattern. (pattern, r) \<in> set declared_routes \<and> address_matches pattern address"
  by (fastforce simp: route_at_def dest: find_SomeD)

lemma page_guard:
  "(pattern, gs, Page p) \<in> set declared_routes \<Longrightarrow>
     gs = [if p \<in> {User_list_page, Mailings_page} then Is_administrator else Is_authenticated]"
  by (auto simp: declared_table)

lemma page_at_guard:
  assumes "page_at address = Some (gs, p)"
  shows "gs = [if p \<in> {User_list_page, Mailings_page} then Is_administrator else Is_authenticated]"
proof -
  have "\<exists>a. route_at a = Some (gs, Page p)"
    using assms by (fastforce simp: page_at_def split: option.splits destination.splits)
  then show ?thesis using route_at_declared page_guard by blast
qed

lemma guard_admits:
  assumes "run_guard g states path s = Some (True, s')"
  shows "s' = s \<and> (\<exists>a \<in> set states. \<not> au_loading a \<and>
    (if g = Is_administrator then administrator a else active a))"
proof -
  have "\<exists>v \<in> set vs. \<not> fst v \<and> snd v \<and> s' = s"
    if "waitForAuthentication vs path s = Some (True, s')" for vs
    using that by (induction vs path s rule: waitForAuthentication.induct) (auto split: if_splits)
  then show ?thesis using assms by (cases g) (fastforce simp: isAuthenticated_def isAdministrator_def)+
qed

lemma page_link_opens:
  assumes "ln_allowed l a" and l: "l \<in> set page_links"
  shows "\<exists>gs p. page_at (segments (ln_path l)) = Some (gs, p) \<and> page_required p a"
proof -
  have "list_all (\<lambda>l. case page_at (segments (ln_path l)) of None \<Rightarrow> False
      | Some (gs, p) \<Rightarrow> (p \<in> {User_list_page, Mailings_page}) =
          (ln_path l \<in> {''/users'', ''/mailing-lists''})) page_links" by code_simp
  with l obtain gs p where p: "page_at (segments (ln_path l)) = Some (gs, p)"
    "p \<in> {User_list_page, Mailings_page} \<longleftrightarrow> ln_path l \<in> {''/users'', ''/mailing-lists''}"
    by (auto simp: list_all_iff split: option.splits)
  have "if ln_path l \<in> {''/users'', ''/mailing-lists''} then administrator a else active a"
    using assms by (auto simp: page_links_def)
  with p show ?thesis by (auto simp: page_required_def)
qed

lemma emails_link_opens:
  "l \<in> set emails_links \<Longrightarrow> \<exists>p. page_at (segments (ln_path l)) = Some ([Is_authenticated], p)"
proof -
  have "list_all (\<lambda>l. map_option fst (page_at (segments (ln_path l))) = Some [Is_authenticated]) emails_links"
    by code_simp
  then show "l \<in> set emails_links \<Longrightarrow> \<exists>p. page_at (segments (ln_path l)) = Some ([Is_authenticated], p)"
    by (auto simp: list_all_iff)
qed

text \<open>The rows of the lists lead to their own pages, whatever their identifier.\<close>

lemma segments_append:
  assumes "CHR ''/'' \<notin> set k" and "k \<noteq> []"
  shows "segments (path @ ''/'' @ k) = segments path @ [k]"
proof -
  have k: "split_char CHR ''/'' k = [k]" using assms(1) by (induction k) auto
  have "split_char CHR ''/'' (path @ CHR ''/'' # k) = split_char CHR ''/'' path @ [k]"
    by (induction path) (auto simp: k split: list.splits)
  then show ?thesis using assms(2) by (simp add: segments_def)
qed

lemma row_page:
  assumes "CHR ''/'' \<notin> set k" and "k \<noteq> []"
  shows "page_at (segments (''/budgets/'' @ k)) = Some ([Is_authenticated], Budget_details_page)"
    and "page_at (segments (''/emails/campaigns/'' @ k)) = Some ([Is_authenticated], Email_list_page)"
proof -
  have "segments ''/budgets'' = [''budgets'']" "segments ''/emails/campaigns'' = [''emails'', ''campaigns'']"
    by code_simp+
  then have s: "segments (''/budgets/'' @ k) = [''budgets'', k]"
    "segments (''/emails/campaigns/'' @ k) = [''emails'', ''campaigns'', k]"
    using segments_append [OF assms, of "''/budgets''"] segments_append [OF assms, of "''/emails/campaigns''"]
    by simp_all
  show "page_at (segments (''/budgets/'' @ k)) = Some ([Is_authenticated], Budget_details_page)"
    "page_at (segments (''/emails/campaigns/'' @ k)) = Some ([Is_authenticated], Email_list_page)"
    unfolding s
    by (simp_all add: page_at_def route_at_def declared_table address_matches_def segment_matches_def
        starts_with_def)
qed

text \<open>
  C8. No page without its guard. The page that an address shows, after a redirection, is shown only
  once the guard before it saw a loaded session that may see it, an administrator's for the users
  and the mailing lists and an active account's for every other page, and then the session is as it
  was; every link that the frame offers an account leads to a page that account may see, and a row
  of the lists of budgets and campaigns leads to its own page.
\<close>
theorem pages_guarded:
  assumes "page_at address = Some (gs, p)" and "run_guards gs states path s = Some (True, s')"
  shows "s' = s \<and> (\<exists>a \<in> set states. \<not> au_loading a \<and> page_required p a) \<and>
    (\<forall>b. \<forall>l \<in> set (links_shown b). \<exists>hs q. page_at (segments (ln_path l)) = Some (hs, q) \<and> page_required q b) \<and>
    (\<forall>row k. member_of ''id'' (Some row) = Some (JStr k) \<longrightarrow> k \<noteq> [] \<longrightarrow> CHR ''/'' \<notin> set k \<longrightarrow>
      map_option snd (page_at (segments (row_route ''/budgets/'' row))) = Some Budget_details_page \<and>
      map_option snd (page_at (segments (row_route ''/emails/campaigns/'' row))) = Some Email_list_page)"
proof -
  let ?g = "if p \<in> {User_list_page, Mailings_page} then Is_administrator else Is_authenticated"
  have "run_guard ?g states path s = Some (True, s')"
    using assms(2) unfolding page_at_guard [OF assms(1)] by (auto split: option.splits bool.splits)
  note guard_admits [OF this]
  moreover have "\<exists>hs q. page_at (segments (ln_path l)) = Some (hs, q) \<and> page_required q b"
    if "l \<in> set (links_shown b)" for b l
    using that page_link_opens by (simp add: links_shown_def)
  moreover have "row_route prefix row = prefix @ k" if "member_of ''id'' (Some row) = Some (JStr k)" for prefix row k
    using that by (simp add: row_route_def js_string_def)
  ultimately show ?thesis using row_page by (auto simp: page_required_def)
qed

definition signed_in :: auth where
  "signed_in = new_auth\<lparr>au_loading := False, au_user := Some admin_user\<rparr>"

theorem pages_guarded_witness:
  "page_at [''emails''] = Some ([Is_authenticated], Campaign_list_page) \<and>
   run_guards [Is_authenticated] [new_auth, signed_in] ''/emails'' signed_in = Some (True, signed_in) \<and>
   (\<exists>a \<in> {new_auth, signed_in}. \<not> au_loading a \<and> page_required Campaign_list_page a)"
proof -
  have p: "page_at [''emails''] = Some ([Is_authenticated], Campaign_list_page)" by code_simp
  have g: "run_guards [Is_authenticated] [new_auth, signed_in] ''/emails'' signed_in = Some (True, signed_in)"
    by (simp add: isAuthenticated_def signed_in_def new_auth_def active_def user_enabled_def nullish_def
        admin_user_def)
  from pages_guarded [OF p g] p g show ?thesis by simp
qed

end
