(* ===== verification/Script_Json.thy ===== *)
theory Script_Json
  imports Js_Values
begin

text \<open>
  JSON inside a script element, as the validation sheet embeds its results
  (\<open>dev/generate-validation-sheet.mjs\<close>): every \<open><\<close> is written as an escape, so that no text of the
  results can end the element, and \<open>JSON.parse\<close> reads the value back.
\<close>

definition escape_less :: "char \<Rightarrow> string" where
  "escape_less c = (if c = CHR ''<'' then CHR 92 # ''u003c'' else [c])"

definition script_text :: "string \<Rightarrow> string" where
  "script_text t = concat (map escape_less t)"

definition script_escape :: "char \<Rightarrow> string" where
  "script_escape c = script_text (escape_char c)"

lemma script_text_simps [simp]:
  "script_text [] = []" "script_text (c # t) = escape_less c @ script_text t"
  "script_text (s @ t) = script_text s @ script_text t"
  by (simp_all add: script_text_def)

lemma script_text_plain: "CHR ''<'' \<notin> set t \<Longrightarrow> script_text t = t"
  by (induction t) (auto simp: escape_less_def)

lemma script_text_no_less: "CHR ''<'' \<notin> set (script_text t)"
  by (induction t) (auto simp: escape_less_def)

lemma hex_digit_no_less: "hex_digit d \<noteq> CHR ''<''"
proof -
  have "\<forall>k < 16. ''0123456789abcdef'' ! k \<noteq> CHR ''<''" by (simp add: numeral_eq_Suc All_less_Suc)
  then show ?thesis by (simp add: hex_digit_def)
qed

interpretation script: json_escape script_escape
proof
  fix c s
  show "parse_chars (script_escape c @ s) = prepend c (parse_chars s)"
  proof (cases "c = CHR ''<''")
    case True
    moreover have "char_of (60 :: nat) = CHR ''<''" by code_simp
    ultimately show ?thesis
      by (simp add: script_escape_def escape_char_def escape_less_def unicode_escape_def)
  next
    case False
    then have "CHR ''<'' \<notin> set (escape_char c)"
      by (auto simp: escape_char_def Let_def hex_digit_no_less [symmetric])
    then show ?thesis by (simp add: script_escape_def script_text_plain parse_chars_escape)
  qed
qed

lemma script_join: "script_text (join_str sep ts) = join_str (script_text sep) (map script_text ts)"
  by (induction sep ts rule: join_str.induct) auto

lemma script_quote: "script_text (quote_str s) = quote_with script_escape s"
proof -
  have "script_text (concat (map escape_char s)) = concat (map script_escape s)"
    by (induction s) (auto simp: script_escape_def)
  then show ?thesis by (simp add: quote_str_def quote_with_def escape_less_def)
qed

lemma script_stringify: "json_ok j \<Longrightarrow> script_text (stringify j) = print_with script_escape [] i j"
proof (induction j arbitrary: i)
  case (JNum v)
  then have "list_all number_char (number_str v)" using number_str_json by simp
  moreover have "\<not> number_char (CHR ''<'')" by (simp add: number_char_def is_digit_def)
  ultimately have "CHR ''<'' \<notin> set (number_str v)" by (metis list_all_iff)
  with JNum show ?case by (simp add: script_text_plain)
next
  case (JArr vs)
  then have "map (script_text \<circ> stringify) vs = map (print_with script_escape [] i) vs"
    by (auto simp: list_all_iff)
  then show ?case by (simp add: script_join escape_less_def newline_def del: map_eq_conv)
next
  case (JObj ms)
  then have "map (script_text \<circ> (\<lambda>(k, v). quote_str k @ '':'' @ stringify v)) ms =
      map (\<lambda>(k, v). quote_with script_escape k @ '':'' @ print_with script_escape [] i v) ms"
    by (intro map_cong refl) (auto simp: list_all_iff snds.simps script_quote escape_less_def)
  then show ?case by (simp add: script_join escape_less_def newline_def del: map_eq_conv)
qed (simp_all add: script_quote escape_less_def)

lemma script_roundtrip:
  assumes "json_ok j" and "reads_back rd j"
  shows "json_parse rd (script_text (stringify j)) = Some j"
  using script.roundtrip [OF assms, of "[]"] script_stringify [OF assms(1), of "[]"] by simp

end
