(* ===== verification/Sheet_Session.thy ===== *)
theory Sheet_Session
  imports Script_Json Sorting_Js
begin

text \<open>
  The script of the validation sheet that \<open>dev/generate-validation-sheet.mjs\<close> writes into its
  page: the controls of every test, the results collected as JSON, the checks on results that are
  read, the counts and filters, the storage of the browser, the exports and the import. A control
  holds the text that HTML lets it hold (no line break in a text field, a valid date, an option of
  a select). The text of \<open>new Date().toISOString()\<close>, \<open>localeCompare\<close>, the reading of a number and the
  message of a syntax error are parameters.
\<close>

subsection \<open>Texts\<close>

text \<open>\<open>labels\<close>, by result.\<close>

definition result_labels :: "(string \<times> string) list" where
  "result_labels =
     [(''todo'', [CHR 0xC0] @ '' faire''), (''pass'', ''Valid'' @ [CHR 0xE9]),
      (''fail'', [CHR 0xC9] @ ''chec''), (''blocked'', ''Bloqu'' @ [CHR 0xE9]),
      (''na'', ''Sans objet'')]"

definition metaIds :: "string list" where
  "metaIds = [''reviewer'', ''session-date'', ''environment'', ''verdict'', ''final-notes'']"

definition verdicts :: "string list" where
  "verdicts = [''Valid'' @ [CHR 0xE9], ''Valid'' @ [CHR 0xE9] @ '' avec r'' @ [CHR 0xE9] @ ''serves'',
     [CHR 0xC0] @ '' corriger'']"

definition not_this_sheet :: string where
  "not_this_sheet = ''Ce fichier ne correspond pas '' @ [CHR 0xE0] @ '' cette version de la fiche.''"

definition invalid_result :: "string \<Rightarrow> string" where
  "invalid_result k = ''R'' @ [CHR 0xE9] @ ''sultats invalides pour le test '' @ k @ ''.''"

definition invalid_meta :: string where
  "invalid_meta = ''Informations de s'' @ [CHR 0xE9] @ ''ance invalides.''"

definition invalid_verdict :: string where
  "invalid_verdict = ''D'' @ [CHR 0xE9] @ ''cision de validation invalide.''"

definition file_too_big :: string where
  "file_too_big = ''Fichier trop volumineux (maximum 2 Mio).''"

datatype notice =
    Notice_none
  | Saved_here
  | No_storage
  | Export_asked
  | Results_imported
  | Import_refused string
  | Embedded_invalid
  | Storage_invalid

subsection \<open>Controls\<close>

definition line_break :: "char \<Rightarrow> bool" where
  "line_break c \<longleftrightarrow> (of_char c :: nat) \<in> {10, 13}"

definition text_control :: "string \<Rightarrow> string" where
  "text_control v = filter (\<lambda>c. \<not> line_break c) v"

definition leap_year :: "nat \<Rightarrow> bool" where
  "leap_year y \<longleftrightarrow> y mod 4 = 0 \<and> (y mod 100 \<noteq> 0 \<or> y mod 400 = 0)"

definition month_days :: "nat \<Rightarrow> nat \<Rightarrow> nat" where
  "month_days y m = (if m = 2 then (if leap_year y then 29 else 28) else if m \<in> {4, 6, 9, 11} then 30 else 31)"

definition valid_date :: "string \<Rightarrow> bool" where
  "valid_date v =
     (case split_char CHR ''-'' v of
        [y, m, d] \<Rightarrow>
          4 \<le> length y \<and> length m = 2 \<and> length d = 2 \<and> list_all is_digit (y @ m @ d) \<and>
          (let yy = digits_value 0 y; mm = digits_value 0 m; dd = digits_value 0 d in
           0 < yy \<and> 1 \<le> mm \<and> mm \<le> 12 \<and> 1 \<le> dd \<and> dd \<le> month_days yy mm)
      | _ \<Rightarrow> False)"

definition date_control :: "string \<Rightarrow> string" where
  "date_control v = (if valid_date v then v else [])"

fun area_control :: "string \<Rightarrow> string" where
  "area_control [] = []"
| "area_control [c] = [if line_break c then CHR 10 else c]"
| "area_control (c # d # s) =
     (if c = CHR 13 then CHR 10 # area_control (if d = CHR 10 then s else d # s)
      else c # area_control (d # s))"

definition select_control :: "string list \<Rightarrow> string \<Rightarrow> string" where
  "select_control options v = (if v \<in> set options then v else [])"

definition status_options :: "string list" where
  "status_options = [''todo'', ''fail'', ''blocked'', ''na'']"

definition meta_control :: "string \<Rightarrow> string \<Rightarrow> string" where
  "meta_control k v =
     (if k = ''session-date'' then date_control v
      else if k = ''verdict'' then select_control ([] # verdicts) v
      else if k = ''final-notes'' then area_control v
      else text_control v)"

subsection \<open>The page\<close>

record test_row =
  tr_id :: string
  tr_search :: string
  tr_check :: bool
  tr_status :: string
  tr_note :: string
  tr_open :: bool
  tr_hidden :: bool
  tr_result :: string
  tr_label :: string
  tr_print :: string

record test_section =
  ts_rows :: "test_row list"
  ts_count :: string
  ts_hidden :: bool

record sheet =
  sh_reference :: string
  sh_sections :: "test_section list"
  sh_meta :: "string \<Rightarrow> string"
  sh_search :: string
  sh_filter :: string
  sh_notice :: notice
  sh_counts :: string
  sh_progress :: nat
  sh_empty_hidden :: bool
  sh_print_verdict :: string
  sh_print_notes :: string
  sh_nav_open :: bool
  sh_print_open :: "bool list list"
  sh_storage :: "string option"
  sh_ready :: bool

definition sheet_rows :: "sheet \<Rightarrow> test_row list" where
  "sheet_rows s = concat (map ts_rows (sh_sections s))"

definition map_rows :: "(test_row \<Rightarrow> test_row) \<Rightarrow> sheet \<Rightarrow> sheet" where
  "map_rows f s = s\<lparr>sh_sections := map (\<lambda>x. x\<lparr>ts_rows := map f (ts_rows x)\<rparr>) (sh_sections s)\<rparr>"

definition update_row :: "string \<Rightarrow> (test_row \<Rightarrow> test_row) \<Rightarrow> sheet \<Rightarrow> sheet" where
  "update_row k f = map_rows (\<lambda>r. if tr_id r = k then f r else r)"

definition row_ids :: "sheet \<Rightarrow> string list" where
  "row_ids s = map tr_id (sheet_rows s)"

definition row_result :: "test_row \<Rightarrow> string" where
  "row_result r = (if tr_check r then ''pass'' else tr_status r)"

subsection \<open>Results as JSON\<close>

definition json_one :: js_number where
  "json_one = Dec False 1 1"

definition row_json :: "test_row \<Rightarrow> string \<times> json" where
  "row_json r = (tr_id r, JObj [(''result'', JStr (row_result r)), (''note'', JStr (tr_note r))])"

definition collect_results :: "string \<Rightarrow> sheet \<Rightarrow> json" where
  "collect_results now s = JObj
     [(''schema'', JNum json_one), (''project'', JStr ''asl-bissieux''),
      (''reference'', JStr (sh_reference s)), (''updatedAt'', JStr now),
      (''meta'', JObj (obj_of (map (\<lambda>k. (k, JStr (sh_meta s k))) metaIds))),
      (''tests'', JObj (obj_of (map row_json (sheet_rows s))))]"

abbreviation field :: "string \<Rightarrow> json \<Rightarrow> json option" where
  "field k j \<equiv> member_of k (Some j)"

fun is_object :: "json option \<Rightarrow> bool" where
  "is_object (Some (JObj _)) = True"
| "is_object (Some (JArr _)) = True"
| "is_object (Some JNull) = True"
| "is_object _ = False"

fun is_array :: "json option \<Rightarrow> bool" where
  "is_array (Some (JArr _)) = True"
| "is_array _ = False"

fun short_text :: "json option \<Rightarrow> bool" where
  "short_text (Some (JStr v)) = (length v \<le> 20000)"
| "short_text _ = False"

text \<open>The checks of \<open>validate\<close>, in its order.\<close>

definition same_sheet :: "string \<Rightarrow> json \<Rightarrow> bool" where
  "same_sheet reference state \<longleftrightarrow>
     truthy (Some state) \<and> strict_equal (field ''schema'' state) (Some (JNum json_one)) \<and>
     strict_equal (field ''project'' state) (Some (JStr ''asl-bissieux'')) \<and>
     strict_equal (field ''reference'' state) (Some (JStr reference)) \<and>
     truthy (field ''tests'' state) \<and> is_object (field ''tests'' state) \<and>
     \<not> is_array (field ''tests'' state) \<and>
     truthy (field ''meta'' state) \<and> is_object (field ''meta'' state)"

fun own_entries :: "json option \<Rightarrow> (string \<times> json) list" where
  "own_entries (Some (JObj ms)) = ms"
| "own_entries _ = []"

definition valid_entry :: "string list \<Rightarrow> string \<times> json \<Rightarrow> bool" where
  "valid_entry ids e =
     (case e of (k, v) \<Rightarrow>
        k \<in> set ids \<and> truthy (Some v) \<and>
        js_string (field ''result'' v) \<in> fst ` set result_labels \<and> short_text (field ''note'' v))"

definition valid_meta :: "json option \<Rightarrow> string \<Rightarrow> bool" where
  "valid_meta m k = (case member_of k m of None \<Rightarrow> True | v \<Rightarrow> short_text v)"

definition valid_verdict :: "json option \<Rightarrow> bool" where
  "valid_verdict m \<longleftrightarrow>
     \<not> truthy (member_of ''verdict'' m) \<or>
     list_ex (\<lambda>v. strict_equal (member_of ''verdict'' m) (Some (JStr v))) verdicts"

definition validate :: "string \<Rightarrow> string list \<Rightarrow> json \<Rightarrow> string + json" where
  "validate reference ids state =
     (if \<not> same_sheet reference state then Inl not_this_sheet
      else case List.find (\<lambda>e. \<not> valid_entry ids e) (own_entries (field ''tests'' state)) of
        Some (k, v) \<Rightarrow> Inl (invalid_result k)
      | None \<Rightarrow>
          if \<not> list_all (valid_meta (field ''meta'' state)) metaIds then Inl invalid_meta
          else if \<not> valid_verdict (field ''meta'' state) then Inl invalid_verdict
          else Inr state)"

definition validate_for :: "sheet \<Rightarrow> json \<Rightarrow> string + json" where
  "validate_for s = validate (sh_reference s) (row_ids s)"

subsection \<open>Counts and filters\<close>

definition result_count :: "string \<Rightarrow> test_row list \<Rightarrow> nat" where
  "result_count k rows = length (filter (\<lambda>r. row_result r = k) rows)"

definition label_of :: "string \<Rightarrow> string" where
  "label_of k = (case map_of result_labels k of None \<Rightarrow> [] | Some l \<Rightarrow> l)"

definition refresh_row :: "test_row \<Rightarrow> test_row" where
  "refresh_row r =
     r\<lparr>tr_result := row_result r, tr_label := label_of (row_result r), tr_print := tr_note r\<rparr>"

definition counts_text :: "test_row list \<Rightarrow> string" where
  "counts_text rows =
     (let n = (\<lambda>k. nat_str (result_count k rows)); sep = '' '' @ [CHR 0xB7] @ '' '' in
      n ''pass'' @ '' valid'' @ [CHR 0xE9] @ ''(s) sur '' @ nat_str (length rows) @ sep @
      n ''todo'' @ '' '' @ [CHR 0xE0] @ '' faire'' @ sep @
      n ''fail'' @ '' '' @ [CHR 0xE9] @ ''chec(s)'' @ sep @
      n ''blocked'' @ '' bloqu'' @ [CHR 0xE9] @ ''(s)'' @ sep @
      n ''na'' @ '' sans objet'')"

definition section_text :: "test_row list \<Rightarrow> string" where
  "section_text rows =
     nat_str (result_count ''pass'' rows) @ '' / '' @ nat_str (length rows) @ '' valid'' @
     [CHR 0xE9] @ ''(s)''"

definition row_excluded :: "string \<Rightarrow> string \<Rightarrow> test_row \<Rightarrow> bool" where
  "row_excluded query selection r \<longleftrightarrow>
     selection \<noteq> ''all'' \<and> row_result r \<noteq> selection \<or>
     query \<noteq> [] \<and> \<not> str_includes (js_lower (tr_search r)) query"

definition sheet_filter :: "sheet \<Rightarrow> sheet" where
  "sheet_filter s =
     (let query = js_trim (js_lower (sh_search s));
          s1 = map_rows (\<lambda>r. r\<lparr>tr_hidden := row_excluded query (sh_filter s) r\<rparr>) s;
          shown = (\<lambda>rows. list_ex (\<lambda>r. \<not> tr_hidden r) rows) in
      s1\<lparr>sh_sections := map (\<lambda>x. x\<lparr>ts_hidden := \<not> shown (ts_rows x)\<rparr>) (sh_sections s1),
         sh_empty_hidden := shown (sheet_rows s1)\<rparr>)"

definition sheet_update :: "sheet \<Rightarrow> sheet" where
  "sheet_update s =
     (let s1 = map_rows refresh_row s in
      sheet_filter
        (s1\<lparr>sh_counts := counts_text (sheet_rows s1),
            sh_progress := result_count ''pass'' (sheet_rows s1),
            sh_sections := map (\<lambda>x. x\<lparr>ts_count := section_text (ts_rows x)\<rparr>) (sh_sections s1),
            sh_print_verdict :=
              (if sh_meta s1 ''verdict'' = [] then ''Non prononc'' @ [CHR 0xE9] @ ''e''
               else sh_meta s1 ''verdict''),
            sh_print_notes := sh_meta s1 ''final-notes''\<rparr>))"

subsection \<open>Results applied to the page\<close>

text \<open>\<open>state.meta[id] || ''\<close>; the field of another type than text was refused before.\<close>

fun text_or_empty :: "json option \<Rightarrow> string" where
  "text_or_empty (Some (JStr v)) = v"
| "text_or_empty _ = []"

definition test_value :: "json \<Rightarrow> string \<Rightarrow> json" where
  "test_value state k =
     (case field k (case field ''tests'' state of None \<Rightarrow> JNull | Some t \<Rightarrow> t) of
        Some v \<Rightarrow> if truthy (Some v) then v
          else JObj [(''result'', JStr ''todo''), (''note'', JStr [])]
      | None \<Rightarrow> JObj [(''result'', JStr ''todo''), (''note'', JStr [])])"

definition is_text :: "json option \<Rightarrow> string \<Rightarrow> bool" where
  "is_text v t = strict_equal v (Some (JStr t))"

definition apply_row :: "json \<Rightarrow> test_row \<Rightarrow> test_row" where
  "apply_row state r =
     (let value = test_value state (tr_id r); res = field ''result'' value; note = field ''note'' value in
      r\<lparr>tr_check := is_text res ''pass'',
        tr_status := select_control status_options (if is_text res ''pass'' then ''todo'' else js_string res),
        tr_note := area_control (js_string note),
        tr_open := tr_open r \<or> truthy note \<or> list_ex (is_text res) [''fail'', ''blocked'', ''na'']\<rparr>)"

definition put_meta :: "json \<Rightarrow> sheet \<Rightarrow> sheet" where
  "put_meta state s =
     fold (\<lambda>k t. t\<lparr>sh_meta := (sh_meta t)(k := meta_control k (text_or_empty (member_of k (field ''meta'' state))))\<rparr>)
       metaIds s"

definition sheet_apply :: "json \<Rightarrow> sheet \<Rightarrow> string + sheet" where
  "sheet_apply state s =
     (case validate_for s state of
        Inl e \<Rightarrow> Inl e
      | Inr v \<Rightarrow> Inr (sheet_update (map_rows (apply_row v) (put_meta v s))))"

subsection \<open>The storage of the browser\<close>

text \<open>\<open>save\<close>: \<open>room\<close> says whether the browser stores the item.\<close>

definition sheet_save :: "string \<Rightarrow> bool \<Rightarrow> sheet \<Rightarrow> sheet" where
  "sheet_save now room s =
     (let s1 = sheet_update s in
      if room then s1\<lparr>sh_storage := Some (stringify (collect_results now s1)), sh_notice := Saved_here\<rparr>
      else s1\<lparr>sh_notice := No_storage\<rparr>)"

text \<open>
  The start of the page: the results embedded in an exported page, if they carry a schema, and the
  stored ones; the most recent is applied. Each candidate that cannot be read leaves a notice.
\<close>

definition embedded_candidate :: "(string \<Rightarrow> js_number) \<Rightarrow> string \<Rightarrow> sheet \<Rightarrow> json option option" where
  "embedded_candidate rd text s =
     (case json_parse rd text of
        None \<Rightarrow> None
      | Some JNull \<Rightarrow> None
      | Some saved \<Rightarrow>
          if \<not> truthy (field ''schema'' saved) then Some None
          else (case validate_for s saved of Inl e \<Rightarrow> None | Inr v \<Rightarrow> Some (Some v)))"

text \<open>The argument is \<open>None\<close> when the browser refuses the access to its storage.\<close>

definition stored_candidate ::
  "(string \<Rightarrow> js_number) \<Rightarrow> string option option \<Rightarrow> sheet \<Rightarrow> json option option" where
  "stored_candidate rd stored s =
     (case stored of
        None \<Rightarrow> None
      | Some None \<Rightarrow> Some None
      | Some (Some []) \<Rightarrow> Some None
      | Some (Some text) \<Rightarrow>
          (case json_parse rd text of
             None \<Rightarrow> None
           | Some saved \<Rightarrow>
               (case validate_for s saved of Inl e \<Rightarrow> None | Inr v \<Rightarrow> Some (Some v))))"

definition candidate_date :: "json \<Rightarrow> string" where
  "candidate_date j = (let d = field ''updatedAt'' j in if truthy d then js_string d else [])"

definition candidates_of :: "json option option list \<Rightarrow> json list" where
  "candidates_of xs = List.map_filter (\<lambda>x. Option.bind x id) xs"

definition start_notices :: "bool \<Rightarrow> bool \<Rightarrow> sheet \<Rightarrow> sheet" where
  "start_notices a b s =
     (let s1 = (if a then s else s\<lparr>sh_notice := Embedded_invalid\<rparr>) in
      if b then s1 else s1\<lparr>sh_notice := Storage_invalid\<rparr>)"

definition sheet_start ::
  "(string \<Rightarrow> string \<Rightarrow> int) \<Rightarrow> (string \<Rightarrow> js_number) \<Rightarrow> string \<Rightarrow> string option option \<Rightarrow> sheet \<Rightarrow> string + sheet" where
  "sheet_start cmp rd embedded stored s =
     (let a = embedded_candidate rd embedded s; b = stored_candidate rd stored s;
          s1 = start_notices (a \<noteq> None) (b \<noteq> None) s;
          sorted = js_sort (\<lambda>x y. cmp (candidate_date y) (candidate_date x)) (candidates_of [a, b]) in
      map_sum id (\<lambda>t. t\<lparr>sh_ready := True\<rparr>)
        (case sorted of [] \<Rightarrow> Inr (sheet_update s1) | state # _ \<Rightarrow> sheet_apply state s1))"

subsection \<open>Events\<close>

text \<open>A box that is ticked takes its test back to no other result; a result chosen unticks it.\<close>

definition check_changed :: "string \<Rightarrow> bool \<Rightarrow> sheet \<Rightarrow> sheet" where
  "check_changed k b =
     update_row k (\<lambda>r. r\<lparr>tr_check := b, tr_status := (if b then ''todo'' else tr_status r)\<rparr>)"

definition status_changed :: "string \<Rightarrow> string \<Rightarrow> sheet \<Rightarrow> sheet" where
  "status_changed k v =
     update_row k (\<lambda>r. r\<lparr>tr_status := select_control status_options v, tr_check := False\<rparr>)"

definition note_typed :: "string \<Rightarrow> string \<Rightarrow> sheet \<Rightarrow> sheet" where
  "note_typed k v = update_row k (\<lambda>r. r\<lparr>tr_note := area_control v\<rparr>)"

definition meta_typed :: "string \<Rightarrow> string \<Rightarrow> sheet \<Rightarrow> sheet" where
  "meta_typed k v s = (if k \<in> set metaIds then s\<lparr>sh_meta := (sh_meta s)(k := meta_control k v)\<rparr> else s)"

definition sheet_search_typed :: "string \<Rightarrow> sheet \<Rightarrow> sheet" where
  "sheet_search_typed v s = sheet_filter (s\<lparr>sh_search := text_control v\<rparr>)"

definition filter_options :: "string list" where
  "filter_options = [''all'', ''todo'', ''pass'', ''fail'', ''blocked'', ''na'']"

definition filter_changed :: "string \<Rightarrow> sheet \<Rightarrow> sheet" where
  "filter_changed v s = sheet_filter (s\<lparr>sh_filter := select_control filter_options v\<rparr>)"

record download =
  dl_content :: string
  dl_type :: string
  dl_name :: string

definition export_json :: "string \<Rightarrow> sheet \<Rightarrow> download \<times> sheet" where
  "export_json now s =
     (\<lparr>dl_content = stringify2 (collect_results now s), dl_type = ''application/json'',
       dl_name = ''asl-bissieux-resultats-'' @ sh_reference s @ ''.json''\<rparr>,
      s\<lparr>sh_notice := Export_asked\<rparr>)"

definition embedded_text :: "string \<Rightarrow> sheet \<Rightarrow> string" where
  "embedded_text now s = script_text (stringify (collect_results now s))"

text \<open>
  The copy of the page that is exported: every control as it is, nothing hidden, no search and no
  filter.
\<close>

definition exported_page :: "sheet \<Rightarrow> sheet" where
  "exported_page s =
     (let s1 = map_rows (\<lambda>r. r\<lparr>tr_hidden := False\<rparr>) s in
      s1\<lparr>sh_sections := map (\<lambda>x. x\<lparr>ts_hidden := False\<rparr>) (sh_sections s1), sh_search := [],
         sh_filter := ''all'', sh_empty_hidden := True\<rparr>)"

definition export_html :: "string \<Rightarrow> sheet \<Rightarrow> (string \<times> sheet) \<times> sheet" where
  "export_html now s = ((embedded_text now s, exported_page s), s\<lparr>sh_notice := Export_asked\<rparr>)"

text \<open>The import: the size and the text of the file, the answer to the question, the room to store.\<close>

definition import_file ::
  "(string \<Rightarrow> js_number) \<Rightarrow> (string \<Rightarrow> string) \<Rightarrow> string \<Rightarrow> nat \<Rightarrow> string \<Rightarrow> bool \<Rightarrow> bool \<Rightarrow> sheet \<Rightarrow> sheet" where
  "import_file rd syntax_message now bytes text confirmed room s =
     (if 2 * 1024 * 1024 < bytes then s\<lparr>sh_notice := Import_refused file_too_big\<rparr>
      else case json_parse rd text of
        None \<Rightarrow> s\<lparr>sh_notice := Import_refused (syntax_message text)\<rparr>
      | Some j \<Rightarrow>
          (case validate_for s j of
             Inl e \<Rightarrow> s\<lparr>sh_notice := Import_refused e\<rparr>
           | Inr state \<Rightarrow>
               if \<not> confirmed then s
               else (case sheet_apply state s of
                 Inl e \<Rightarrow> s\<lparr>sh_notice := Import_refused e\<rparr>
               | Inr t \<Rightarrow> (sheet_save now room t)\<lparr>sh_notice := Results_imported\<rparr>)))"

definition empty_results :: "sheet \<Rightarrow> json" where
  "empty_results s = JObj
     [(''schema'', JNum json_one), (''project'', JStr ''asl-bissieux''),
      (''reference'', JStr (sh_reference s)), (''meta'', JObj []), (''tests'', JObj [])]"

definition reset :: "string \<Rightarrow> bool \<Rightarrow> bool \<Rightarrow> sheet \<Rightarrow> string + sheet" where
  "reset now confirmed room s =
     (if \<not> confirmed then Inr s
      else map_sum id (sheet_save now room) (sheet_apply (empty_results s) s))"

text \<open>Printing opens every detail and closes again those that were closed.\<close>

definition details_open :: "sheet \<Rightarrow> bool list" where
  "details_open s = sh_nav_open s # map tr_open (sheet_rows s)"

fun open_rows :: "bool list \<Rightarrow> test_row list \<Rightarrow> test_row list" where
  "open_rows (b # bs) (r # rs) = r\<lparr>tr_open := b\<rparr> # open_rows bs rs"
| "open_rows _ rs = rs"

fun open_sections :: "bool list \<Rightarrow> test_section list \<Rightarrow> test_section list" where
  "open_sections bs [] = []"
| "open_sections bs (x # xs) =
     x\<lparr>ts_rows := open_rows bs (ts_rows x)\<rparr> # open_sections (drop (length (ts_rows x)) bs) xs"

definition set_details :: "bool list \<Rightarrow> sheet \<Rightarrow> sheet" where
  "set_details bs s =
     (case bs of [] \<Rightarrow> s
      | b # rest \<Rightarrow> s\<lparr>sh_nav_open := b, sh_sections := open_sections rest (sh_sections s)\<rparr>)"

definition before_print :: "sheet \<Rightarrow> sheet" where
  "before_print s =
     (let s1 = sheet_update s in
      set_details (map (\<lambda>_. True) (details_open s1))
        (s1\<lparr>sh_print_open := sh_print_open s1 @ [details_open s1]\<rparr>))"

definition after_print :: "sheet \<Rightarrow> sheet" where
  "after_print s = fold set_details (sh_print_open s) (s\<lparr>sh_print_open := []\<rparr>)"

subsection \<open>What the controls hold\<close>

text \<open>
  The data of the page: what its controls hold, without what is displayed about them. The results
  that are collected depend on nothing else.
\<close>

definition row_data :: "test_row \<Rightarrow> string \<times> bool \<times> string \<times> string" where
  "row_data r = (tr_id r, tr_check r, tr_status r, tr_note r)"

definition page_data ::
  "sheet \<Rightarrow> string \<times> string list \<times> (string \<times> bool \<times> string \<times> string) list" where
  "page_data s = (sh_reference s, map (sh_meta s) metaIds, map row_data (sheet_rows s))"

lemma sheet_rows_update [simp]:
  "sheet_rows (map_rows f s) = map f (sheet_rows s)"
  "sh_reference (map_rows f s) = sh_reference s"
  "sh_meta (map_rows f s) = sh_meta s"
  by (simp_all add: map_rows_def sheet_rows_def map_concat comp_def)

lemma sheet_rows_sections [simp]:
  "(\<And>x. ts_rows (f x) = ts_rows x) \<Longrightarrow> sheet_rows (s\<lparr>sh_sections := map f (sh_sections s)\<rparr>) = sheet_rows s"
  by (simp add: sheet_rows_def comp_def)

lemma row_ids_data: "page_data s = page_data t \<Longrightarrow> row_ids s = row_ids t"
proof -
  have "row_ids u = map fst (snd (snd (page_data u)))" for u
    by (simp add: row_ids_def page_data_def row_data_def comp_def)
  then show "page_data s = page_data t \<Longrightarrow> row_ids s = row_ids t" by simp
qed

lemma row_json_data: "row_data q = row_data r \<Longrightarrow> row_json q = row_json r"
  by (simp add: row_data_def row_json_def row_result_def)

lemma collect_data:
  assumes "page_data s = page_data t"
  shows "collect_results now s = collect_results now t"
proof -
  have "list_all2 (\<lambda>q r. row_data q = row_data r) (sheet_rows s) (sheet_rows t)"
    using assms by (auto simp: page_data_def list_all2_map1 list_all2_map2
        intro: list_all2_eq [THEN iffD1, THEN list_all2_mono]
        simp: list_all2_conv_all_nth map_equality_iff)
  then have "map row_json (sheet_rows s) = map row_json (sheet_rows t)"
    by (induction rule: list_all2_induct) (auto dest: row_json_data)
  with assms show ?thesis by (simp add: collect_results_def page_data_def metaIds_def)
qed

lemma sheet_filter_data [simp]: "page_data (sheet_filter s) = page_data s"
proof -
  have "sheet_rows (sheet_filter s) =
      map (\<lambda>r. r\<lparr>tr_hidden := row_excluded (js_trim (js_lower (sh_search s))) (sh_filter s) r\<rparr>) (sheet_rows s)"
    by (simp add: sheet_filter_def Let_def map_rows_def sheet_rows_def map_concat comp_def)
  then show ?thesis
    by (simp add: page_data_def row_data_def comp_def)
      (simp add: sheet_filter_def Let_def map_rows_def)
qed

lemma sheet_update_data [simp]: "page_data (sheet_update s) = page_data s"
proof -
  have "page_data (u\<lparr>sh_counts := a, sh_progress := b,
      sh_sections := map (\<lambda>x. x\<lparr>ts_count := section_text (ts_rows x)\<rparr>) (sh_sections u),
      sh_print_verdict := c, sh_print_notes := d\<rparr>) = page_data u" for u a b c d
    by (simp add: page_data_def sheet_rows_def comp_def)
  then show ?thesis
    by (simp add: sheet_update_def Let_def)
      (simp add: page_data_def refresh_row_def row_data_def comp_def)
qed

lemma page_data_notice [simp]:
  "page_data (s\<lparr>sh_notice := n\<rparr>) = page_data s"
  "page_data (s\<lparr>sh_storage := v\<rparr>) = page_data s"
  "page_data (s\<lparr>sh_ready := b\<rparr>) = page_data s"
  "page_data (s\<lparr>sh_search := w\<rparr>) = page_data s"
  "page_data (s\<lparr>sh_filter := w\<rparr>) = page_data s"
  "page_data (s\<lparr>sh_print_open := p\<rparr>) = page_data s"
  by (simp_all add: page_data_def sheet_rows_def)

lemma sheet_save_data [simp]: "page_data (sheet_save now room s) = page_data s"
  by (simp add: sheet_save_def Let_def)

subsection \<open>Controls keep what they hold\<close>

lemma area_control_clean: "CHR 13 \<notin> set (area_control v)"
  by (induction v rule: area_control.induct) (auto simp: line_break_def)

lemma line_break_iff: "line_break c \<longleftrightarrow> c = CHR 10 \<or> c = CHR 13"
  using of_char_eq_iff [of c "CHR 10", where 'a = nat] of_char_eq_iff [of c "CHR 13", where 'a = nat]
  by (simp add: line_break_def)

lemma area_control_id: "CHR 13 \<notin> set v \<Longrightarrow> area_control v = v"
  by (induction v rule: area_control.induct) (auto simp: line_break_iff)

lemma area_control_idem [simp]: "area_control (area_control v) = area_control v"
  by (simp add: area_control_id area_control_clean)

lemma meta_control_idem [simp]: "meta_control k (meta_control k v) = meta_control k v"
  by (simp add: meta_control_def date_control_def select_control_def text_control_def)

definition row_ok :: "test_row \<Rightarrow> bool" where
  "row_ok r \<longleftrightarrow> tr_status r \<in> set status_options \<and> (tr_check r \<longrightarrow> tr_status r = ''todo'') \<and>
     area_control (tr_note r) = tr_note r"

text \<open>A page as its handlers keep it: what a control holds is what it would hold if set again.\<close>

definition sheet_ok :: "sheet \<Rightarrow> bool" where
  "sheet_ok s \<longleftrightarrow>
     distinct (row_ids s) \<and> (\<forall>k \<in> set (row_ids s). \<not> is_index k) \<and>
     (\<forall>r \<in> set (sheet_rows s). row_ok r) \<and>
     (\<forall>k \<in> set metaIds. meta_control k (sh_meta s k) = sh_meta s k)"

definition within_limits :: "sheet \<Rightarrow> bool" where
  "within_limits s \<longleftrightarrow>
     (\<forall>r \<in> set (sheet_rows s). length (tr_note r) \<le> 20000) \<and>
     (\<forall>k \<in> set metaIds. length (sh_meta s k) \<le> 20000)"

subsection \<open>Results are read back\<close>

lemma collect_fields:
  "field ''schema'' (collect_results now s) = Some (JNum json_one)"
  "field ''project'' (collect_results now s) = Some (JStr ''asl-bissieux'')"
  "field ''reference'' (collect_results now s) = Some (JStr (sh_reference s))"
  "field ''updatedAt'' (collect_results now s) = Some (JStr now)"
  "field ''meta'' (collect_results now s) = Some (JObj (obj_of (map (\<lambda>k. (k, JStr (sh_meta s k))) metaIds)))"
  "field ''tests'' (collect_results now s) = Some (JObj (obj_of (map row_json (sheet_rows s))))"
  by (simp_all add: collect_results_def member_of_simps)

lemma collect_objects:
  "obj_of (map (\<lambda>k. (k, JStr (sh_meta s k))) metaIds) = map (\<lambda>k. (k, JStr (sh_meta s k))) metaIds"
  "sheet_ok s \<Longrightarrow> obj_of (map row_json (sheet_rows s)) = map row_json (sheet_rows s)"
  by (auto intro!: obj_of_id simp: metaIds_def is_index_def is_digit_def sheet_ok_def row_ids_def row_json_def comp_def)

lemmas collect_simps = collect_fields [unfolded collect_objects(1)] collect_objects(2)

lemma row_json_valid:
  assumes "row_ok r" and "length (tr_note r) \<le> 20000" and "tr_id r \<in> set ids"
  shows "valid_entry ids (row_json r)"
  using assms
  by (auto simp: valid_entry_def row_json_def row_ok_def row_result_def status_options_def
      result_labels_def member_of_simps js_string_def)

lemma collect_valid:
  assumes "sheet_ok s" "within_limits s" and t: "sh_reference t = sh_reference s" "row_ids t = row_ids s"
  shows "validate_for t (collect_results now s) = Inr (collect_results now s)"
proof -
  let ?j = "collect_results now s"
  have "List.find (\<lambda>e. \<not> valid_entry (row_ids s) e) (map row_json (sheet_rows s)) = None"
    using assms by (auto simp: find_None_iff sheet_ok_def within_limits_def row_ids_def row_json_valid)
  moreover have "same_sheet (sh_reference s) ?j"
    by (simp add: same_sheet_def collect_simps json_one_def) (simp add: collect_results_def)
  moreover have "list_all (valid_meta (field ''meta'' ?j)) metaIds"
    using assms(2)
    by (simp add: collect_simps within_limits_def metaIds_def valid_meta_def member_of_simps)
  moreover have "valid_verdict (field ''meta'' ?j)"
  proof -
    have "sh_meta s ''verdict'' \<in> set ([] # verdicts)"
      using assms(1) by (force simp: sheet_ok_def metaIds_def meta_control_def select_control_def split: if_splits)
    then show ?thesis
      by (auto simp: valid_verdict_def collect_simps metaIds_def member_of_simps list_ex_iff)
  qed
  ultimately show ?thesis
    using assms(1) t by (simp add: validate_for_def validate_def collect_simps)
qed

lemma apply_row_collect:
  assumes ok: "sheet_ok s" and r: "r \<in> set (sheet_rows s)" and id: "tr_id q = tr_id r"
  shows "row_data (apply_row (collect_results now s) q) = row_data r"
proof -
  have "map_of (map row_json (sheet_rows s)) (tr_id r) = Some (snd (row_json r))"
  proof (rule map_of_is_SomeI)
    show "distinct (map fst (map row_json (sheet_rows s)))"
      using ok by (simp add: sheet_ok_def row_ids_def row_json_def comp_def)
    show "(tr_id r, snd (row_json r)) \<in> set (map row_json (sheet_rows s))"
      using r by (auto simp: row_json_def intro!: rev_image_eqI)
  qed
  then have v: "test_value (collect_results now s) (tr_id r) = snd (row_json r)"
    using ok by (simp add: test_value_def collect_simps member_of_simps row_json_def)
  have "row_ok r" using ok r by (simp add: sheet_ok_def)
  with id show ?thesis
    by (auto simp: apply_row_def Let_def v row_json_def row_data_def row_ok_def row_result_def member_of_simps
        js_string_def is_text_def select_control_def status_options_def)
qed

lemma put_meta_fields [simp]:
  "sheet_rows (put_meta j s) = sheet_rows s" "sh_reference (put_meta j s) = sh_reference s"
  by (simp_all add: put_meta_def metaIds_def sheet_rows_def)

lemma put_meta_value:
  "k \<in> set metaIds \<Longrightarrow>
     sh_meta (put_meta j s) k = meta_control k (text_or_empty (member_of k (field ''meta'' j)))"
  by (auto simp: put_meta_def metaIds_def)

lemma put_meta_collect:
  assumes "sheet_ok s" and k: "k \<in> set metaIds"
  shows "sh_meta (put_meta (collect_results now s) t) k = sh_meta s k"
proof -
  have "member_of k (field ''meta'' (collect_results now s)) = Some (JStr (sh_meta s k))"
    using k by (auto simp: collect_simps metaIds_def member_of_simps)
  with assms show ?thesis by (simp add: put_meta_value sheet_ok_def)
qed

lemma apply_collect:
  assumes s: "sheet_ok s" "within_limits s"
    and t: "sh_reference t = sh_reference s" "row_ids t = row_ids s"
  obtains t' where "sheet_apply (collect_results now s) t = Inr t'" "page_data t' = page_data s"
proof
  let ?j = "collect_results now s" and ?u = "map_rows (apply_row (collect_results now s)) (put_meta (collect_results now s) t)"
  show "sheet_apply ?j t = Inr (sheet_update ?u)"
    by (simp add: sheet_apply_def collect_valid [OF s t])
  have "map row_data (map (apply_row ?j) (sheet_rows t)) = map row_data (sheet_rows s)"
  proof (rule nth_equalityI)
    have l: "length (sheet_rows t) = length (sheet_rows s)"
      using t(2) by (metis length_map row_ids_def)
    then show "length (map row_data (map (apply_row ?j) (sheet_rows t))) = length (map row_data (sheet_rows s))"
      by simp
    fix i assume "i < length (map row_data (map (apply_row ?j) (sheet_rows t)))"
    then have i: "i < length (sheet_rows t)" by simp
    have "tr_id (sheet_rows t ! i) = tr_id (sheet_rows s ! i)"
      using t(2) i l by (metis nth_map row_ids_def)
    with i l show "map row_data (map (apply_row ?j) (sheet_rows t)) ! i = map row_data (sheet_rows s) ! i"
      using apply_row_collect [OF s(1) nth_mem] by simp
  qed
  with t s have "page_data ?u = page_data s"
    by (simp add: page_data_def put_meta_collect cong: map_cong)
  then show "page_data (sheet_update ?u) = page_data s" by simp
qed

lemma collect_json_ok:
  assumes "sheet_ok s"
  shows "json_ok (collect_results now s)"
proof -
  have "obj_of [(''schema'', a), (''project'', b), (''reference'', c), (''updatedAt'', d), (''meta'', e), (''tests'', f)] =
     [(''schema'', a), (''project'', b), (''reference'', c), (''updatedAt'', d), (''meta'', e), (''tests'', f)]"
    for a b c d e f :: json
    by (rule obj_of_id) (auto simp: is_index_def is_digit_def)
  moreover have "json_ok (snd (row_json r))" for r
    by (simp add: row_json_def) (rule obj_of_id, auto simp: is_index_def is_digit_def)
  ultimately show ?thesis
    using assms by (simp add: collect_results_def collect_objects json_one_def list_all_iff case_prod_unfold
        obj_of_keys comp_def)
qed

lemma parse_collected:
  assumes "sheet_ok s" and "rd ''1'' = json_one"
  shows "json_parse rd (stringify (collect_results now s)) = Some (collect_results now s)"
    and "json_parse rd (stringify2 (collect_results now s)) = Some (collect_results now s)"
    and "json_parse rd (embedded_text now s) = Some (collect_results now s)"
proof -
  have "concat (map (json_numbers \<circ> snd) (map row_json (sheet_rows s))) = []"
    by (simp add: row_json_def comp_def)
  then have "json_numbers (collect_results now s) = [json_one]"
    using assms(1)
    by (simp add: collect_results_def collect_objects case_prod_unfold comp_def)
  moreover have "number_str json_one = ''1''" by code_simp
  ultimately have "reads_back rd (collect_results now s)" using assms(2) by (simp add: reads_back_def)
  with collect_json_ok [OF assms(1)] json_roundtrip script_roundtrip
  show "json_parse rd (stringify (collect_results now s)) = Some (collect_results now s)"
    and "json_parse rd (stringify2 (collect_results now s)) = Some (collect_results now s)"
    and "json_parse rd (embedded_text now s) = Some (collect_results now s)"
    by (auto simp: embedded_text_def)
qed

lemma validate_forD: "validate_for s j = Inr v \<Longrightarrow> v = j"
  by (auto simp: validate_for_def validate_def split: if_splits option.splits)

lemma validate_for_cong:
  "sh_reference s = sh_reference t \<Longrightarrow> row_ids s = row_ids t \<Longrightarrow> validate_for s j = validate_for t j"
  by (simp add: validate_for_def)

lemma row_ids_notice [simp]: "row_ids (s\<lparr>sh_notice := n\<rparr>) = row_ids s"
  by (simp add: row_ids_def sheet_rows_def)

lemma candidate_valid:
  "embedded_candidate rd text s = Some (Some j) \<Longrightarrow> validate_for s j = Inr j"
  "stored_candidate rd stored s = Some (Some j) \<Longrightarrow> validate_for s j = Inr j"
  by (auto simp: embedded_candidate_def stored_candidate_def dest: validate_forD
      split: option.splits json.splits if_splits sum.splits list.splits)

lemma start_notices_fields [simp]:
  "sh_reference (start_notices a b s) = sh_reference s"
  "row_ids (start_notices a b s) = row_ids s"
  "page_data (start_notices a b s) = page_data s"
  by (simp_all add: start_notices_def Let_def)

text \<open>The start never stops half-way: what it applies was checked.\<close>

lemma start_cases:
  obtains t u where "sheet_start cmp rd text stored s = Inr (t\<lparr>sh_ready := True\<rparr>)"
    and "page_data u = page_data s"
    and "t = sheet_update u \<or> (\<exists>j. t = sheet_update (map_rows (apply_row j) (put_meta j u)))"
proof -
  let ?a = "embedded_candidate rd text s" and ?b = "stored_candidate rd stored s"
  let ?u = "start_notices (?a \<noteq> None) (?b \<noteq> None) s"
  let ?js = "js_sort (\<lambda>x y. cmp (candidate_date y) (candidate_date x)) (candidates_of [?a, ?b])"
  show thesis
  proof (cases ?js)
    case Nil
    show thesis
      by (rule that [of "sheet_update ?u" ?u]) (use Nil in \<open>simp_all add: sheet_start_def Let_def\<close>)
  next
    case (Cons j js)
    then have "j \<in> set (candidates_of [?a, ?b])" by (metis list.set_intros(1) set_js_sort)
    then have "validate_for s j = Inr j"
      by (auto simp: candidates_of_def map_filter_simps bind_eq_Some_conv candidate_valid split: option.splits)
    then have "validate_for ?u j = Inr j" by (simp add: validate_for_def)
    then have "sheet_start cmp rd text stored s =
        Inr ((sheet_update (map_rows (apply_row j) (put_meta j ?u)))\<lparr>sh_ready := True\<rparr>)"
      using Cons by (simp add: sheet_start_def Let_def sheet_apply_def)
    then show thesis by (rule that [where u = ?u]) auto
  qed
qed

lemma start_single:
  assumes c: "candidates_of [embedded_candidate rd text t, stored_candidate rd stored t] = [j]"
    and a: "\<And>u. sh_reference u = sh_reference t \<Longrightarrow> row_ids u = row_ids t \<Longrightarrow>
      \<exists>t'. sheet_apply j u = Inr t' \<and> page_data t' = d"
  shows "\<exists>t'. sheet_start cmp rd text stored t = Inr t' \<and> page_data t' = d"
proof -
  let ?u = "start_notices (embedded_candidate rd text t \<noteq> None) (stored_candidate rd stored t \<noteq> None) t"
  obtain t' where "sheet_apply j ?u = Inr t'" "page_data t' = d" using a [of ?u] by auto
  then show ?thesis using c by (simp add: sheet_start_def Let_def)
qed

lemma braces_candidate: "embedded_candidate rd ''{}'' t = Some None"
proof -
  have "json_parse rd ''{}'' = Some (JObj [])"
    by (simp add: json_parse_def skip_ws_def json_space_def numeral_eq_Suc)
  then show ?thesis by (simp add: embedded_candidate_def member_of_simps)
qed

text \<open>
  C23. The results of the validation sheet survive the page. For a page whose controls hold texts
  within the limits, every page of the same sheet shows the same results, notes and session data
  after it starts on what the browser stored, after it starts from the exported page, and after the
  import of the exported file; and no text of the results can end the script element they are
  embedded in.
\<close>
theorem sheet_results_restored:
  assumes "sheet_ok s" "within_limits s" and "rd ''1'' = json_one"
    and "sh_reference t = sh_reference s" "row_ids t = row_ids s"
  shows "(\<exists>t'. sheet_start cmp rd ''{}'' (Some (sh_storage (sheet_save now True s))) t = Inr t' \<and>
      page_data t' = page_data s) \<and>
    (\<exists>t'. sheet_start cmp rd (embedded_text now s) (Some None) t = Inr t' \<and> page_data t' = page_data s) \<and>
    (bytes \<le> 2 * 1024 * 1024 \<longrightarrow>
      page_data (import_file rd message later bytes (dl_content (fst (export_json now s))) True room t) =
      page_data s) \<and>
    CHR ''<'' \<notin> set (embedded_text now s)"
proof -
  let ?j = "collect_results now s"
  note parse = parse_collected [of s rd, OF assms(1,3)]
  have applied: "\<exists>t'. sheet_apply ?j u = Inr t' \<and> page_data t' = page_data s"
    if "sh_reference u = sh_reference t" "row_ids u = row_ids t" for u
    using that assms apply_collect [of s u now] by metis
  have valid: "validate_for t ?j = Inr ?j" by (rule collect_valid) (use assms in auto)
  have saved: "sh_storage (sheet_save now True s) = Some (stringify ?j)"
    using collect_data [of "sheet_update s" s] by (simp add: sheet_save_def Let_def)
  have "stringify ?j \<noteq> []" by (simp add: collect_results_def)
  then have stored: "stored_candidate rd (Some (sh_storage (sheet_save now True s))) t = Some (Some ?j)"
    using parse(1) [of now] valid by (cases "stringify ?j") (simp_all add: saved stored_candidate_def)
  have embedded: "embedded_candidate rd (embedded_text now s) t = Some (Some ?j)"
  proof -
    obtain ms where ms: "?j = JObj ms" by (simp add: collect_results_def)
    have "truthy (field ''schema'' ?j)" by (simp add: collect_fields json_one_def)
    then show ?thesis using parse(3) [of now] valid unfolding ms by (simp add: embedded_candidate_def)
  qed
  have "\<exists>t'. sheet_start cmp rd ''{}'' (Some (sh_storage (sheet_save now True s))) t = Inr t' \<and>
      page_data t' = page_data s"
    by (rule start_single [OF _ applied]) (simp add: stored braces_candidate candidates_of_def map_filter_simps)
  moreover have "\<exists>t'. sheet_start cmp rd (embedded_text now s) (Some None) t = Inr t' \<and>
      page_data t' = page_data s"
    by (rule start_single [OF _ applied])
      (simp add: embedded stored_candidate_def candidates_of_def map_filter_simps)
  moreover have "page_data (import_file rd message later bytes (dl_content (fst (export_json now s))) True room t) =
      page_data s" if "bytes \<le> 2 * 1024 * 1024"
    using that parse(2) valid applied [of t]
    by (auto simp: import_file_def export_json_def)
  ultimately show ?thesis by (simp add: embedded_text_def script_text_no_less)
qed

text \<open>A page as the generator writes it, and the same one after a few answers.\<close>

definition fresh_row :: "string \<Rightarrow> string \<Rightarrow> test_row" where
  "fresh_row k text =
     \<lparr>tr_id = k, tr_search = text, tr_check = False, tr_status = ''todo'', tr_note = [], tr_open = False,
      tr_hidden = False, tr_result = [], tr_label = [CHR 0xC0] @ '' faire'', tr_print = []\<rparr>"

definition fresh_sheet :: "string \<Rightarrow> test_row list list \<Rightarrow> sheet" where
  "fresh_sheet reference sections =
     \<lparr>sh_reference = reference,
      sh_sections = map (\<lambda>rows. \<lparr>ts_rows = rows, ts_count = [], ts_hidden = False\<rparr>) sections,
      sh_meta = (\<lambda>_. []), sh_search = [], sh_filter = ''all'', sh_notice = Notice_none,
      sh_counts = ''0 valid'' @ [CHR 0xE9] @ '' sur '' @ nat_str (length (concat sections)) @ '' tests'',
      sh_progress = 0, sh_empty_hidden = True, sh_print_verdict = [], sh_print_notes = [],
      sh_nav_open = True, sh_print_open = [], sh_storage = None, sh_ready = False\<rparr>"

definition sample_sheet :: sheet where
  "sample_sheet =
     fresh_sheet ''aee184c'' [[fresh_row ''P01'' ''P01 Identifier'', fresh_row ''P02'' ''P02 Donner''],
       [fresh_row ''OVH01'' ''OVH01 Listes'']]"

definition answered_sheet :: sheet where
  "answered_sheet =
     meta_typed ''session-date'' ''2026-10-21''
       (note_typed ''OVH01'' ''</script>''
         (status_changed ''OVH01'' ''fail'' (check_changed ''P01'' True sample_sheet)))"

lemma answered_sheet_ok:
  "sheet_ok answered_sheet" "sh_reference sample_sheet = sh_reference answered_sheet"
  "row_ids sample_sheet = row_ids answered_sheet"
  by code_simp+

lemma answered_within_limits: "within_limits answered_sheet"
proof -
  have "(\<forall>r \<in> set (sheet_rows answered_sheet). length (tr_note r) \<le> 20) \<and>
     (\<forall>k \<in> set metaIds. length (sh_meta answered_sheet k) \<le> 20)" by code_simp
  then show ?thesis unfolding within_limits_def by fastforce
qed

theorem sheet_results_restored_witness:
  "page_data sample_sheet \<noteq> page_data answered_sheet \<and>
   (\<exists>t'. sheet_start (\<lambda>_ _. 0) (\<lambda>_. json_one) ''{}''
       (Some (sh_storage (sheet_save ''2026-10-21T09:00:00.000Z'' True answered_sheet))) sample_sheet = Inr t' \<and>
     page_data t' = page_data answered_sheet)"
proof
  show "page_data sample_sheet \<noteq> page_data answered_sheet" by code_simp
  show "\<exists>t'. sheet_start (\<lambda>_ _. 0) (\<lambda>_. json_one) ''{}''
       (Some (sh_storage (sheet_save ''2026-10-21T09:00:00.000Z'' True answered_sheet))) sample_sheet = Inr t' \<and>
     page_data t' = page_data answered_sheet"
    using sheet_results_restored [OF answered_sheet_ok(1) answered_within_limits refl answered_sheet_ok(2,3)] by blast
qed


subsection \<open>Results that are lost\<close>

text \<open>
  A note has no limit on the page, but the script refuses results with a note of more than 20000
  characters: what it stored itself is refused at the next start, which shows an empty sheet.
\<close>

lemma long_note_lost:
  assumes s: "sheet_ok s" "rd ''1'' = json_one" and t: "sh_reference t = sh_reference s" "row_ids t = row_ids s"
    and r: "r \<in> set (sheet_rows s)" "20000 < length (tr_note r)"
  shows "\<exists>t'. sheet_start cmp rd ''{}'' (Some (sh_storage (sheet_save now True s))) t = Inr t' \<and>
    page_data t' = page_data t"
proof -
  let ?j = "collect_results now s"
  have "\<not> valid_entry (row_ids s) (row_json r)"
    using r(2) by (simp add: valid_entry_def row_json_def member_of_simps)
  with r(1) have "List.find (\<lambda>e. \<not> valid_entry (row_ids s) e) (map row_json (sheet_rows s)) \<noteq> None"
    by (auto simp: find_None_iff)
  then obtain k v where "List.find (\<lambda>e. \<not> valid_entry (row_ids s) e) (map row_json (sheet_rows s)) = Some (k, v)"
    by auto
  then have "\<exists>e. validate_for t ?j = Inl e"
    using s t by (simp add: validate_for_def validate_def collect_simps)
  moreover have saved: "sh_storage (sheet_save now True s) = Some (stringify ?j)"
    using collect_data [of "sheet_update s" s] by (simp add: sheet_save_def Let_def)
  ultimately have "stored_candidate rd (Some (sh_storage (sheet_save now True s))) t \<in> {None, Some None}"
    using parse_collected(1) [of s rd now] s
    by (cases "stringify ?j") (auto simp: saved stored_candidate_def)
  then show ?thesis
    by (auto simp: sheet_start_def Let_def braces_candidate candidates_of_def map_filter_simps)
qed

text \<open>
  The script looks a result up by its text: an array of one result passes the check, but no control
  shows it, so that the test has no result at all.
\<close>

definition array_result :: json where
  "array_result = JObj
     [(''schema'', JNum json_one), (''project'', JStr ''asl-bissieux''), (''reference'', JStr ''aee184c''),
      (''meta'', JObj []),
      (''tests'', JObj [(''P01'', JObj [(''result'', JArr [JStr ''pass'']), (''note'', JStr [])])])]"

lemma array_result_shows_none:
  "validate_for sample_sheet array_result = Inr array_result \<and>
   map row_result (map (apply_row array_result) (sheet_rows sample_sheet)) = [[], ''todo'', ''todo'']"
proof
  have ids: "row_ids sample_sheet = [''P01'', ''P02'', ''OVH01'']" "sh_reference sample_sheet = ''aee184c''"
    by code_simp+
  show "validate_for sample_sheet array_result = Inr array_result"
    by (simp add: validate_for_def validate_def ids same_sheet_def array_result_def member_of_simps
        json_one_def valid_entry_def js_string_def result_labels_def valid_meta_def valid_verdict_def metaIds_def)
  show "map row_result (map (apply_row array_result) (sheet_rows sample_sheet)) = [[], ''todo'', ''todo'']"
    by code_simp
qed

end
