(* ===== verification/Sheet_Display.thy ===== *)
theory Sheet_Display
  imports Sheet_Session
begin

text \<open>
  The states of the validation sheet (\<open>dev/generate-validation-sheet.mjs\<close>): its listeners as one
  handler, every state after a start and any events, and the invariant that what is displayed says
  what the controls hold.
\<close>

subsection \<open>What the page displays\<close>

datatype sheet_event =
    Ticked string bool
  | Result_chosen string string
  | Noted string string
  | Meta_filled string string
  | Sheet_searched string
  | Sheet_filtered string
  | Json_exported
  | Html_exported
  | File_imported nat string bool
  | Reset_asked bool
  | Print_began
  | Print_ended

text \<open>The listeners of the script, in the order it adds them.\<close>

fun sheet_handle ::
  "(string \<Rightarrow> js_number) \<Rightarrow> (string \<Rightarrow> string) \<Rightarrow> string \<Rightarrow> bool \<Rightarrow> sheet_event \<Rightarrow> sheet \<Rightarrow> sheet" where
  "sheet_handle rd msg now room (Ticked k b) s = sheet_save now room (check_changed k b s)"
| "sheet_handle rd msg now room (Result_chosen k v) s = sheet_save now room (status_changed k v s)"
| "sheet_handle rd msg now room (Noted k v) s = sheet_save now room (note_typed k v s)"
| "sheet_handle rd msg now room (Meta_filled k v) s = sheet_save now room (meta_typed k v s)"
| "sheet_handle rd msg now room (Sheet_searched v) s = sheet_search_typed v s"
| "sheet_handle rd msg now room (Sheet_filtered v) s = filter_changed v s"
| "sheet_handle rd msg now room Json_exported s = snd (export_json now s)"
| "sheet_handle rd msg now room Html_exported s = snd (export_html now s)"
| "sheet_handle rd msg now room (File_imported bytes text ok) s = import_file rd msg now bytes text ok room s"
| "sheet_handle rd msg now room (Reset_asked ok) s = (case reset now ok room s of Inl e \<Rightarrow> s | Inr t \<Rightarrow> t)"
| "sheet_handle rd msg now room Print_began s = before_print s"
| "sheet_handle rd msg now room Print_ended s = after_print s"

text \<open>The states of a page: after its start on any embedded and stored text, and any events.\<close>

inductive sheet_reach :: "(string \<Rightarrow> string \<Rightarrow> int) \<Rightarrow> (string \<Rightarrow> js_number) \<Rightarrow> sheet \<Rightarrow> sheet \<Rightarrow> bool"
  for cmp rd p where
  started: "sheet_start cmp rd text stored p = Inr s \<Longrightarrow> sheet_reach cmp rd p s"
| handled: "sheet_reach cmp rd p s \<Longrightarrow> sheet_reach cmp rd p (sheet_handle rd msg now room e s)"

definition row_shown :: "string \<Rightarrow> string \<Rightarrow> test_row \<Rightarrow> bool" where
  "row_shown query selection r \<longleftrightarrow>
     tr_result r = row_result r \<and> tr_label r = label_of (row_result r) \<and> tr_print r = tr_note r \<and>
     tr_hidden r = row_excluded query selection r"

definition section_shown :: "test_section \<Rightarrow> bool" where
  "section_shown x \<longleftrightarrow>
     ts_hidden x = list_all tr_hidden (ts_rows x) \<and> ts_count x = section_text (ts_rows x)"

text \<open>The decision as it is printed: the list's, or that none was made.\<close>

definition verdict_text :: "string \<Rightarrow> string" where
  "verdict_text v = (if v = [] then ''Non prononc'' @ [CHR 0xE9] @ ''e'' else v)"

text \<open>Everything on display says what the controls hold.\<close>

definition sheet_displayed :: "sheet \<Rightarrow> bool" where
  "sheet_displayed s \<longleftrightarrow>
     list_all (row_shown (js_trim (js_lower (sh_search s))) (sh_filter s)) (sheet_rows s) \<and>
     list_all section_shown (sh_sections s) \<and>
     sh_progress s = result_count ''pass'' (sheet_rows s) \<and> sh_counts s = counts_text (sheet_rows s) \<and>
     sh_empty_hidden s = (\<not> list_all tr_hidden (sheet_rows s)) \<and>
     sh_print_verdict s = verdict_text (sh_meta s ''verdict'') \<and>
     sh_print_notes s = sh_meta s ''final-notes''"

definition row_kept :: "test_row \<Rightarrow> bool" where
  "row_kept r \<longleftrightarrow> tr_status r \<in> set ([] # status_options) \<and> (tr_check r \<longrightarrow> tr_status r = ''todo'')"

definition page_kept :: "sheet \<Rightarrow> bool" where
  "page_kept s \<longleftrightarrow> list_all row_kept (sheet_rows s)"

lemma result_count_map:
  "(\<And>r. row_result (f r) = row_result r) \<Longrightarrow> result_count k (map f rows) = result_count k rows"
  by (simp add: result_count_def filter_map comp_def)

lemma texts_map:
  assumes "\<And>r. row_result (f r) = row_result r"
  shows "counts_text (map f rows) = counts_text rows" and "section_text (map f rows) = section_text rows"
  by (simp_all add: counts_text_def section_text_def result_count_map [OF assms] Let_def)

lemma row_result_display [simp]:
  "row_result (r\<lparr>tr_hidden := b\<rparr>) = row_result r" "row_result (refresh_row r) = row_result r"
  "row_result (r\<lparr>tr_open := b\<rparr>) = row_result r"
  by (simp_all add: row_result_def refresh_row_def)

lemma not_all_hidden: "(\<not> list_ex (\<lambda>r. \<not> tr_hidden r) rows) = list_all tr_hidden rows"
  by (induction rows) auto

text \<open>The part of the display that the filter does not touch.\<close>

definition told :: "sheet \<Rightarrow> bool" where
  "told s \<longleftrightarrow>
     list_all (\<lambda>r. tr_result r = row_result r \<and> tr_label r = label_of (row_result r) \<and>
       tr_print r = tr_note r) (sheet_rows s) \<and>
     list_all (\<lambda>x. ts_count x = section_text (ts_rows x)) (sh_sections s) \<and>
     sh_progress s = result_count ''pass'' (sheet_rows s) \<and> sh_counts s = counts_text (sheet_rows s) \<and>
     sh_print_verdict s = verdict_text (sh_meta s ''verdict'') \<and>
     sh_print_notes s = sh_meta s ''final-notes''"

lemma displayed_told: "sheet_displayed s \<Longrightarrow> told s"
  by (auto simp: sheet_displayed_def told_def list_all_iff row_shown_def section_shown_def)

lemma filter_displayed:
  assumes "told s"
  shows "sheet_displayed (sheet_filter s)"
proof -
  define h where "h = (\<lambda>r. r\<lparr>tr_hidden := row_excluded (js_trim (js_lower (sh_search s))) (sh_filter s) r\<rparr>)"
  have h: "row_result (h r) = row_result r" for r by (simp add: h_def)
  have rows: "sheet_rows (sheet_filter s) = map h (sheet_rows s)"
    by (simp add: sheet_filter_def Let_def map_rows_def sheet_rows_def map_concat comp_def h_def)
  have sections: "sh_sections (sheet_filter s) =
      map (\<lambda>x. x\<lparr>ts_rows := map h (ts_rows x), ts_hidden := list_all tr_hidden (map h (ts_rows x))\<rparr>) (sh_sections s)"
    by (simp add: sheet_filter_def Let_def map_rows_def not_all_hidden h_def comp_def)
  have "sh_empty_hidden (sheet_filter s) = (\<not> list_all tr_hidden (sheet_rows (sheet_filter s)))"
    unfolding rows using not_all_hidden [of "map h (sheet_rows s)"]
    by (auto simp: sheet_filter_def Let_def map_rows_def sheet_rows_def map_concat comp_def h_def)
  moreover have "list_all (row_shown (js_trim (js_lower (sh_search s))) (sh_filter s)) (map h (sheet_rows s))"
    using assms by (auto simp: told_def list_all_iff row_shown_def row_excluded_def row_result_def h_def)
  moreover have "list_all section_shown (sh_sections (sheet_filter s))"
    using assms by (auto simp: sections told_def list_all_iff section_shown_def texts_map [OF h])
  ultimately show ?thesis
    using assms by (simp add: sheet_displayed_def rows result_count_map [OF h] texts_map [OF h] told_def)
      (simp add: sheet_filter_def Let_def map_rows_def)
qed

lemma update_displayed: "sheet_displayed (sheet_update s)"
  unfolding sheet_update_def Let_def
proof (rule filter_displayed, unfold told_def, intro conjI)
qed (simp_all add: told_def list_all_iff sheet_rows_def map_rows_def refresh_row_def row_result_def comp_def
    verdict_text_def)

lemma displayed_fields [simp]:
  "sheet_displayed (s\<lparr>sh_notice := n\<rparr>) = sheet_displayed s"
  "sheet_displayed (s\<lparr>sh_storage := v\<rparr>) = sheet_displayed s"
  "sheet_displayed (s\<lparr>sh_ready := b\<rparr>) = sheet_displayed s"
  "sheet_displayed (s\<lparr>sh_print_open := p\<rparr>) = sheet_displayed s"
  "sheet_displayed (s\<lparr>sh_nav_open := b\<rparr>) = sheet_displayed s"
  by (simp_all add: sheet_displayed_def sheet_rows_def)

lemma told_fields [simp]:
  "told (s\<lparr>sh_search := v\<rparr>) = told s" "told (s\<lparr>sh_filter := v\<rparr>) = told s"
  by (simp_all add: told_def sheet_rows_def)

lemma save_displayed: "sheet_displayed (sheet_save now room s)"
  by (simp add: sheet_save_def Let_def update_displayed)

lemma kept_data: "page_data s = page_data t \<Longrightarrow> page_kept s = page_kept t"
proof -
  have "page_kept u = list_all (\<lambda>(k, c, v, n). v \<in> set ([] # status_options) \<and> (c \<longrightarrow> v = ''todo''))
      (snd (snd (page_data u)))" for u
    by (simp add: page_kept_def page_data_def row_data_def row_kept_def list_all_iff)
  then show "page_data s = page_data t \<Longrightarrow> page_kept s = page_kept t" by simp
qed

subsection \<open>Details that printing opens\<close>

lemma open_rows_keep:
  "(\<And>r b. f (r\<lparr>tr_open := b\<rparr>) = f r) \<Longrightarrow> map f (open_rows bs rs) = map f rs"
  by (induction bs rs rule: open_rows.induct) auto

lemma open_sections_rows:
  "(\<And>r b. f (r\<lparr>tr_open := b\<rparr>) = f r) \<Longrightarrow>
     map (\<lambda>x. map f (ts_rows x)) (open_sections bs xs) = map (\<lambda>x. map f (ts_rows x)) xs"
  by (induction bs xs rule: open_sections.induct) (auto simp: open_rows_keep)

lemma set_details_rows:
  assumes "\<And>r b. f (r\<lparr>tr_open := b\<rparr>) = f r"
  shows "map f (sheet_rows (set_details bs s)) = map f (sheet_rows s)"
proof -
  have e: "map f (concat (map ts_rows xs)) = concat (map (\<lambda>x. map f (ts_rows x)) xs)" for xs
    by (simp add: map_concat comp_def)
  have *:  "map f (concat (map ts_rows (open_sections bs xs))) = map f (concat (map ts_rows xs))" for bs xs
    by (simp only: e open_sections_rows [of f, OF assms])
  show ?thesis
    by (cases bs) (simp_all add: set_details_def sheet_rows_def *)
qed

lemma set_details_data [simp]: "page_data (set_details bs s) = page_data s"
proof -
  have "map row_data (sheet_rows (set_details bs s)) = map row_data (sheet_rows s)"
    by (rule set_details_rows) (simp add: row_data_def)
  then show ?thesis by (simp add: page_data_def) (simp add: set_details_def split: list.split)
qed

lemma list_all_map_cong: "map f xs = map f ys \<Longrightarrow> list_all (\<lambda>x. P (f x)) xs = list_all (\<lambda>x. P (f x)) ys"
  by (metis list.pred_map comp_def list_all_cong)

abbreviation closed_row :: "test_row \<Rightarrow> test_row" where
  "closed_row r \<equiv> r\<lparr>tr_open := False\<rparr>"

lemma closed_displayed: "sheet_displayed (map_rows closed_row s) = sheet_displayed s"
proof -
  have "list_all (row_shown q f) (map closed_row rows) = list_all (row_shown q f) rows" for q f rows
    by (simp add: list_all_iff row_shown_def row_excluded_def row_result_def)
  moreover have "list_all section_shown (map (\<lambda>x. x\<lparr>ts_rows := map closed_row (ts_rows x)\<rparr>) xs) =
      list_all section_shown xs" for xs
    by (simp add: list_all_iff section_shown_def texts_map)
  moreover have "list_all tr_hidden (map closed_row rows) = list_all tr_hidden rows" for rows
    by (simp add: list_all_iff)
  ultimately show ?thesis
    by (simp add: sheet_displayed_def texts_map result_count_map) (simp add: map_rows_def)
qed

lemma set_details_displayed [simp]: "sheet_displayed (set_details bs s) = sheet_displayed s"
proof -
  have sections: "map (\<lambda>x. x\<lparr>ts_rows := map closed_row (ts_rows x)\<rparr>) (open_sections cs xs) =
      map (\<lambda>x. x\<lparr>ts_rows := map closed_row (ts_rows x)\<rparr>) xs" for cs xs
    by (induction cs xs rule: open_sections.induct) (auto simp: open_rows_keep)
  have "sheet_displayed (map_rows closed_row (set_details bs s)) = sheet_displayed (map_rows closed_row s)"
  proof (cases bs)
    case (Cons b cs)
    then have "map_rows closed_row (set_details bs s) = (map_rows closed_row s)\<lparr>sh_nav_open := b\<rparr>"
      by (simp add: set_details_def map_rows_def sections)
    then show ?thesis by simp
  qed (simp add: set_details_def)
  then show ?thesis by (simp add: closed_displayed)
qed

lemma fold_details [simp]:
  "sheet_displayed (fold set_details bss s) = sheet_displayed s" "page_data (fold set_details bss s) = page_data s"
  by (induction bss arbitrary: s) simp_all

text \<open>Printing leaves the data and the display, and what was closed is closed again.\<close>

lemma print_keeps:
  "page_data (before_print s) = page_data s" "page_data (after_print s) = page_data s"
  "sheet_displayed (before_print s)" "sheet_displayed (after_print s) = sheet_displayed s"
  by (simp_all add: before_print_def after_print_def Let_def update_displayed)

subsection \<open>Every state of the page\<close>

lemma apply_kept: "row_kept (apply_row j r)"
  by (simp add: apply_row_def Let_def row_kept_def select_control_def status_options_def)

lemma applied_facts:
  assumes "sheet_apply j s = Inr t"
  shows "sheet_displayed t \<and> page_kept t \<and> row_ids t = row_ids s"
proof -
  obtain v where t: "t = sheet_update (map_rows (apply_row v) (put_meta v s))"
    using assms by (auto simp: sheet_apply_def split: sum.splits)
  let ?u = "map_rows (apply_row v) (put_meta v s)"
  have u: "page_data t = page_data ?u" unfolding t by simp
  have "row_ids ?u = row_ids s" by (simp add: row_ids_def comp_def apply_row_def Let_def)
  moreover have "page_kept ?u" by (simp add: page_kept_def list_all_iff apply_kept)
  ultimately show ?thesis
    using row_ids_data [OF u] kept_data [OF u] unfolding t by (simp add: update_displayed)
qed

lemma sheet_rows_meta [simp]: "sheet_rows (s\<lparr>sh_meta := m\<rparr>) = sheet_rows s"
  by (simp add: sheet_rows_def)

lemma update_row_kept:
  "page_kept s \<Longrightarrow> (\<And>r. row_kept r \<Longrightarrow> row_kept (f r)) \<Longrightarrow> page_kept (update_row k f s)"
  by (auto simp: page_kept_def list_all_iff update_row_def)

lemma typed_kept:
  assumes "page_kept s"
  shows "page_kept (check_changed k b s)" "page_kept (status_changed k v s)" "page_kept (note_typed k v s)"
    "page_kept (meta_typed k v s)"
proof -
  show "page_kept (meta_typed k v s)" using assms by (simp add: page_kept_def meta_typed_def)
qed (auto simp: check_changed_def status_changed_def note_typed_def row_kept_def select_control_def
    status_options_def intro!: update_row_kept [OF assms])

lemma typed_ids:
  "row_ids (check_changed k b s) = row_ids s" "row_ids (status_changed k v s) = row_ids s"
  "row_ids (note_typed k v s) = row_ids s" "row_ids (meta_typed k v s) = row_ids s"
  by (auto simp: row_ids_def check_changed_def status_changed_def note_typed_def meta_typed_def
      update_row_def)

definition page_inv :: "sheet \<Rightarrow> sheet \<Rightarrow> bool" where
  "page_inv p s \<longleftrightarrow> sheet_displayed s \<and> page_kept s \<and> row_ids s = row_ids p"

lemma inv_saved: "page_kept s \<Longrightarrow> row_ids s = row_ids p \<Longrightarrow> page_inv p (sheet_save now room s)"
  using kept_data [of "sheet_save now room s" s] row_ids_data [of "sheet_save now room s" s]
  by (simp add: page_inv_def save_displayed)

lemma inv_same_data:
  "page_inv p s \<Longrightarrow> page_data t = page_data s \<Longrightarrow> sheet_displayed t \<Longrightarrow> page_inv p t"
  using kept_data [of t s] row_ids_data [of t s] by (simp add: page_inv_def)

lemma inv_notice: "page_inv p s \<Longrightarrow> page_inv p (s\<lparr>sh_notice := n\<rparr>)"
  by (rule inv_same_data) (simp_all add: page_inv_def)

lemma page_invD: "page_inv p s \<Longrightarrow> page_kept s" "page_inv p s \<Longrightarrow> row_ids s = row_ids p"
  by (simp_all add: page_inv_def)

lemma import_inv:
  assumes "page_inv p s"
  shows "page_inv p (import_file rd msg now bytes text ok room s)"
proof -
  have "page_inv p ((sheet_save now room t)\<lparr>sh_notice := n\<rparr>)" if "sheet_apply j s = Inr t" for j t n
  proof -
    have "page_inv p (sheet_save now room t)"
      using applied_facts [OF that] assms by (intro inv_saved) (auto simp: page_inv_def)
    then show ?thesis by (rule inv_notice)
  qed
  with assms inv_notice show ?thesis by (simp add: import_file_def split: option.split sum.split)
qed

lemma handle_inv:
  assumes "page_inv p s"
  shows "page_inv p (sheet_handle rd msg now room e s)"
proof (cases e)
  case (File_imported bytes content ok)
  then show ?thesis using import_inv [OF assms] by simp
next
  case (Reset_asked ok)
  have "page_inv p (sheet_save now room t)" if "sheet_apply j s = Inr t" for j t
    using applied_facts [OF that] assms by (intro inv_saved) (auto simp: page_inv_def)
  with Reset_asked assms show ?thesis
    by (cases "sheet_apply (empty_results s) s") (auto simp: reset_def)
next
  case (Sheet_searched v)
  have "sheet_displayed (sheet_handle rd msg now room e s)"
    using assms Sheet_searched by (auto intro!: filter_displayed simp: sheet_search_typed_def page_inv_def displayed_told)
  with Sheet_searched show ?thesis by (intro inv_same_data [OF assms]) (simp_all add: sheet_search_typed_def)
next
  case (Sheet_filtered v)
  have "sheet_displayed (sheet_handle rd msg now room e s)"
    using assms Sheet_filtered by (auto intro!: filter_displayed simp: filter_changed_def page_inv_def displayed_told)
  with Sheet_filtered show ?thesis by (intro inv_same_data [OF assms]) (simp_all add: filter_changed_def)
next
  case Json_exported
  then show ?thesis using assms by (simp add: export_json_def inv_notice)
next
  case Html_exported
  then show ?thesis using assms by (simp add: export_html_def inv_notice)
next
  case Print_began
  then show ?thesis by (intro inv_same_data [OF assms]) (simp_all add: print_keeps)
next
  case Print_ended
  then show ?thesis
    using assms by (intro inv_same_data [OF assms]) (simp_all add: print_keeps page_inv_def)
qed (use assms in \<open>auto intro!: inv_saved simp: typed_kept typed_ids page_invD\<close>)

lemma start_inv:
  assumes "page_kept p" and "sheet_start cmp rd text stored p = Inr s"
  shows "page_inv p s"
proof -
  obtain t u where s: "sheet_start cmp rd text stored p = Inr (t\<lparr>sh_ready := True\<rparr>)"
    and u: "page_data u = page_data p"
    and t: "t = sheet_update u \<or> (\<exists>j. t = sheet_update (map_rows (apply_row j) (put_meta j u)))"
    by (rule start_cases)
  from t have "sheet_displayed t \<and> page_kept t \<and> row_ids t = row_ids p"
  proof
    assume t: "t = sheet_update u"
    with u have d: "page_data t = page_data p" by simp
    with assms t show ?thesis using kept_data [OF d] row_ids_data [OF d] by (simp add: update_displayed)
  next
    assume "\<exists>j. t = sheet_update (map_rows (apply_row j) (put_meta j u))"
    then obtain j where t: "t = sheet_update (map_rows (apply_row j) (put_meta j u))" by blast
    let ?v = "map_rows (apply_row j) (put_meta j u)"
    have d: "page_data t = page_data ?v" unfolding t by simp
    have "row_ids ?v = row_ids u" by (simp add: row_ids_def comp_def apply_row_def Let_def)
    moreover have "page_kept ?v" by (simp add: page_kept_def list_all_iff apply_kept)
    ultimately show ?thesis
      using kept_data [OF d] row_ids_data [OF d] row_ids_data [OF u] unfolding t
      by (simp add: update_displayed)
  qed
  then have i: "page_inv p t" "sheet_displayed t" by (simp_all add: page_inv_def)
  from inv_same_data [OF i(1), of "t\<lparr>sh_ready := True\<rparr>"] i(2) show ?thesis using assms(2) s by auto
qed

lemma reach_inv: "sheet_reach cmp rd p s \<Longrightarrow> page_kept p \<Longrightarrow> page_inv p s"
  by (induction rule: sheet_reach.induct) (auto intro: start_inv handle_inv)

lemma counts_partition:
  assumes "list_all row_kept rows" "list_all (\<lambda>r. tr_status r \<noteq> []) rows"
  shows "result_count ''pass'' rows + result_count ''todo'' rows + result_count ''fail'' rows +
    result_count ''blocked'' rows + result_count ''na'' rows = length rows"
  using assms
  by (induction rows) (auto simp: result_count_def row_kept_def row_result_def status_options_def)

text \<open>
  C33. Whatever the sheet starts on and whatever happens to it, what it displays is what its controls
  hold: the result, the label and the printed note of every test, the counts of the page and of its
  sections, the progress, the tests that the search and the filter hide and the sections left
  without any, the notice of an empty result, the printed decision and its notes; its tests are
  those of the page, none is ticked and failed at once, and, as long as every list of results shows
  one, the five counts add up to the tests.
\<close>
theorem sheet_display_current:
  assumes "page_kept p" and "sheet_reach cmp rd p s"
  shows "sheet_displayed s \<and> sh_print_verdict s = verdict_text (sh_meta s ''verdict'') \<and>
    row_ids s = row_ids p \<and>
    (\<forall>r \<in> set (sheet_rows s). tr_check r \<longrightarrow> tr_status r = ''todo'') \<and>
    ((\<forall>r \<in> set (sheet_rows s). tr_status r \<noteq> []) \<longrightarrow>
      result_count ''pass'' (sheet_rows s) + result_count ''todo'' (sheet_rows s) +
      result_count ''fail'' (sheet_rows s) + result_count ''blocked'' (sheet_rows s) +
      result_count ''na'' (sheet_rows s) = length (sheet_rows p))"
proof -
  have inv: "sheet_displayed s" "page_kept s" "row_ids s = row_ids p"
    using reach_inv [OF assms(2,1)] by (simp_all add: page_inv_def)
  then have verdict: "sh_print_verdict s = verdict_text (sh_meta s ''verdict'')"
    by (simp add: sheet_displayed_def)
  have "length (sheet_rows p) = length (sheet_rows s)" using inv(3) by (metis length_map row_ids_def)
  with inv verdict counts_partition [of "sheet_rows s"] show ?thesis
    by (auto simp: page_kept_def list_all_iff row_kept_def)
qed

definition seen_sheet :: sheet where
  "seen_sheet =
     sheet_handle (\<lambda>_. json_one) id ''2026-10-21T09:05:00.000Z'' True (Sheet_filtered ''fail'')
       (sheet_handle (\<lambda>_. json_one) id ''2026-10-21T09:00:00.000Z'' True (Result_chosen ''P02'' ''fail'')
         ((sheet_update sample_sheet)\<lparr>sh_ready := True\<rparr>))"

theorem sheet_display_current_witness:
  "map tr_hidden (sheet_rows seen_sheet) = [True, False, True] \<and>
   result_count ''pass'' (sheet_rows seen_sheet) + result_count ''todo'' (sheet_rows seen_sheet) +
   result_count ''fail'' (sheet_rows seen_sheet) + result_count ''blocked'' (sheet_rows seen_sheet) +
   result_count ''na'' (sheet_rows seen_sheet) = 3"
proof
  have kept: "page_kept sample_sheet" by code_simp
  have start: "sheet_start (\<lambda>_ _. 0) (\<lambda>_. json_one) ''{}'' (Some None) sample_sheet =
      Inr ((sheet_update sample_sheet)\<lparr>sh_ready := True\<rparr>)"
    by (simp add: sheet_start_def Let_def braces_candidate stored_candidate_def start_notices_def
        candidates_of_def map_filter_simps)
  then have reach: "sheet_reach (\<lambda>_ _. 0) (\<lambda>_. json_one) sample_sheet seen_sheet"
    unfolding seen_sheet_def by (intro sheet_reach.handled) (rule sheet_reach.started)
  show "map tr_hidden (sheet_rows seen_sheet) = [True, False, True]" by code_simp
  have "list_all (\<lambda>r. tr_status r \<noteq> []) (sheet_rows seen_sheet)" by code_simp
  moreover have "length (sheet_rows sample_sheet) = 3" by code_simp
  ultimately show "result_count ''pass'' (sheet_rows seen_sheet) + result_count ''todo'' (sheet_rows seen_sheet) +
   result_count ''fail'' (sheet_rows seen_sheet) + result_count ''blocked'' (sheet_rows seen_sheet) +
   result_count ''na'' (sheet_rows seen_sheet) = 3"
    using sheet_display_current [OF kept reach] by (simp add: list_all_iff)
qed

end
