(* ===== verification/Sheet_Generator.thy ===== *)
theory Sheet_Generator
  imports Sheet_Session
begin

text \<open>
  \<open>dev/generate-validation-sheet.mjs\<close>: the validation sheet from its Markdown source. The lines are
  read one after the other into sections of tests, the inventory is checked, and every test becomes
  an article of the page. The source has characters beyond the 256 code points of the model's
  strings (the dash of a title), so a text here is its list of UTF-16 code units. The first page
  that the script of \<open>Sheet_Session\<close> runs on is the one of these sections.
\<close>

subsection \<open>Texts\<close>

type_synonym units = "nat list"

definition lit :: "string \<Rightarrow> units" where
  "lit s = map of_char s"

definition begins :: "units \<Rightarrow> units \<Rightarrow> bool" where
  "begins s p \<longleftrightarrow> take (length p) s = p"

fun split_units :: "nat \<Rightarrow> units \<Rightarrow> units list" where
  "split_units c [] = [[]]"
| "split_units c (x # xs) =
     (if x = c then [] # split_units c xs
      else (case split_units c xs of [] \<Rightarrow> [[x]] | p # ps \<Rightarrow> (x # p) # ps))"

text \<open>\<open>match(/reference : `([^`]+)`/)\<close>, with its accents: the first place that matches.\<close>

definition reference_mark :: units where
  "reference_mark = lit (''r'' @ [CHR 0xE9] @ ''f'' @ [CHR 0xE9] @ ''rence : '') @ [96]"

definition reference_here :: "units \<Rightarrow> units option" where
  "reference_here s =
     (let r = drop (length reference_mark) s; t = takeWhile (\<lambda>c. c \<noteq> 96) r in
      if begins s reference_mark \<and> t \<noteq> [] \<and> length t < length r then Some t else None)"

fun find_reference :: "units \<Rightarrow> units option" where
  "find_reference [] = reference_here []"
| "find_reference (c # s) =
     (case reference_here (c # s) of Some t \<Rightarrow> Some t | None \<Rightarrow> find_reference s)"

subsection \<open>The sections\<close>

record test_case =
  tc_id :: units
  tc_title :: units
  tc_action :: "units option"
  tc_expected :: "units option"

record sheet_section =
  ss_title :: units
  ss_context :: "units list"
  ss_items :: "test_case list"

datatype sheet_error =
    Usage
  | Missing_reference
  | Type_error
  | Invalid_test units
  | Invalid_inventory
  | Incomplete_test units

definition is_upper :: "nat \<Rightarrow> bool" where
  "is_upper c \<longleftrightarrow> 65 \<le> c \<and> c \<le> 90"

definition is_decimal :: "nat \<Rightarrow> bool" where
  "is_decimal c \<longleftrightarrow> 48 \<le> c \<and> c \<le> 57"

text \<open>What the dot of a regular expression does not match.\<close>

definition ends_line :: "nat \<Rightarrow> bool" where
  "ends_line c \<longleftrightarrow> c \<in> {10, 13, 8232, 8233}"

definition dash :: units where
  "dash = [32, 8212, 32]"

definition stars :: units where
  "stars = [42, 42]"

definition test_mark :: units where
  "test_mark = lit ''- [ ] '' @ stars"

text \<open>The identifier and the title of a line \<open>- [ ] **ID - title**\<close>, written with a long dash.\<close>

definition match_test :: "units \<Rightarrow> (units \<times> units) option" where
  "match_test line =
     (let r = drop (length test_mark) line;
          letters = takeWhile is_upper r; r1 = dropWhile is_upper r;
          digits = takeWhile is_decimal r1; r2 = dropWhile is_decimal r1;
          r3 = drop (length dash) r2; title = take (length r3 - 2) r3 in
      if begins line test_mark \<and> letters \<noteq> [] \<and> digits \<noteq> [] \<and> begins r2 dash \<and>
         title \<noteq> [] \<and> drop (length r3 - 2) r3 = stars \<and> list_all (\<lambda>c. \<not> ends_line c) title
      then Some (letters @ digits, title) else None)"

definition section_mark :: units where "section_mark = lit ''## ''"

definition context_line :: "units \<Rightarrow> bool" where
  "context_line line \<longleftrightarrow>
     begins line (lit ''Lots : '') \<or> begins line (lit (''Pr'' @ [CHR 0xE9] @ ''paration : ''))"

definition action_mark :: units where "action_mark = lit ''  Action : ''"

definition expected_mark :: units where "expected_mark = lit ''  Attendu : ''"

definition new_section :: "units \<Rightarrow> sheet_section" where
  "new_section title = \<lparr>ss_title = title, ss_context = [], ss_items = []\<rparr>"

definition new_test :: "units \<times> units \<Rightarrow> test_case" where
  "new_test m = \<lparr>tc_id = fst m, tc_title = snd m, tc_action = None, tc_expected = None\<rparr>"

text \<open>
  The state of the loop: the sections read so far, the current one first. \<open>item\<close> is the last test
  of the current section, and \<open>null\<close> or \<open>undefined\<close> where it has none: a property of it raises.
\<close>

definition in_section ::
  "(sheet_section \<Rightarrow> sheet_section) \<Rightarrow> sheet_section list \<Rightarrow> sheet_error + sheet_section list" where
  "in_section f secs = (case secs of [] \<Rightarrow> Inl Type_error | s # rest \<Rightarrow> Inr (f s # rest))"

definition in_item ::
  "(test_case \<Rightarrow> test_case) \<Rightarrow> sheet_section list \<Rightarrow> sheet_error + sheet_section list" where
  "in_item f secs =
     (case secs of [] \<Rightarrow> Inl Type_error
      | s # rest \<Rightarrow>
          if ss_items s = [] then Inl Type_error
          else Inr (s\<lparr>ss_items := butlast (ss_items s) @ [f (last (ss_items s))]\<rparr> # rest))"

definition sheet_line :: "units \<Rightarrow> sheet_section list \<Rightarrow> sheet_error + sheet_section list" where
  "sheet_line line secs =
     (if begins line section_mark then Inr (new_section (drop 3 line) # secs)
      else if context_line line then in_section (\<lambda>s. s\<lparr>ss_context := ss_context s @ [line]\<rparr>) secs
      else if begins line test_mark then
        (case match_test line of
           None \<Rightarrow> Inl (Invalid_test line)
         | Some m \<Rightarrow> in_section (\<lambda>s. s\<lparr>ss_items := ss_items s @ [new_test m]\<rparr>) secs)
      else if begins line action_mark then in_item (\<lambda>i. i\<lparr>tc_action := Some (drop 11 line)\<rparr>) secs
      else if begins line expected_mark then in_item (\<lambda>i. i\<lparr>tc_expected := Some (drop 12 line)\<rparr>) secs
      else Inr secs)"

fun sheet_lines :: "units list \<Rightarrow> sheet_section list \<Rightarrow> sheet_error + sheet_section list" where
  "sheet_lines [] secs = Inr secs"
| "sheet_lines (l # ls) secs =
     (case sheet_line l secs of Inl e \<Rightarrow> Inl e | Inr t \<Rightarrow> sheet_lines ls t)"

definition all_items :: "sheet_section list \<Rightarrow> test_case list" where
  "all_items secs = concat (map ss_items secs)"

definition present :: "units option \<Rightarrow> bool" where
  "present t = (case t of None \<Rightarrow> False | Some u \<Rightarrow> u \<noteq> [])"

definition complete_test :: "test_case \<Rightarrow> bool" where
  "complete_test i \<longleftrightarrow> present (tc_action i) \<and> present (tc_expected i)"

definition check_items :: "nat \<Rightarrow> sheet_section list \<Rightarrow> sheet_error + sheet_section list" where
  "check_items minimum secs =
     (let items = all_items secs in
      if length items < minimum \<or> length (js_set (map tc_id items)) \<noteq> length items
      then Inl Invalid_inventory
      else case List.find (\<lambda>i. \<not> complete_test i) items of
        Some i \<Rightarrow> Inl (Incomplete_test (tc_id i)) | None \<Rightarrow> Inr secs)"

text \<open>The script up to the page: the two arguments of the command come together.\<close>

definition read_sheet :: "bool \<Rightarrow> bool \<Rightarrow> units \<Rightarrow> sheet_error + units \<times> sheet_section list" where
  "read_sheet with_source with_output source =
     (if with_source \<noteq> with_output then Inl Usage
      else case find_reference source of
        None \<Rightarrow> Inl Missing_reference
      | Some reference \<Rightarrow>
          (case sheet_lines (split_units 10 source) [] of
             Inl e \<Rightarrow> Inl e
           | Inr secs \<Rightarrow> map_sum id (Pair reference) (check_items (if with_source then 1 else 70) (rev secs))))"

subsection \<open>The page\<close>

definition replace_unit :: "nat \<Rightarrow> units \<Rightarrow> units \<Rightarrow> units" where
  "replace_unit c t s = concat (map (\<lambda>x. if x = c then t else [x]) s)"

definition esc :: "units \<Rightarrow> units" where
  "esc s =
     replace_unit 39 (lit ''&#39;'')
       (replace_unit 34 (lit ''&quot;'')
         (replace_unit 62 (lit ''&gt;'') (replace_unit 60 (lit ''&lt;'') (replace_unit 38 (lit ''&amp;'') s))))"

definition quoted :: "units \<Rightarrow> units" where
  "quoted t = 34 # t @ [34]"

definition text_of :: "units option \<Rightarrow> units" where
  "text_of t = (case t of None \<Rightarrow> lit ''undefined'' | Some u \<Rightarrow> u)"

definition search_text :: "test_case \<Rightarrow> units" where
  "search_text i =
     tc_id i @ [32] @ tc_title i @ [32] @ text_of (tc_action i) @ [32] @ text_of (tc_expected i)"

definition option_tag :: "string \<Rightarrow> string \<Rightarrow> units" where
  "option_tag v label = lit ''<option value='' @ quoted (lit v) @ lit ''>'' @ lit label @ lit ''</option>''"

definition renderCase :: "test_case \<Rightarrow> units" where
  "renderCase i =
     (let ident = (\<lambda>prefix. quoted (lit prefix @ tc_id i)) in
      lit ''<article class='' @ quoted (lit ''test'') @ lit '' data-test='' @ quoted (tc_id i) @
      lit '' data-search='' @ quoted (esc (search_text i)) @ lit ''>'' @ [10] @
      lit ''  <label class='' @ quoted (lit ''test-title'') @ lit '' for='' @ ident ''check-'' @
      lit ''><input id='' @ ident ''check-'' @ lit '' type='' @ quoted (lit ''checkbox'') @
      lit ''><span><span class='' @ quoted (lit ''test-id'') @ lit ''>'' @ tc_id i @ lit ''</span> '' @
      esc (tc_title i) @ lit ''</span></label>'' @ [10] @
      lit ''  <p><strong>Faire.</strong> '' @ esc (text_of (tc_action i)) @ lit ''</p>'' @ [10] @
      lit ''  <p><strong>Attendu.</strong> '' @ esc (text_of (tc_expected i)) @ lit ''</p>'' @ [10] @
      lit ''  <span class='' @ quoted (lit ''case-status'') @ lit ''>'' @ lit ([CHR 0xC0] @ '' faire'') @
      lit ''</span>'' @ [10] @
      lit (''  <details><summary>Noter un '' @ [CHR 0xE9] @ ''cart ou une r'' @ [CHR 0xE9] @ ''serve</summary>'') @ [10] @
      lit ''    <label for='' @ ident ''status-'' @ lit (''>Autre r'' @ [CHR 0xE9] @ ''sultat pour '') @ tc_id i @
      lit ''</label>'' @ [10] @
      lit ''    <select id='' @ ident ''status-'' @ lit ''>'' @ option_tag ''todo'' ([CHR 0xC0] @ '' faire'') @
      option_tag ''fail'' ([CHR 0xC9] @ ''chec'') @ option_tag ''blocked'' (''Bloqu'' @ [CHR 0xE9]) @
      option_tag ''na'' ''Sans objet'' @ lit ''</select>'' @ [10] @
      lit ''    <label for='' @ ident ''note-'' @ lit ''>Notes pour '' @ tc_id i @
      lit ('' : r'' @ [CHR 0xE9] @ ''sultat observ'' @ [CHR 0xE9] @ '', reproduction, r'' @ [CHR 0xE9] @ ''serve</label>'') @ [10] @
      lit ''    <textarea id='' @ ident ''note-'' @ lit '' rows='' @ quoted (lit ''3'') @ lit ''></textarea>'' @ [10] @
      lit ''    <p class='' @ quoted (lit ''print-note print-only'') @ lit ''></p>'' @ [10] @
      lit ''  </details>'' @ [10] @ lit ''</article>'')"

definition renderNav :: "nat \<Rightarrow> sheet_section \<Rightarrow> units" where
  "renderNav n s =
     lit ''<li><a href='' @ quoted (lit (''#section-'' @ nat_str n)) @ lit ''>'' @ esc (ss_title s) @
     lit ''</a></li>''"

definition renderNavs :: "sheet_section list \<Rightarrow> units" where
  "renderNavs secs = concat (map (\<lambda>(n, s). renderNav n s) (List.enumerate 0 secs))"

definition renderSection :: "nat \<Rightarrow> sheet_section \<Rightarrow> units" where
  "renderSection n s =
     lit ''<section class='' @ quoted (lit ''section'') @ lit '' id='' @ quoted (lit (''section-'' @ nat_str n)) @
     lit '' aria-labelledby='' @ quoted (lit (''title-'' @ nat_str n)) @ lit ''><h2 id='' @
     quoted (lit (''title-'' @ nat_str n)) @ lit ''>'' @ esc (ss_title s) @ lit ''</h2>'' @
     concat (map (\<lambda>c. lit ''<p class='' @ quoted (lit ''section-context'') @ lit ''>'' @ esc c @ lit ''</p>'') (ss_context s)) @
     lit ''<p class='' @ quoted (lit ''section-count'') @ lit ''></p>'' @
     concat (map renderCase (ss_items s)) @ lit ''</section>''"

definition renderSections :: "sheet_section list \<Rightarrow> units" where
  "renderSections secs = concat (map (\<lambda>(n, s). renderSection n s) (List.enumerate 0 secs))"

text \<open>
  The page that the browser builds: one row per test. Identifiers are ASCII; the other texts are
  read by \<open>shown\<close> in the strings of the page.
\<close>

definition ident_string :: "units \<Rightarrow> string" where
  "ident_string t = map char_of t"

definition page_row :: "(units \<Rightarrow> string) \<Rightarrow> test_case \<Rightarrow> test_row" where
  "page_row shown i = fresh_row (ident_string (tc_id i)) (shown (search_text i))"

definition page_of :: "(units \<Rightarrow> string) \<Rightarrow> units \<Rightarrow> sheet_section list \<Rightarrow> sheet" where
  "page_of shown reference secs =
     fresh_sheet (shown reference) (map (\<lambda>s. map (page_row shown) (ss_items s)) secs)"

subsection \<open>Escaped texts\<close>

definition esc_unit :: "nat \<Rightarrow> units" where
  "esc_unit c =
     (if c = 38 then lit ''&amp;'' else if c = 60 then lit ''&lt;'' else if c = 62 then lit ''&gt;''
      else if c = 34 then lit ''&quot;'' else if c = 39 then lit ''&#39;'' else [c])"

lemma replace_concat:
  "replace_unit c t (concat (map f s)) = concat (map (\<lambda>x. replace_unit c t (f x)) s)"
  by (induction s) (simp_all add: replace_unit_def)

lemma esc_by_unit: "esc s = concat (map esc_unit s)"
proof -
  have "s = concat (map (\<lambda>x. [x]) s)" by (induction s) simp_all
  then have "esc s = esc (concat (map (\<lambda>x. [x]) s))" by simp
  also have "\<dots> = concat (map esc_unit s)"
    unfolding esc_def replace_concat
    by (intro arg_cong [where f = concat] map_cong refl)
      (simp add: replace_unit_def esc_unit_def lit_def)
  finally show ?thesis .
qed

lemma esc_safe: "c \<in> set (esc s) \<Longrightarrow> c \<notin> {60, 62, 34, 39}"
proof -
  have "set (esc_unit d) \<inter> {60, 62, 34, 39} = {}" for d by (simp add: esc_unit_def lit_def)
  then show "c \<in> set (esc s) \<Longrightarrow> c \<notin> {60, 62, 34, 39}" by (fastforce simp: esc_by_unit)
qed

lemma esc_disjoint: "set (esc s) \<inter> {60, 62, 34, 39} = {}"
  using esc_safe by blast

lemma esc_inject: "esc s = esc t \<longleftrightarrow> s = t"
proof
  show "esc s = esc t \<Longrightarrow> s = t"
  proof (induction s arbitrary: t)
    case Nil
    then show ?case by (cases t) (auto simp: esc_by_unit esc_unit_def lit_def split: if_splits)
  next
    case (Cons c s)
    then obtain d t' where t: "t = d # t'"
      by (cases t) (auto simp: esc_by_unit esc_unit_def lit_def split: if_splits)
    with Cons.prems have e: "esc_unit c @ esc s = esc_unit d @ esc t'" by (simp add: esc_by_unit)
    then have "c = d" by (auto simp: esc_unit_def lit_def split: if_splits)
    with e t Cons.IH show ?case by auto
  qed
qed simp

subsection \<open>Texts in the page\<close>

text \<open>
  The characters of a rendered part that markup is made of, and the same sections with every text of
  the source taken out of them: what stays is the shape the generator gives the page.
\<close>

definition markup :: "units \<Rightarrow> units" where
  "markup t = filter (\<lambda>c. c = 60 \<or> c = 62 \<or> c = 34 \<or> c = 39) t"

definition blank_test :: "test_case \<Rightarrow> test_case" where
  "blank_test i = i\<lparr>tc_title := [], tc_action := Some [], tc_expected := Some []\<rparr>"

definition blank_section :: "sheet_section \<Rightarrow> sheet_section" where
  "blank_section s = \<lparr>ss_title = [], ss_context = map (\<lambda>_. []) (ss_context s),
     ss_items = map blank_test (ss_items s)\<rparr>"

lemma markup_append [simp]: "markup (s @ t) = markup s @ markup t"
  by (simp add: markup_def)

lemma markup_esc [simp]: "markup (esc t) = []" "markup (quoted (esc t)) = [34, 34]"
  using esc_disjoint [of t] by (auto simp: markup_def quoted_def filter_empty_conv)

lemma markup_concat:
  "(\<And>x. markup (f x) = markup (g x)) \<Longrightarrow> markup (concat (map f xs)) = markup (concat (map g xs))"
  by (induction xs) (simp_all add: markup_def)

lemma markup_case: "markup (renderCase i) = markup (renderCase (blank_test i))"
  unfolding renderCase_def Let_def markup_append markup_esc by (simp add: blank_test_def)

lemma markup_section: "markup (renderSection n s) = markup (renderSection n (blank_section s))"
proof -
  have "markup (concat (map renderCase xs)) = markup (concat (map renderCase (map blank_test xs)))" for xs
    unfolding list.map_comp by (rule markup_concat) (simp add: markup_case [symmetric])
  moreover have "markup (concat (map (\<lambda>c. a @ esc c @ b) cs)) =
      markup (concat (map (\<lambda>c. a @ esc c @ b) (map (\<lambda>_. []) cs)))" for a b cs
    unfolding list.map_comp by (rule markup_concat) simp
  from this [of "lit ''<p class='' @ quoted (lit ''section-context'') @ lit ''>''"]
  have "markup (concat (map (\<lambda>c. lit ''<p class='' @ quoted (lit ''section-context'') @ lit ''>'' @ esc c @
        lit ''</p>'') cs)) =
      markup (concat (map (\<lambda>c. lit ''<p class='' @ quoted (lit ''section-context'') @ lit ''>'' @ esc c @
        lit ''</p>'') (map (\<lambda>_. []) cs)))" for cs
    by simp
  ultimately show ?thesis
    unfolding renderSection_def markup_append markup_esc by (simp add: blank_section_def del: append.simps)
qed

lemma markup_sections:
  "markup (renderSections secs) = markup (renderSections (map blank_section secs))"
  "markup (renderNavs secs) = markup (renderNavs (map blank_section secs))"
proof -
  have e: "List.enumerate n (map f xs) = map (\<lambda>(k, x). (k, f x)) (List.enumerate n xs)" for n f xs
    by (induction xs arbitrary: n) simp_all
  show "markup (renderSections secs) = markup (renderSections (map blank_section secs))"
    unfolding renderSections_def e list.map_comp
    by (rule markup_concat) (simp add: case_prod_beta markup_section [symmetric])
  show "markup (renderNavs secs) = markup (renderNavs (map blank_section secs))"
    unfolding renderNavs_def e list.map_comp
    by (rule markup_concat) (simp add: case_prod_beta renderNav_def)
qed

text \<open>The texts of a part, read as a browser does: what stands between a tag and the next one.\<close>

definition text_nodes :: "units \<Rightarrow> units list" where
  "text_nodes page = map (\<lambda>part. drop 1 (dropWhile (\<lambda>c. c \<noteq> 62) part)) (split_units 60 page)"

definition text_in :: "units \<Rightarrow> units \<Rightarrow> bool" where
  "text_in page t \<longleftrightarrow> (\<exists>a tag b. page = a @ 60 # tag @ 62 # t @ 60 # b \<and> 60 \<notin> set tag \<and> 62 \<notin> set tag \<and>
     60 \<notin> set t)"

lemma split_parts: "set (split_units c r) \<subseteq> set (tl (split_units c (a @ c # r)))"
  by (induction a) (auto split: list.splits)

lemma split_parts_in: "x \<in> set (split_units c r) \<Longrightarrow> x \<in> set (split_units c (a @ c # r))"
  using split_parts [of c r a] by (metis list.sel(2) list.set_sel(2) subsetD)

lemma split_first: "c \<notin> set t \<Longrightarrow> split_units c (t @ c # s) = t # split_units c s"
  by (induction t) auto

lemma text_in_nodes:
  assumes "text_in page t"
  shows "t \<in> set (text_nodes page)"
proof -
  obtain a tag b where page: "page = a @ 60 # tag @ 62 # t @ 60 # b"
    and tag: "60 \<notin> set tag" "62 \<notin> set tag" "60 \<notin> set t"
    using assms by (auto simp: text_in_def)
  have "tag @ 62 # t \<in> set (split_units 60 page)"
    unfolding page using split_first [of 60 "tag @ 62 # t" b] tag by (intro split_parts_in) simp
  moreover have "drop 1 (dropWhile (\<lambda>c. c \<noteq> 62) (tag @ 62 # t)) = t"
    using tag(2) by (induction tag) auto
  ultimately show ?thesis unfolding text_nodes_def by force
qed

lemma text_in_skip: "text_in x t \<Longrightarrow> text_in (u @ x) t"
  unfolding text_in_def by (metis append.assoc)

lemma text_in_more: "text_in x t \<Longrightarrow> text_in (x @ v) t"
  unfolding text_in_def by fastforce

lemma text_in_concat: "x \<in> set xs \<Longrightarrow> text_in (f x) t \<Longrightarrow> text_in (concat (map f xs)) t"
proof -
  assume x: "x \<in> set xs" and t: "text_in (f x) t"
  obtain ys zs where xs: "xs = ys @ x # zs" using split_list [OF x] by blast
  have "text_in (concat (map f ys) @ f x @ concat (map f zs)) t" by (intro text_in_skip text_in_more t)
  then show "text_in (concat (map f xs)) t" by (simp add: xs)
qed

lemma text_inI:
  "60 \<notin> set tag \<Longrightarrow> 62 \<notin> set tag \<Longrightarrow> 60 \<notin> set t \<Longrightarrow> text_in (60 # tag @ 62 # t @ 60 # b) t"
  unfolding text_in_def by fastforce

lemma esc_no_tag [simp]: "60 \<notin> set (esc t)"
  using esc_disjoint [of t] by blast

lemma shown_title: "text_in (lit ''</span> '' @ esc t @ lit ''</span></label>'' @ v) (32 # esc t)"
  using text_inI [of "lit ''/span''" "32 # esc t" "lit ''/span></label>'' @ v"] by (simp add: lit_def)

lemma shown_step: "text_in (lit ''</strong> '' @ esc t @ lit ''</p>'' @ v) (32 # esc t)"
  using text_inI [of "lit ''/strong''" "32 # esc t" "lit ''/p>'' @ v"] by (simp add: lit_def)

lemma shown_action: "text_in (lit ''  <p><strong>Faire.</strong> '' @ esc t @ lit ''</p>'' @ v) (32 # esc t)"
  using text_in_skip [OF shown_step [of t v], of "lit ''  <p><strong>Faire.''"] by (simp add: lit_def)

lemma shown_expected: "text_in (lit ''  <p><strong>Attendu.</strong> '' @ esc t @ lit ''</p>'' @ v) (32 # esc t)"
  using text_in_skip [OF shown_step [of t v], of "lit ''  <p><strong>Attendu.''"] by (simp add: lit_def)

lemma case_texts:
  "text_in (renderCase i) (32 # esc (tc_title i))"
  "text_in (renderCase i) (32 # esc (text_of (tc_action i)))"
  "text_in (renderCase i) (32 # esc (text_of (tc_expected i)))"
  unfolding renderCase_def Let_def by (rule shown_title shown_action shown_expected text_in_skip)+

subsection \<open>What is read\<close>

definition id_ok :: "units \<Rightarrow> bool" where
  "id_ok t \<longleftrightarrow> takeWhile is_upper t \<noteq> [] \<and> dropWhile is_upper t \<noteq> [] \<and>
     list_all is_decimal (dropWhile is_upper t)"

definition test_ok :: "test_case \<Rightarrow> bool" where
  "test_ok i \<longleftrightarrow> id_ok (tc_id i) \<and> tc_title i \<noteq> [] \<and> list_all (\<lambda>c. \<not> ends_line c) (tc_title i)"

lemma not_both: "is_decimal c \<Longrightarrow> \<not> is_upper c"
  by (simp add: is_decimal_def is_upper_def)

lemma id_ok_parts:
  assumes "list_all is_upper a" "a \<noteq> []" "list_all is_decimal b" "b \<noteq> []"
  shows "takeWhile is_upper (a @ b @ r) = a \<and> dropWhile is_upper (a @ b @ r) = b @ r" and "id_ok (a @ b)"
proof -
  show p: "takeWhile is_upper (a @ b @ r) = a \<and> dropWhile is_upper (a @ b @ r) = b @ r" for r
  proof -
    obtain d b' where "b = d # b'" "\<not> is_upper d" using assms(3,4) not_both by (cases b) auto
    then show ?thesis using assms(1) by (simp add: list_all_iff)
  qed
  from p [of "[]"] assms show "id_ok (a @ b)" by (simp add: id_ok_def)
qed

lemma match_test_ok:
  assumes "match_test line = Some m"
  shows "test_ok (new_test m)"
proof -
  define r where "r = drop (length test_mark) line"
  let ?a = "takeWhile is_upper r" and ?b = "takeWhile is_decimal (dropWhile is_upper r)"
  have m: "?a \<noteq> []" "?b \<noteq> []" "fst m = ?a @ ?b" "snd m \<noteq> []" "list_all (\<lambda>c. \<not> ends_line c) (snd m)"
    using assms unfolding match_test_def Let_def r_def [symmetric] by (auto split: if_splits)
  have "list_all is_upper ?a" "list_all is_decimal ?b" by (auto simp: list_all_iff dest: set_takeWhileD)
  with m show ?thesis by (simp add: test_ok_def new_test_def id_ok_parts)
qed

definition sections_ok :: "sheet_section list \<Rightarrow> bool" where
  "sections_ok secs \<longleftrightarrow> (\<forall>i \<in> set (all_items secs). test_ok i)"

lemma sheet_line_ok:
  assumes "sections_ok secs" and "sheet_line line secs = Inr t"
  shows "sections_ok t"
proof -
  have item: "sections_ok u"
    if "in_item f secs = Inr u" "\<And>i. test_ok i \<Longrightarrow> test_ok (f i)" for f u
  proof -
    note h = that
    obtain s rest where s: "secs = s # rest" "ss_items s \<noteq> []"
      and u: "u = s\<lparr>ss_items := butlast (ss_items s) @ [f (last (ss_items s))]\<rparr> # rest"
      using h(1) by (cases secs) (auto simp: in_item_def split: if_splits)
    have "\<forall>i \<in> set (ss_items s). test_ok i" using assms(1) s by (simp add: sections_ok_def all_items_def)
    then have "\<forall>i \<in> set (butlast (ss_items s)). test_ok i" "test_ok (f (last (ss_items s)))"
      using s(2) by (auto dest: in_set_butlastD intro: h(2))
    with assms(1) s u show ?thesis by (auto simp: sections_ok_def all_items_def)
  qed
  show ?thesis
    using assms item [of "\<lambda>i. i\<lparr>tc_action := Some (drop 11 line)\<rparr>"]
      item [of "\<lambda>i. i\<lparr>tc_expected := Some (drop 12 line)\<rparr>"] match_test_ok
    by (auto simp: sheet_line_def sections_ok_def all_items_def new_section_def in_section_def test_ok_def
        split: if_splits option.splits list.splits)
qed

lemma sheet_lines_ok: "sheet_lines ls secs = Inr t \<Longrightarrow> sections_ok secs \<Longrightarrow> sections_ok t"
  by (induction ls arbitrary: secs) (auto split: sum.splits intro: sheet_line_ok)

lemma check_items_iff:
  "check_items n secs = Inr t \<longleftrightarrow>
     t = secs \<and> n \<le> length (all_items secs) \<and> distinct (map tc_id (all_items secs)) \<and>
     (\<forall>i \<in> set (all_items secs). complete_test i)"
proof -
  have "length (js_set xs) = length xs \<longleftrightarrow> distinct xs" for xs :: "units list"
    by (metis card_distinct distinct_card distinct_js_set js_set_id set_js_set)
  then have d: "length (js_set (map tc_id (all_items secs))) = length (all_items secs) \<longleftrightarrow>
      distinct (map tc_id (all_items secs))"
    by (metis length_map)
  show ?thesis
    by (auto simp: check_items_def Let_def d find_None_iff split: option.splits dest: find_SomeD)
qed

subsection \<open>A source is read as it was written\<close>

text \<open>The Markdown of a reference and its sections, as the documentation writes it.\<close>

definition item_lines :: "test_case \<Rightarrow> units list" where
  "item_lines i =
     [test_mark @ tc_id i @ dash @ tc_title i @ stars, action_mark @ text_of (tc_action i),
      expected_mark @ text_of (tc_expected i), []]"

definition section_lines :: "sheet_section \<Rightarrow> units list" where
  "section_lines s =
     (section_mark @ ss_title s) # [] # ss_context s @ [] # concat (map item_lines (ss_items s))"

fun join_units :: "nat \<Rightarrow> units list \<Rightarrow> units" where
  "join_units c [] = []"
| "join_units c [l] = l"
| "join_units c (l # m # ls) = l @ c # join_units c (m # ls)"

definition sheet_source :: "units \<Rightarrow> sheet_section list \<Rightarrow> units" where
  "sheet_source reference secs =
     join_units 10 ((reference_mark @ reference @ [96]) # [] # concat (map section_lines secs))"

definition one_line :: "units \<Rightarrow> bool" where
  "one_line t \<longleftrightarrow> 10 \<notin> set t"

definition section_written :: "sheet_section \<Rightarrow> bool" where
  "section_written s \<longleftrightarrow>
     one_line (ss_title s) \<and> list_all (\<lambda>c. context_line c \<and> one_line c) (ss_context s) \<and>
     list_all (\<lambda>i. test_ok i \<and> complete_test i \<and> one_line (text_of (tc_action i)) \<and>
       one_line (text_of (tc_expected i))) (ss_items s)"

lemma split_nonempty [simp]: "split_units c s \<noteq> []"
  by (induction s) (auto split: list.splits)

lemma split_plain: "c \<notin> set t \<Longrightarrow> split_units c (t @ c # s) = t # split_units c s"
  by (induction t) auto

lemma split_one: "c \<notin> set t \<Longrightarrow> split_units c t = [t]"
  by (induction t) auto

lemma split_join: "ls \<noteq> [] \<Longrightarrow> \<forall>l \<in> set ls. c \<notin> set l \<Longrightarrow> split_units c (join_units c ls) = ls"
  by (induction c ls rule: join_units.induct) (auto simp: split_plain split_one)

lemma begins_hd: "begins s (c # p) \<Longrightarrow> s \<noteq> [] \<and> hd s = c"
  by (cases s) (auto simp: begins_def)

lemma begins_append [simp]: "begins (p @ s) p"
  by (simp add: begins_def)

lemmas marks = section_mark_def test_mark_def action_mark_def expected_mark_def stars_def lit_def

lemma context_no_section: "context_line c \<Longrightarrow> \<not> begins c section_mark"
  by (auto simp: context_line_def marks dest!: begins_hd)

lemma line_kinds:
  "\<not> begins (test_mark @ t) section_mark" "\<not> context_line (test_mark @ t)"
  "\<not> begins (action_mark @ t) section_mark" "\<not> context_line (action_mark @ t)"
  "\<not> begins (action_mark @ t) test_mark"
  "\<not> begins (expected_mark @ t) section_mark" "\<not> context_line (expected_mark @ t)"
  "\<not> begins (expected_mark @ t) test_mark" "\<not> begins (expected_mark @ t) action_mark"
  "\<not> begins (reference_mark @ t) section_mark" "\<not> context_line (reference_mark @ t)"
  "\<not> begins (reference_mark @ t) test_mark" "\<not> begins (reference_mark @ t) action_mark"
  "\<not> begins (reference_mark @ t) expected_mark"
  by (simp_all add: begins_def context_line_def reference_mark_def marks)

lemma empty_line [simp]: "sheet_line [] secs = Inr secs"
  by (simp add: sheet_line_def begins_def context_line_def marks)

lemma mark_lengths: "length action_mark = 11" "length expected_mark = 12" "length section_mark = 3"
  by (simp_all add: marks)

lemma match_written:
  assumes "test_ok i"
  shows "match_test (test_mark @ tc_id i @ dash @ tc_title i @ stars) = Some (tc_id i, tc_title i)"
proof -
  let ?a = "takeWhile is_upper (tc_id i)" and ?b = "dropWhile is_upper (tc_id i)"
  have ab: "?a \<noteq> []" "?b \<noteq> []" "list_all is_decimal ?b" and title: "tc_title i \<noteq> []" "list_all (\<lambda>c. \<not> ends_line c) (tc_title i)"
    using assms by (simp_all add: test_ok_def id_ok_def)
  have "list_all is_upper ?a" by (auto simp: list_all_iff dest: set_takeWhileD)
  note parts = id_ok_parts(1) [OF this ab(1,3,2)]
  let ?rest = "dash @ tc_title i @ stars"
  have r: "tc_id i @ ?rest = ?a @ ?b @ ?rest" by (metis append_assoc takeWhile_dropWhile_id)
  have e: "takeWhile is_upper (tc_id i @ ?rest) = ?a" "dropWhile is_upper (tc_id i @ ?rest) = ?b @ ?rest"
    by (simp_all only: r parts)
  have d: "takeWhile is_decimal (?b @ ?rest) = ?b" "dropWhile is_decimal (?b @ ?rest) = ?rest"
    using ab(3) by (simp_all add: dash_def is_decimal_def list_all_iff)
  have "length stars = 2" by (simp add: stars_def)
  then show ?thesis
    using ab title by (simp add: match_test_def Let_def e d)
qed

lemma item_line_read:
  "test_ok i \<Longrightarrow> sheet_line (test_mark @ tc_id i @ dash @ tc_title i @ stars) (s # rest) =
     Inr (s\<lparr>ss_items := ss_items s @ [new_test (tc_id i, tc_title i)]\<rparr> # rest)"
  "sheet_line (action_mark @ t) (s\<lparr>ss_items := xs @ [x]\<rparr> # rest) =
     Inr (s\<lparr>ss_items := xs @ [x\<lparr>tc_action := Some t\<rparr>]\<rparr> # rest)"
  "sheet_line (expected_mark @ t) (s\<lparr>ss_items := xs @ [x]\<rparr> # rest) =
     Inr (s\<lparr>ss_items := xs @ [x\<lparr>tc_expected := Some t\<rparr>]\<rparr> # rest)"
  using mark_lengths
  by (simp_all add: sheet_line_def line_kinds in_section_def in_item_def match_written)

lemma item_read:
  assumes "test_ok i" "complete_test i"
  shows "sheet_lines (item_lines i @ ls) (s # rest) = sheet_lines ls (s\<lparr>ss_items := ss_items s @ [i]\<rparr> # rest)"
proof -
  obtain a e where ae: "tc_action i = Some a" "tc_expected i = Some e"
    using assms(2) by (auto simp: complete_test_def present_def split: option.splits)
  then have "(new_test (tc_id i, tc_title i))\<lparr>tc_action := Some a, tc_expected := Some e\<rparr> = i"
    by (cases i) (simp add: new_test_def)
  then show ?thesis using ae assms(1) by (simp add: item_lines_def text_of_def item_line_read)
qed

lemma items_read:
  "list_all (\<lambda>i. test_ok i \<and> complete_test i) items \<Longrightarrow>
     sheet_lines (concat (map item_lines items) @ ls) (s # rest) =
     sheet_lines ls (s\<lparr>ss_items := ss_items s @ items\<rparr> # rest)"
  by (induction items arbitrary: s) (simp_all add: item_read)

lemma context_read:
  "list_all context_line cs \<Longrightarrow>
     sheet_lines (cs @ ls) (s # rest) = sheet_lines ls (s\<lparr>ss_context := ss_context s @ cs\<rparr> # rest)"
  by (induction cs arbitrary: s) (simp_all add: sheet_line_def context_no_section in_section_def)

lemma section_read:
  assumes "section_written s"
  shows "sheet_lines (section_lines s @ ls) secs = sheet_lines ls (s # secs)"
proof -
  have c: "list_all context_line (ss_context s)" and i: "list_all (\<lambda>i. test_ok i \<and> complete_test i) (ss_items s)"
    using assms by (auto simp: section_written_def list_all_iff)
  have "begins (section_mark @ ss_title s) section_mark" by simp
  then have "sheet_line (section_mark @ ss_title s) secs = Inr (new_section (ss_title s) # secs)"
    using mark_lengths(3) by (simp add: sheet_line_def)
  then show ?thesis
    by (simp add: section_lines_def context_read [OF c] items_read [OF i] new_section_def)
      (cases s; simp)
qed

lemma sections_read:
  "list_all section_written secs \<Longrightarrow>
     sheet_lines (concat (map section_lines secs)) acc = Inr (rev secs @ acc)"
  by (induction secs arbitrary: acc) (simp_all add: section_read)

definition sheet_written :: "units \<Rightarrow> sheet_section list \<Rightarrow> bool" where
  "sheet_written reference secs \<longleftrightarrow>
     reference \<noteq> [] \<and> 96 \<notin> set reference \<and> one_line reference \<and> list_all section_written secs \<and>
     all_items secs \<noteq> [] \<and> distinct (map tc_id (all_items secs))"

lemma find_here: "reference_here s = Some t \<Longrightarrow> find_reference s = Some t"
  by (cases s) simp_all

lemma reference_written:
  assumes "reference \<noteq> []" "96 \<notin> set reference"
  shows "find_reference (reference_mark @ reference @ 96 # s) = Some reference"
proof (rule find_here)
  have "takeWhile (\<lambda>c. c \<noteq> 96) (reference @ 96 # s) = reference"
    using assms(2) by (induction reference) auto
  then show "reference_here (reference_mark @ reference @ 96 # s) = Some reference"
    using assms(1) by (simp add: reference_here_def Let_def)
qed

lemma id_ok_one_line: "id_ok t \<Longrightarrow> one_line t"
proof -
  assume "id_ok t"
  then have d: "list_all is_decimal (dropWhile is_upper t)" by (simp add: id_ok_def)
  have "10 \<notin> set (takeWhile is_upper t)" by (auto simp: is_upper_def dest: set_takeWhileD)
  moreover have "10 \<notin> set (dropWhile is_upper t)" using d by (auto simp: list_all_iff is_decimal_def)
  moreover have "set t = set (takeWhile is_upper t) \<union> set (dropWhile is_upper t)"
    by (metis set_append takeWhile_dropWhile_id)
  ultimately show "one_line t" by (simp add: one_line_def)
qed

lemma written_lines:
  assumes "section_written s" and "l \<in> set (section_lines s)"
  shows "10 \<notin> set l"
proof -
  have "one_line (tc_title i)" if "test_ok i" for i
    using that by (auto simp: test_ok_def one_line_def list_all_iff ends_line_def)
  moreover have "one_line (tc_id i)" if "test_ok i" for i using that id_ok_one_line by (simp add: test_ok_def)
  ultimately have "10 \<notin> set l" if "test_ok i" "one_line (text_of (tc_action i))"
      "one_line (text_of (tc_expected i))" "l \<in> set (item_lines i)" for i
    using that by (auto simp: item_lines_def one_line_def dash_def marks)
  with assms show ?thesis
    by (auto simp: section_written_def section_lines_def one_line_def list_all_iff section_mark_def lit_def)
qed

lemma written_split:
  assumes "sheet_written reference secs"
  shows "split_units 10 (sheet_source reference secs) =
    (reference_mark @ reference @ [96]) # [] # concat (map section_lines secs)"
  unfolding sheet_source_def
proof (rule split_join)
  have "10 \<notin> set reference_mark" by (simp add: reference_mark_def lit_def)
  with assms written_lines
  show "\<forall>l \<in> set ((reference_mark @ reference @ [96]) # [] # concat (map section_lines secs)). 10 \<notin> set l"
    by (auto simp: sheet_written_def one_line_def list_all_iff)
qed simp

lemma written_complete: "section_written s \<Longrightarrow> \<forall>i \<in> set (ss_items s). complete_test i"
  by (simp add: section_written_def list_all_iff)

lemma written_read:
  assumes "sheet_written reference secs"
  shows "read_sheet True True (sheet_source reference secs) = Inr (reference, secs)"
proof -
  have w: "list_all section_written secs" using assms by (simp add: sheet_written_def)
  have "sheet_source reference secs =
      reference_mark @ reference @ 96 # 10 # join_units 10 ([] # concat (map section_lines secs))"
    by (simp add: sheet_source_def)
  then have "find_reference (sheet_source reference secs) = Some reference"
    using assms by (simp add: sheet_written_def reference_written)
  moreover have "sheet_lines (split_units 10 (sheet_source reference secs)) [] = Inr (rev secs)"
    by (simp add: written_split [OF assms] sections_read [OF w] sheet_line_def line_kinds)
      (simp add: sections_read [OF w] begins_def context_line_def marks)
  moreover have "check_items 1 secs = Inr secs"
    using assms written_complete
    by (auto simp: check_items_iff sheet_written_def all_items_def list_all_iff Suc_le_eq)
  ultimately show ?thesis by (simp add: read_sheet_def)
qed

definition sample_reference :: units where
  "sample_reference = lit ''aee184c''"

definition sample_tests :: "sheet_section list" where
  "sample_tests =
     [\<lparr>ss_title = lit ''Envoi'', ss_context = [lit ''Lots : lot 2'', lit (''Pr'' @ [CHR 0xE9] @ ''paration : aucune'')],
       ss_items =
         [\<lparr>tc_id = lit ''E01'', tc_title = [66, 8212, 67], tc_action = Some (lit ''Faire <b>''),
           tc_expected = Some (lit ''Voir'')\<rparr>]\<rparr>,
      \<lparr>ss_title = lit ''Suite'', ss_context = [], ss_items = []\<rparr>]"

lemma sample_tests_written: "sheet_written sample_reference sample_tests"
  by (simp add: sheet_written_def sample_reference_def sample_tests_def lit_def one_line_def
      section_written_def context_line_def begins_def test_ok_def id_ok_def is_upper_def is_decimal_def
      ends_line_def complete_test_def present_def text_of_def all_items_def)

text \<open>
  C22. The generator reads a checklist exactly: from the Markdown of a reference and of sections
  with their context lines and tests, whose identifiers are distinct, it returns that reference and
  those sections, in order, with every identifier, title, action and expectation as written.
\<close>
theorem sheet_source_read:
  assumes "sheet_written reference secs"
  shows "read_sheet True True (sheet_source reference secs) = Inr (reference, secs)"
  by (rule written_read [OF assms])

theorem sheet_source_read_witness:
  "read_sheet True True (sheet_source sample_reference sample_tests) = Inr (sample_reference, sample_tests)"
  by (rule sheet_source_read [OF sample_tests_written])

text \<open>The characters of an identifier stand for themselves in the strings of the page.\<close>

lemma ident_inj: "inj_on ident_string {t. id_ok t}"
proof (rule inj_onI)
  fix t u assume t: "t \<in> {t. id_ok t}" and u: "u \<in> {t. id_ok t}" and e: "ident_string t = ident_string u"
  have "map of_char (ident_string v) = v" if "id_ok v" for v
  proof -
    have "\<forall>c \<in> set v. c < 256"
    proof
      fix c assume "c \<in> set v"
      then have "c \<in> set (takeWhile is_upper v) \<or> c \<in> set (dropWhile is_upper v)"
        by (metis Un_iff set_append takeWhile_dropWhile_id)
      with that show "c < 256"
        by (auto simp: id_ok_def list_all_iff is_decimal_def is_upper_def dest: set_takeWhileD)
    qed
    then show ?thesis by (simp add: ident_string_def comp_def map_idI)
  qed
  with t u e show "t = u" by (metis mem_Collect_eq)
qed

lemma ident_not_index: "id_ok t \<Longrightarrow> \<not> is_index (ident_string t)"
proof -
  assume "id_ok t"
  then obtain c r where t: "t = c # r" "is_upper c"
    by (cases t) (auto simp: id_ok_def split: if_splits)
  then have "(of_char (char_of c :: char) :: nat) = c" by (simp add: is_upper_def)
  moreover have "is_digit d \<Longrightarrow> (of_char d :: nat) < 65" for d by (auto simp: is_digit_def)
  ultimately have "\<not> is_digit (char_of c)" using t(2) by (fastforce simp: is_upper_def)
  with t show ?thesis by (simp add: is_index_def ident_string_def)
qed

lemma page_rows: "sheet_rows (page_of shown reference secs) = map (page_row shown) (all_items secs)"
  by (simp add: page_of_def fresh_sheet_def sheet_rows_def all_items_def map_concat comp_def)

lemma fresh_row_ok: "row_ok (fresh_row k t)"
  by (simp add: fresh_row_def row_ok_def status_options_def)

lemma page_of_ok:
  assumes "sections_ok secs" and "distinct (map tc_id (all_items secs))"
  shows "sheet_ok (page_of shown reference secs)"
proof -
  have ids: "row_ids (page_of shown reference secs) = map ident_string (map tc_id (all_items secs))"
    by (simp add: row_ids_def page_rows page_row_def fresh_row_def comp_def)
  have ok: "set (map tc_id (all_items secs)) \<subseteq> {t. id_ok t}"
    using assms(1) by (auto simp: sections_ok_def test_ok_def)
  have "distinct (map ident_string (map tc_id (all_items secs)))"
    using assms(2) inj_on_subset [OF ident_inj ok] by (simp only: distinct_map)
  moreover have "meta_control k [] = []" for k
    by (simp add: meta_control_def text_control_def date_control_def select_control_def)
  ultimately show ?thesis
    using ok ident_not_index
    by (auto simp: sheet_ok_def ids page_rows page_row_def fresh_row_ok)
      (auto simp: page_of_def fresh_sheet_def)
qed

lemma nat_str_no_tag [simp]: "c = 60 \<or> c = 62 \<Longrightarrow> c \<notin> set (lit (nat_str n))"
proof -
  have "of_char d \<notin> {60, 62 :: nat}" if "is_digit d" for d using that by (auto simp: is_digit_def)
  then show "c = 60 \<or> c = 62 \<Longrightarrow> c \<notin> set (lit (nat_str n))"
    using nat_str_digits [of n] by (auto simp: lit_def list_all_iff)
qed

lemma section_texts:
  "text_in (renderSection n s) (esc (ss_title s))"
  "c \<in> set (ss_context s) \<Longrightarrow> text_in (renderSection n s) (esc c)"
  "i \<in> set (ss_items s) \<Longrightarrow> text_in (renderCase i) t \<Longrightarrow> text_in (renderSection n s) t"
proof -
  have l: "lit (a @ b) = lit a @ lit b" for a b by (simp add: lit_def)
  have h: "text_in (lit ''><h2 id='' @ quoted (lit (''title-'' @ nat_str n)) @ lit ''>'' @ esc t @ lit ''</h2>'' @ v)
      (esc t)" for t v
    using text_in_skip [OF text_inI [of "lit ''h2 id='' @ quoted (lit (''title-'' @ nat_str n))" "esc t" "lit ''/h2>'' @ v"],
        of "lit ''>''"]
    unfolding l quoted_def by (simp add: nat_str_no_tag) (simp add: lit_def)
  show "text_in (renderSection n s) (esc (ss_title s))"
    unfolding renderSection_def by (rule h text_in_skip)+
  have p: "text_in (lit ''<p class='' @ quoted (lit ''section-context'') @ lit ''>'' @ esc c @ lit ''</p>'') (esc c)" for c
    using text_inI [of "lit ''p class='' @ quoted (lit ''section-context'')" "esc c" "lit ''/p>''"]
    by (simp add: lit_def quoted_def)
  show "c \<in> set (ss_context s) \<Longrightarrow> text_in (renderSection n s) (esc c)"
    unfolding renderSection_def
    by (intro text_in_skip text_in_more text_in_concat [of c] p)
  show "i \<in> set (ss_items s) \<Longrightarrow> text_in (renderCase i) t \<Longrightarrow> text_in (renderSection n s) t"
    unfolding renderSection_def
    by (intro text_in_skip text_in_more text_in_concat [of i])
qed

lemma sections_texts:
  assumes "s \<in> set secs" and "\<And>n. text_in (renderSection n s) t"
  shows "t \<in> set (text_nodes (renderSections secs))"
proof -
  obtain n where "n < length secs" "secs ! n = s" using assms(1) by (auto simp: in_set_conv_nth)
  then have "(n, s) \<in> set (List.enumerate 0 secs)" by (simp add: in_set_enumerate_eq)
  then have "text_in (renderSections secs) t"
    unfolding renderSections_def by (rule text_in_concat) (simp add: assms(2))
  then show ?thesis by (rule text_in_nodes)
qed

lemma sections_shown:
  "\<forall>s \<in> set secs. esc (ss_title s) \<in> set (text_nodes (renderSections secs)) \<and>
     (\<forall>c \<in> set (ss_context s). esc c \<in> set (text_nodes (renderSections secs))) \<and>
     (\<forall>i \<in> set (ss_items s). \<forall>t \<in> {tc_title i, text_of (tc_action i), text_of (tc_expected i)}.
        32 # esc t \<in> set (text_nodes (renderSections secs)))"
  using sections_texts section_texts case_texts by blast

text \<open>
  C24. What the generator refuses and what it accepts, and the page it makes. A page is only made of a
  source with a reference, with at least as many tests as asked for (70 for the repository's own
  checklist), whose identifiers are letters then digits, all distinct, and whose tests all have a
  title, an action and an expectation. No text of the source adds markup to the page: the angle
  brackets and quotation marks of the contents and of the sections are, one for one, those of the
  same page with every text taken out. Every text is there to be read nevertheless: the title and the
  context lines of each section and the title, the action and the expectation of each test stand
  between two tags, escaped in a way that different texts stay different. And the page keeps the
  results it collects, as its script requires of the identifiers.
\<close>
theorem generated_sheet_ok:
  assumes "read_sheet with_source with_output source = Inr (reference, secs)"
  shows "with_source = with_output \<and> find_reference source = Some reference \<and>
    (if with_source then 1 else 70) \<le> length (all_items secs) \<and>
    distinct (map tc_id (all_items secs)) \<and>
    (\<forall>i \<in> set (all_items secs). id_ok (tc_id i) \<and> tc_title i \<noteq> [] \<and> complete_test i) \<and>
    markup (renderNavs secs) = markup (renderNavs (map blank_section secs)) \<and>
    markup (renderSections secs) = markup (renderSections (map blank_section secs)) \<and>
    (\<forall>s \<in> set secs. esc (ss_title s) \<in> set (text_nodes (renderSections secs)) \<and>
       (\<forall>c \<in> set (ss_context s). esc c \<in> set (text_nodes (renderSections secs))) \<and>
       (\<forall>i \<in> set (ss_items s). \<forall>t \<in> {tc_title i, text_of (tc_action i), text_of (tc_expected i)}.
          32 # esc t \<in> set (text_nodes (renderSections secs)))) \<and>
    inj esc \<and> sheet_ok (page_of shown reference secs)"
proof -
  obtain ss where eq: "with_source = with_output" "find_reference source = Some reference"
    and lines: "sheet_lines (split_units 10 source) [] = Inr ss"
    and items: "check_items (if with_source then 1 else 70) (rev ss) = Inr secs"
  proof -
    note h = that
    obtain r ss where r: "with_source = with_output" "find_reference source = Some r"
      and l: "sheet_lines (split_units 10 source) [] = Inr ss"
      and c: "map_sum id (Pair r) (check_items (if with_source then 1 else 70) (rev ss)) = Inr (reference, secs)"
      using assms by (auto simp: read_sheet_def split: option.splits sum.splits if_splits)
    from c have "check_items (if with_source then 1 else 70) (rev ss) = Inr secs" "r = reference"
      by (cases "check_items (if with_source then 1 else 70) (rev ss)"; simp)+
    with h r l show thesis by blast
  qed
  have "sections_ok ss" using sheet_lines_ok [OF lines] by (simp add: sections_ok_def all_items_def)
  then have ok: "sections_ok secs" using items by (simp add: check_items_iff sections_ok_def all_items_def)
  show ?thesis
  proof (intro conjI)
    show "with_source = with_output" "find_reference source = Some reference" by (rule eq)+
    show "(if with_source then 1 else 70) \<le> length (all_items secs)" "distinct (map tc_id (all_items secs))"
      using items by (simp_all add: check_items_iff)
    show "\<forall>i \<in> set (all_items secs). id_ok (tc_id i) \<and> tc_title i \<noteq> [] \<and> complete_test i"
      using items ok by (simp add: check_items_iff sections_ok_def test_ok_def)
    show "inj esc" by (simp add: inj_def esc_inject)
    show "sheet_ok (page_of shown reference secs)"
      using items page_of_ok [OF ok] by (simp add: check_items_iff)
  qed (rule markup_sections sections_shown)+
qed

theorem generated_sheet_ok_witness:
  "read_sheet True True (sheet_source sample_reference sample_tests) = Inr (sample_reference, sample_tests) \<and>
   sheet_ok (page_of ident_string sample_reference sample_tests) \<and>
   32 # esc (lit ''Faire <b>'') \<in> set (text_nodes (renderSections sample_tests))"
proof -
  have "sample_tests \<noteq> []" "ss_items (hd sample_tests) \<noteq> []"
    "tc_action (hd (ss_items (hd sample_tests))) = Some (lit ''Faire <b>'')"
    by (simp_all add: sample_tests_def)
  then obtain s i where "s \<in> set sample_tests" "i \<in> set (ss_items s)" "text_of (tc_action i) = lit ''Faire <b>''"
    by (metis hd_in_set option.simps(5) text_of_def)
  then have "32 # esc (lit ''Faire <b>'') \<in> set (text_nodes (renderSections sample_tests))"
    using generated_sheet_ok [OF written_read [OF sample_tests_written], of ident_string]
    by (metis insertCI)
  then show ?thesis
    using written_read [OF sample_tests_written]
      generated_sheet_ok [OF written_read [OF sample_tests_written], of ident_string] by simp
qed

end
