(* ===== verification/Schema_Normalize.thy ===== *)
theory Schema_Normalize
  imports Json
begin

text \<open>
  \<open>generate-openapi.mjs\<close>: what the generator of the API types changes in the schema before the
  parser of schemas reads it. An empty schema of additional properties becomes \<open>true\<close>, which means
  the same; the parser and the formatter are other programs.
\<close>

text \<open>The walk writes in place; a schema read from JSON is a tree, so the result is the new tree.\<close>

fun normalize_schema :: "json \<Rightarrow> json" where
  "normalize_schema (JArr vs) = JArr (map normalize_schema vs)"
| "normalize_schema (JObj ms) =
     JObj (map (\<lambda>(k, v).
       (k, if k = ''additionalProperties'' \<and> v = JObj [] then JBool True else normalize_schema v)) ms)"
| "normalize_schema v = v"

text \<open>No object has an empty schema for its additional properties.\<close>

fun explicit :: "json \<Rightarrow> bool" where
  "explicit (JArr vs) = list_all explicit vs"
| "explicit (JObj ms) =
     list_all (\<lambda>(k, v). \<not> (k = ''additionalProperties'' \<and> v = JObj []) \<and> explicit v) ms"
| "explicit v = True"

lemma normalize_empty: "normalize_schema v = JObj [] \<longleftrightarrow> v = JObj []"
  by (cases v) auto

lemma normalize_explicit: "explicit (normalize_schema j)"
proof (induction j)
  case (JObj ms)
  then show ?case by (auto simp: list_all_iff normalize_empty snds.simps split: if_splits)
qed (auto simp: list_all_iff)

lemma explicit_kept: "explicit j \<Longrightarrow> normalize_schema j = j"
proof (induction j)
  case (JArr vs)
  then show ?case by (auto simp: list_all_iff intro!: map_idI)
next
  case (JObj ms)
  then show ?case by (auto simp: list_all_iff snds.simps intro!: map_idI)
qed simp_all

text \<open>The result is in the normal form, a schema in it is left alone, and no key moves.\<close>

lemma normalize_idem: "normalize_schema (normalize_schema j) = normalize_schema j"
  by (rule explicit_kept [OF normalize_explicit])

lemma normalize_keys: "normalize_schema (JObj ms) = JObj ns \<Longrightarrow> map fst ns = map fst ms"
  by (auto simp: comp_def case_prod_unfold)

lemma normalize_sample:
  "normalize_schema (JObj [(''type'', JStr ''object''), (''additionalProperties'', JObj []),
     (''properties'', JObj [(''data'', JObj [(''additionalProperties'', JObj [(''type'', JStr ''string'')])])])]) =
   JObj [(''type'', JStr ''object''), (''additionalProperties'', JBool True),
     (''properties'', JObj [(''data'', JObj [(''additionalProperties'', JObj [(''type'', JStr ''string'')])])])]"
  by simp

end
