(* ===== verification/Spec2Isabelle.thy ===== *)
theory Spec2Isabelle
  imports Api_Request Auth Paged_Sources Budget_Details Forms Financial_History Users Members Emails
    Mailings Dashboard_Runs Template_Data Crud_Table Budget_Email_Form Tour
    Email_Templates Row_Lists Interactive_Map Inputs Page_Frame Table_Actions
    Dialogs Directory_Columns Routes Sheet_Display Sheet_Generator Schema_Normalize
begin

text \<open>
  A verification development for the web application of the association (Angular and TypeScript,
  \<open>src/frontend/src/app\<close>). The pages are components that call the API service, keep what it
  answers in data sources or fields, and ask for dialogs, navigations and further calls. The
  development models each component as a record of its state with one function per handler: a
  handler takes the event's data and the state, and returns the new state with the calls and
  other effects it asks for, in order. Requests in flight are tickets, so that answers can be
  delivered in any order, late, or never; what a cancelled subscription ignores is an answer to a
  ticket that is no longer awaited.

  The parts, in the order of the imports:

  \<^item> \<open>Prelude\<close>, \<open>Sorting_Js\<close>, \<open>Js_Number\<close>, \<open>Js_Text\<close>: what the code uses of JavaScript. Optional
    values with \<open>??\<close> and truthiness, insertion-ordered sets and maps, the stable \<open>sort\<close> with a
    comparison function (locale \<open>comparator\<close>), numbers as rationals and their printed decimals,
    \<open>trim\<close> and \<open>toLowerCase\<close> on the letters the code meets.
  \<^item> \<open>Json\<close>, \<open>Api_Types\<close>, \<open>Api_Service\<close>, \<open>Api_Request\<close> (\<open>core/api/openapi.ts\<close>,
    \<open>core/services/api.service.ts\<close>): the schemas as records, the endpoint table, one constructor of
    \<open>api_call\<close> per operation that goes through \<open>request\<close>, and the request it makes: URI, query, body,
    answer or error. \<open>service_call\<close> adds the two operations on attachments that build their request by
    hand. C2 and C3 state that the URI is the path with its holes filled and that every request, those
    two included, is declared.
  \<^item> \<open>Data_Sources\<close>, \<open>Paged_Sources\<close> (\<open>shared/datasources\<close>, the sources of e-mails, campaigns and
    users): the locale \<open>latest_source\<close> is the contract of a source that numbers its loads (only the
    answer to the last one counts); the e-mail, campaign and user sources, the budget page, the
    ledger, the mailing plan and the cells of the dashboard interpret it. C4 to C6 are its
    consequences, and what the plain source lacks of it.
  \<^item> \<open>Money_Input\<close>, \<open>Payments\<close> (\<open>budgets/money-input.ts\<close>, \<open>budgets/payment-state.ts\<close>,
    \<open>budgets/datasources\<close>): the validator of amounts against exact cents (C1), the states of a
    payment, the coverage filters and the map classes, on the rows as \<open>ListCotisations\<close> of the server
    (\<open>controllers/budgets.go\<close>) derives them (C7).
  \<^item> \<open>Auth\<close> (\<open>core/services/auth.service.ts\<close>, the guard and the interceptor): the session as a step
    relation; rights, the token and the return path (C10 to C12).
  \<^item> \<open>Ui\<close>, \<open>Dialogs\<close>: the effects a component asks for (dialogs, notifications, navigation, calls), and
    the options the service opens a dialog with.
  \<^item> \<open>Budget_Details\<close>, \<open>Forms\<close>, \<open>Financial_History\<close> (\<open>budgets/components\<close>, with the forms of units
    and attachments): the page of a budget, with its runs indexed by
    the current URL (C13 to C15), five forms under the locale
    \<open>submit_guard\<close> (C16 to C18), the ledger of a call for funds with preview and confirmation
    (C19).
  \<^item> \<open>Users\<close> (\<open>users\<close>): permissions and their groups, the form and the decisions on an account
    as runs whose trace keeps what was asked for and answered (C21).
  \<^item> \<open>Member_Directory\<close>, \<open>Members\<close> (\<open>members\<close>): the normal form of a search on code points, the
    matching of members and lots, the source that forks two requests, the selection kept
    in the address and in a dialog, the association of lots (C25 to C27).
  \<^item> \<open>Emails\<close> (\<open>emails\<close>): the list of a campaign, the actions on confirmed rows and the sending of
    a selection one by one, which ends (C28, C29, C31).
  \<^item> \<open>Mailings\<close> (\<open>mailings\<close>): preview and synchronisation of the lists (C30).
  \<^item> \<open>Dashboard\<close>, \<open>Dashboard_Runs\<close> (\<open>dashboard\<close>): the figures as cells that follow the selection of the
    address, and the runs of the page with every request and answer, against which each figure is
    judged by what its own requests were answered (C32).
  \<^item> \<open>Json_Parse\<close>, \<open>Js_Values\<close>, \<open>Script_Json\<close>: \<open>JSON.parse\<close> and the round trip of \<open>JSON.stringify\<close>, proved
    once in the locale \<open>json_escape\<close> for every way to escape characters that the parser undoes; it is
    interpreted on the escape of \<open>stringify\<close> and on the one of a script element. The conversions of
    values whose type is not known, and the laws of objects.
  \<^item> \<open>Template_Data\<close> (\<open>shared/components/template-data-editor\<close>): the editor of the values of a
    template (C35).
  \<^item> \<open>Crud_Table\<close> (\<open>shared/components/crud-table\<close>, \<open>shared/datasources/crud-table.datasource.ts\<close>,
    \<open>shared/models/column.model.ts\<close>): the rows a table shows with its filter and sort, and the
    selection as a step relation over everything that can happen to a table (C36, C37).
    \<open>Table_Actions\<close> adds the actions, the rights given as streams and the projected columns.
  \<^item> \<open>Budget_Email_Form\<close> (\<open>budgets/components/budget-email-form\<close>): the recipients against their
    specification (C39), and the dialog with its requests in flight as a step relation: what is
    created is what was previewed (C38), and a creation that fails keeps the form (C9).
  \<^item> \<open>Tour\<close> (\<open>tour\<close>): the service, which interprets \<open>latest_source\<close>, and the page with its effect;
    the tour ends after one press of the button per new step (C40).
  \<^item> \<open>Email_Templates\<close> (\<open>emails/components/email-template-form\<close> and \<open>email-template-preview-form\<close>):
    the form of a template with the insertion of a variable at the caret, which interprets
    \<open>submit_guard\<close>, and the preview with sample or own data as a step relation.
  \<^item> \<open>Row_Lists\<close> (the pages of budgets, payments, lots, templates, attachments and campaigns): their
    columns, rights and editors; the locale \<open>confirmed_deletion\<close> is the contract of a deletion (one
    request per confirmation, none without), \<open>editable_list\<close> extends it with the reload after a
    success, and every list interprets one of them (C34). \<open>Directory_Columns\<close>: the columns of members
    and of e-mails.
  \<^item> \<open>Interactive_Map\<close> (\<open>shared/components/interactive-map\<close>): the elements of the SVG as a store, the
    inputs, the first view and the events as a step relation; one tab stop, and keys that stay within
    the lots in the order of their numbers, by the locale \<open>comparator\<close> (C20).
  \<^item> \<open>Inputs\<close> (\<open>shared/components/multi-select\<close>, \<open>file-upload\<close>) and \<open>Page_Frame\<close>
    (\<open>core/components/page\<close>, \<open>core/services/theme.service.ts\<close>): options offered or selected, the file
    chosen, the links of an account, the refresh of the session under \<open>submit_guard\<close>, the theme.

  \<^item> \<open>Routes\<close> (\<open>app-routing.module.ts\<close>, the routes and modules of the pages): the tables of routes, the
    page an address shows with the guards before it, composed with the guards of \<open>Auth\<close>, the links of
    \<open>Page_Frame\<close> and the rows of \<open>Row_Lists\<close> (C8).
  \<^item> \<open>Sheet_Generator\<close> (\<open>dev/generate-validation-sheet.mjs\<close>): the checklist read from Markdown, line by
    line with its errors, against the text it was written as (C22), and what a generated page
    guarantees (C24): its contents and sections, as the generator writes them, take no markup from a
    text. Texts are UTF-16 code units there, since titles have characters beyond the
    strings of the other theories.
  \<^item> \<open>Sheet_Session\<close>, \<open>Sheet_Display\<close> (the script inside that page): the controls, the results that are
    collected, stored, exported, checked and applied again (C23), and every state of the page under
    its listeners (C33). \<open>Schema_Normalize\<close> (\<open>frontend/generate-openapi.mjs\<close>): the normal form of the
    schema the API types are generated from.

  Each theory groups its lemmas the same way: the functions of a component with their laws, an
  invariant with one preservation lemma per operation, a step relation or a \<open>fold\<close> over events,
  and the properties, which follow from the invariant or from a locale's facts.

  Bounds. Every recursion is structural or has a measure (the decimals of a number, the
  percent-encoding of a string), but for the parser of JSON, whose fuel is twice the length of the
  text; lemma \<open>parse_fuel\<close> shows that more changes no result. Amounts are exact rationals: the comparison of an amount with
  its printed decimal is on the shortest decimal that ECMAScript prints, given by its digits and its
  exponent (\<open>wf_number\<close>); sums of amounts inside the page are exact, where the program rounds to
  binary64.

  Parameters. Code that is not in the repository is an argument of the definitions that use it:
  \<open>localeCompare\<close> (a comparison that satisfies \<open>collation\<close>), the Unicode decomposition of
  \<open>normalize\<close>, the rounded products of the sides of the map, \<open>Date.parse\<close> and the current year, the parsing of URLs and the browser storage, the
  text of the current time and of a syntax error, and the server, whose answers are any value of the declared type or an error.

  Not modelled: the templates and styles, Angular's rendering and change detection, the modules
  (declarations without logic), the parser of URLs, the formats of \<open>Intl\<close>, focus handling outside the map, the
  drawing of the map in SVG, the style sheet and fixed texts of the validation sheet, the environments
  (constants), the parser of schemas and the formatter that the generator of the API types calls; the Go server, which is another program, but for the
  fields of a call for funds it derives (\<open>server_row\<close>).
\<close>

end
